theory Spec2Isabelle
  imports Complex_Main
begin

section \<open>Scope\<close>

text \<open>
  A shallow embedding of the job orchestration code of the dyslexia-ai service:
  \<^item> \<open>services/progress_service.py\<close>: the weighted progress tracker;
  \<^item> \<open>services/job_manager.py\<close>, \<open>services/async_job_processor.py\<close>,
    \<open>services/webhook_service.py\<close>, \<open>api/async_processing_router_v2.py\<close>,
    \<open>models/models.py\<close>, \<open>services/orchestration_service.py\<close>: the job store, the staged
    processor with the entry of the orchestrator it calls, its webhooks and the cancel
    endpoint;
  \<^item> \<open>services/redis_pub_sub_service.py\<close>, \<open>services/prd_async_processor.py\<close>,
    \<open>services/spring_callback_service.py\<close>, \<open>services/s3_json_uploader.py\<close>,
    \<open>api/async_prd_router.py\<close>: admission, the background pipeline, the bus and the callback;
  \<^item> \<open>services/transformation_service.py\<close>, \<open>pipelines/main_pipeline.py\<close>: chunk
    transformation, image processing and final assembly.

  Conventions. A Python exception is the \<open>Inl\<close> of a sum. Mutation of a store or of an
  object is explicit state passing. Every external collaborator (the LLM chain, HTTP, Redis
  publish, S3) is an input of the model that fixes what the collaborator answers: the
  functions below are deterministic in these inputs. The floats of the progress tracker are
  doubles, with the rounding of every operation; the percentages of the job manager and of
  the staged processor are reals (those that a run stores are 0, 5 and 100). Time stamps
  and log lines change no control flow and are left out.
\<close>

section \<open>Double precision\<close>

text \<open>
  A Python \<open>float\<close> is an IEEE 754 double: a real \<open>m * 2 ^ q\<close> with an integer \<open>m\<close>,
  \<open>\<bar>m\<bar> < 2 ^ 53\<close> and \<open>- 1074 \<le> q\<close>. The doubles between \<open>2 ^ e\<close> and \<open>2 ^ (e + 1)\<close> are
  \<open>2 ^ (e - 52)\<close> apart, with \<open>e\<close> from -1022 to 1023; below \<open>2 ^ (- 1022)\<close> they are
  \<open>2 ^ (- 1074)\<close> apart. \<open>exponent a\<close> is that \<open>e\<close> for a magnitude \<open>a\<close>, found from the
  top, and \<open>ulp a\<close> the spacing.
\<close>

fun binade :: "nat \<Rightarrow> int \<Rightarrow> real \<Rightarrow> int" where
  "binade 0 e a = e"
| "binade (Suc n) e a = (if 2 powi e \<le> a then e else binade n (e - 1) a)"

definition exponent :: "real \<Rightarrow> int" where
  "exponent a = binade 2045 1023 a"

definition ulp :: "real \<Rightarrow> real" where
  "ulp a = 2 powi (exponent a - 52)"

text \<open>The nearest integer, a tie going to the even one.\<close>

definition round_half_even :: "real \<Rightarrow> int" where
  "round_half_even r =
     (let f = \<lfloor>r\<rfloor>; d = r - of_int f
      in if d < 1 / 2 then f else if 1 / 2 < d then f + 1 else if even f then f else f + 1)"

text \<open>
  The double nearest to a real, ties to even: the rounding of every arithmetic operation
  and of every decimal literal. Overflow to infinity, which begins at \<open>2 ^ 1024\<close>, is not
  part of it; no value of the tracker leaves \<open>[0, 100]\<close>. \<open>fmul\<close> and \<open>fadd\<close> are
  \<open>*\<close> and \<open>+\<close> on floats.
\<close>

definition to_double :: "real \<Rightarrow> real" where
  "to_double x = of_int (round_half_even (x / ulp \<bar>x\<bar>)) * ulp \<bar>x\<bar>"

definition fmul :: "real \<Rightarrow> real \<Rightarrow> real" where
  "fmul a b = to_double (a * b)"

definition fadd :: "real \<Rightarrow> real \<Rightarrow> real" where
  "fadd a b = to_double (a + b)"

section \<open>progress\_service.py\<close>

text \<open>
  A Python float as an argument: finite, infinite or not a number. \<open>Fin r\<close> takes any
  real \<open>r\<close>; the doubles are among them.
\<close>

datatype pyfloat = Fin real | PosInf | NegInf | NaN

text \<open>Python's \<open><\<close> on floats: every comparison with NaN is false.\<close>

fun py_lt :: "pyfloat \<Rightarrow> pyfloat \<Rightarrow> bool" where
  "py_lt NaN _ = False"
| "py_lt _ NaN = False"
| "py_lt (Fin a) (Fin b) = (a < b)"
| "py_lt NegInf NegInf = False"
| "py_lt NegInf _ = True"
| "py_lt _ NegInf = False"
| "py_lt PosInf _ = False"
| "py_lt _ PosInf = True"

text \<open>
  The builtins \<open>min(a, b)\<close> and \<open>max(a, b)\<close>: the first argument is kept unless the
  second is strictly smaller (greater).
\<close>

definition py_min :: "pyfloat \<Rightarrow> pyfloat \<Rightarrow> pyfloat" where
  "py_min a b = (if py_lt b a then b else a)"

definition py_max :: "pyfloat \<Rightarrow> pyfloat \<Rightarrow> pyfloat" where
  "py_max a b = (if py_lt a b then b else a)"

text \<open>\<open>max(0.0, min(100.0, progress))\<close>, the first line of \<open>update_progress\<close>.\<close>

definition clamp_progress :: "pyfloat \<Rightarrow> pyfloat" where
  "clamp_progress p = py_max (Fin 0) (py_min (Fin 100) p)"

text \<open>
  The clamped value is always finite (lemma \<open>clamp_progress_finite\<close> below), so the
  fields of \<open>ProgressData\<close> hold reals; the three other cases are never taken.
\<close>

definition clamped :: "pyfloat \<Rightarrow> real" where
  "clamped p = (case clamp_progress p of Fin r \<Rightarrow> r | PosInf \<Rightarrow> 100 | NegInf \<Rightarrow> 0 | NaN \<Rightarrow> 0)"

record ProgressData =
  preprocessing :: real
  block_transformation :: real
  phoneme_analysis :: real
  block_word_phoneme_analysis :: real
  post_processing :: real
  overall :: real

text \<open>\<open>ProgressData()\<close>: the dataclass defaults.\<close>

definition ProgressData_init :: ProgressData where
  "ProgressData_init = \<lparr>preprocessing = 0, block_transformation = 0, phoneme_analysis = 0,
     block_word_phoneme_analysis = 0, post_processing = 0, overall = 0\<rparr>"

text \<open>
  The tracker: its \<open>progress\<close> and the value \<open>_save_progress\<close> stored last (under
  \<open>progress:{filename}:{task_id}\<close> or in the memory store).
\<close>

record ProgressTracker =
  progress :: ProgressData
  saved_overall :: real

definition ProgressTracker_init :: ProgressTracker where
  "ProgressTracker_init = \<lparr>progress = ProgressData_init, saved_overall = overall ProgressData_init\<rparr>"

text \<open>
  The dict \<open>weights\<close> of \<open>_calculate_overall_progress\<close>: the literals \<open>0.20\<close>, \<open>0.40\<close>,
  \<open>0.15\<close>, \<open>0.15\<close> and \<open>0.10\<close> are the doubles nearest to these decimals.
\<close>

definition weight_preprocessing :: real where
  "weight_preprocessing = to_double (20 / 100)"

definition weight_block_transformation :: real where
  "weight_block_transformation = to_double (40 / 100)"

definition weight_phoneme_analysis :: real where
  "weight_phoneme_analysis = to_double (15 / 100)"

definition weight_block_word_phoneme_analysis :: real where
  "weight_block_word_phoneme_analysis = to_double (15 / 100)"

definition weight_post_processing :: real where
  "weight_post_processing = to_double (10 / 100)"

text \<open>
  \<open>total_progress\<close>: the five products, each of a field with its weight, added from left
  to right, every product and every sum rounded.
\<close>

definition weighted_average :: "ProgressData \<Rightarrow> real" where
  "weighted_average d =
     fadd (fadd (fadd (fadd (fmul (preprocessing d) weight_preprocessing)
                            (fmul (block_transformation d) weight_block_transformation))
                      (fmul (phoneme_analysis d) weight_phoneme_analysis))
                (fmul (block_word_phoneme_analysis d) weight_block_word_phoneme_analysis))
          (fmul (post_processing d) weight_post_processing)"

text \<open>
  The weighted average as the specification writes it, in exact arithmetic, to compare
  \<open>weighted_average\<close> with.
\<close>

definition exact_weighted_average :: "ProgressData \<Rightarrow> real" where
  "exact_weighted_average d =
     0.20 * preprocessing d + 0.40 * block_transformation d + 0.15 * phoneme_analysis d
     + 0.15 * block_word_phoneme_analysis d + 0.10 * post_processing d"

definition calculate_overall_progress :: "ProgressTracker \<Rightarrow> ProgressTracker" where
  "calculate_overall_progress t = t\<lparr>progress := (progress t)\<lparr>overall := weighted_average (progress t)\<rparr>\<rparr>"

definition save_progress :: "ProgressTracker \<Rightarrow> ProgressTracker" where
  "save_progress t = t\<lparr>saved_overall := overall (progress t)\<rparr>"

text \<open>
  \<open>update_progress(step_name, progress)\<close>: clamp, store in the field the name selects,
  recompute and save; an unknown name logs a warning and returns with nothing changed.
\<close>

definition update_progress :: "ProgressTracker \<Rightarrow> string \<Rightarrow> pyfloat \<Rightarrow> ProgressTracker" where
  "update_progress t step_name p =
     (let v = clamped p in
      if step_name = ''preprocessing'' then
        save_progress (calculate_overall_progress (t\<lparr>progress := (progress t)\<lparr>preprocessing := v\<rparr>\<rparr>))
      else if step_name = ''block_transformation'' then
        save_progress (calculate_overall_progress (t\<lparr>progress := (progress t)\<lparr>block_transformation := v\<rparr>\<rparr>))
      else if step_name = ''phoneme_analysis'' then
        save_progress (calculate_overall_progress (t\<lparr>progress := (progress t)\<lparr>phoneme_analysis := v\<rparr>\<rparr>))
      else if step_name = ''block_word_phoneme_analysis'' then
        save_progress (calculate_overall_progress (t\<lparr>progress := (progress t)\<lparr>block_word_phoneme_analysis := v\<rparr>\<rparr>))
      else if step_name = ''post_processing'' then
        save_progress (calculate_overall_progress (t\<lparr>progress := (progress t)\<lparr>post_processing := v\<rparr>\<rparr>))
      else t)"

text \<open>A sequence of calls on one tracker.\<close>

definition update_all :: "ProgressTracker \<Rightarrow> (string \<times> pyfloat) list \<Rightarrow> ProgressTracker" where
  "update_all t calls = foldl (\<lambda>s (n, p). update_progress s n p) t calls"

text \<open>
  The invariant of the tracker: every field in range, \<open>overall\<close> the rounded weighted
  sum, in range and close to the exact weighted average.
\<close>

definition in_range :: "real \<Rightarrow> bool" where
  "in_range x = (0 \<le> x \<and> x \<le> 100)"

definition tracker_ok :: "ProgressTracker \<Rightarrow> bool" where
  "tracker_ok t =
     (in_range (preprocessing (progress t)) \<and> in_range (block_transformation (progress t))
      \<and> in_range (phoneme_analysis (progress t))
      \<and> in_range (block_word_phoneme_analysis (progress t))
      \<and> in_range (post_processing (progress t))
      \<and> overall (progress t) = weighted_average (progress t)
      \<and> in_range (overall (progress t))
      \<and> \<bar>overall (progress t) - exact_weighted_average (progress t)\<bar> \<le> 1 / 10 ^ 12)"

section \<open>job\_manager.py\<close>

text \<open>
  \<open>JobStatus\<close> and \<open>JobStep\<close>, in the order of the enums. \<open>JobStep\<close> and the
  \<open>ProcessingStage\<close> of the processor share member names with \<open>JobStatus\<close> and with
  each other, so the steps carry the prefix \<open>STEP_\<close> and the stages \<open>STAGE_\<close>.
\<close>

datatype JobStatus =
  PENDING | PREPROCESSING | TRANSFORMING | GENERATING_IMAGES | ANALYZING_PHONEMES
  | WEBHOOK_SENDING | COMPLETED | FAILED

datatype JobStep =
  STEP_INITIALIZATION | STEP_PDF_EXTRACTION | STEP_TEXT_NORMALIZATION | STEP_CHUNKING
  | STEP_BLOCK_TRANSFORMATION | STEP_IMAGE_GENERATION | STEP_PHONEME_ANALYSIS
  | STEP_BLOCK_WORD_PHONEME_ANALYSIS | STEP_FINAL_PROCESSING | STEP_WEBHOOK_NOTIFICATION
  | STEP_COMPLETED

text \<open>The statuses that end a job. The enum has no member for a cancelled job.\<close>

definition terminal :: "JobStatus \<Rightarrow> bool" where
  "terminal s = (s = COMPLETED \<or> s = FAILED)"

text \<open>
  \<open>JobProgress\<close> and \<open>JobResult\<close> without \<open>step_details\<close>, \<open>metadata\<close> and the
  time stamps (\<open>started_at\<close>, \<open>updated_at\<close>, \<open>estimated_completion_time\<close>, \<open>created_at\<close>,
  \<open>completed_at\<close>, \<open>processing_time\<close>).
\<close>

record JobProgress =
  job_id :: string
  status :: JobStatus
  current_step :: JobStep
  progress_percentage :: real
  total_steps :: nat
  current_step_index :: nat
  error_message :: "string option"

record JobResult =
  result_job_id :: string
  result_status :: JobStatus
  filename :: string
  result_data :: string

text \<open>
  The Redis keys \<open>job:progress:{job_id}\<close> and \<open>job:result:{job_id}\<close>, and, for stating
  properties of successive snapshots, every value \<open>setex\<close> stored under them, oldest first.
  For the progress key the store is taken to answer: a Redis error is caught and logged by
  each method that writes it, which then returns \<open>False\<close> with nothing written. The
  write of the result, whose payload is the output of the pipeline, can fail: see
  \<open>save_result\<close>.
\<close>

record job_store =
  progress_key :: "string \<rightharpoonup> JobProgress"
  result_key :: "string \<rightharpoonup> JobResult"
  progress_writes :: "JobProgress list"
  result_writes :: "JobResult list"

definition empty_store :: job_store where
  "empty_store = \<lparr>progress_key = Map.empty, result_key = Map.empty, progress_writes = [],
     result_writes = []\<rparr>"

definition setex_progress :: "job_store \<Rightarrow> JobProgress \<Rightarrow> job_store" where
  "setex_progress st p =
     st\<lparr>progress_key := (progress_key st)(job_id p \<mapsto> p),
        progress_writes := progress_writes st @ [p]\<rparr>"

definition setex_result :: "job_store \<Rightarrow> JobResult \<Rightarrow> job_store" where
  "setex_result st r =
     st\<lparr>result_key := (result_key st)(result_job_id r \<mapsto> r),
        result_writes := result_writes st @ [r]\<rparr>"

text \<open>\<open>self.step_weights\<close>, in the insertion order of the dict.\<close>

definition step_weights :: "(JobStep \<times> nat) list" where
  "step_weights =
     [(STEP_INITIALIZATION, 5), (STEP_PDF_EXTRACTION, 10), (STEP_TEXT_NORMALIZATION, 10),
      (STEP_CHUNKING, 10), (STEP_BLOCK_TRANSFORMATION, 30), (STEP_IMAGE_GENERATION, 20),
      (STEP_PHONEME_ANALYSIS, 10), (STEP_BLOCK_WORD_PHONEME_ANALYSIS, 3),
      (STEP_FINAL_PROCESSING, 1), (STEP_WEBHOOK_NOTIFICATION, 1), (STEP_COMPLETED, 0)]"

text \<open>\<open>list.index\<close>: \<open>None\<close> stands for its ValueError.\<close>

fun index_of :: "'a list \<Rightarrow> 'a \<Rightarrow> nat option" where
  "index_of [] x = None"
| "index_of (y # ys) x = (if x = y then Some 0 else map_option Suc (index_of ys x))"

definition calculate_progress_percentage :: "nat \<Rightarrow> real" where
  "calculate_progress_percentage idx =
     (if idx \<ge> length step_weights - 1 then 100
      else
        let completed_weight = sum_list (map snd (take idx step_weights));
            total_weight = sum_list (map snd (filter (\<lambda>(step, weight). step \<noteq> STEP_COMPLETED) step_weights))
        in min 100 (real completed_weight / real total_weight * 100))"

definition get_progress :: "job_store \<Rightarrow> string \<Rightarrow> JobProgress option" where
  "get_progress st j = progress_key st j"


text \<open>
  \<open>create_job\<close>. The id is \<open>generate_job_id()\<close>, a fresh uuid with the time: an input here.
\<close>

definition create_job :: "job_store \<Rightarrow> string \<Rightarrow> job_store" where
  "create_job st j =
     setex_progress st
       \<lparr>job_id = j, status = PENDING, current_step = STEP_INITIALIZATION,
        progress_percentage = 0, total_steps = length step_weights - 1,
        current_step_index = 0, error_message = None\<rparr>"

text \<open>
  \<open>JobManager.update_progress\<close>, which the module's helper \<open>update_job_progress\<close> calls on
  the global instance. The percentage comes from the index of the step alone.
\<close>

definition update_job_progress ::
  "job_store \<Rightarrow> string \<Rightarrow> JobStatus \<Rightarrow> JobStep \<Rightarrow> string option \<Rightarrow> bool \<times> job_store" where
  "update_job_progress st j new_status step err =
     (case get_progress st j of
        None \<Rightarrow> (False, st)
      | Some existing_progress \<Rightarrow>
          (case index_of (map fst step_weights) step of
             None \<Rightarrow> (False, st)
           | Some idx \<Rightarrow>
               (True, setex_progress st
                  \<lparr>job_id = j, status = new_status, current_step = step,
                   progress_percentage = calculate_progress_percentage idx,
                   total_steps = total_steps existing_progress,
                   current_step_index = idx, error_message = err\<rparr>)))"

text \<open>
  What can go wrong in \<open>save_result\<close> once the progress record is found:
  \<open>json.dumps\<close> raises on a result that cannot be serialised, or \<open>setex\<close> raises,
  the value having reached the store (\<open>True\<close>) or not. Either way the \<open>except\<close> of
  the method returns \<open>False\<close> and the progress record is left as it was.
\<close>

datatype write_fault = DumpsRaises | SetexRaises bool

text \<open>
  \<open>save_result\<close>: the only test before the write is that a progress record exists; the
  status it holds is not read. The update of the progress record that follows the write
  catches its own errors.
\<close>

definition save_result ::
  "job_store \<Rightarrow> string \<Rightarrow> string \<Rightarrow> string \<Rightarrow> write_fault option \<Rightarrow> bool \<times> job_store" where
  "save_result st j data fname fault =
     (case get_progress st j of
        None \<Rightarrow> (False, st)
      | Some p \<Rightarrow>
          let job_result = \<lparr>result_job_id = j, result_status = COMPLETED, filename = fname,
                              result_data = data\<rparr>
          in (case fault of
                Some DumpsRaises \<Rightarrow> (False, st)
              | Some (SetexRaises stored) \<Rightarrow>
                  (False, if stored then setex_result st job_result else st)
              | None \<Rightarrow>
                  (True, snd (update_job_progress (setex_result st job_result) j COMPLETED
                                STEP_COMPLETED None))))"

definition mark_failed :: "job_store \<Rightarrow> string \<Rightarrow> string \<Rightarrow> bool \<times> job_store" where
  "mark_failed st j msg = update_job_progress st j FAILED STEP_COMPLETED (Some msg)"

section \<open>webhook\_service.py\<close>

text \<open>What one \<open>client.post\<close> does: a response with its status code, or an exception.\<close>

datatype http_outcome = Status nat | TimeoutException | ConnectError | OtherError

text \<open>
  The awaits of \<open>_send_webhook_with_retry\<close> at which the task waits: the post of an
  attempt and the delay after it. \<open>task.cancel()\<close> raises \<open>CancelledError\<close> in the
  task at the await where it is suspended; \<open>CancelledError\<close> is a \<open>BaseException\<close>,
  so no \<open>except Exception\<close> of the code catches it.
\<close>

datatype await_point = AwaitPost nat | AwaitSleep nat

text \<open>
  \<open>_send_webhook_with_retry\<close>: \<open>max_retry_attempts = 3\<close>, \<open>retry_delay = 2\<close>. The first
  argument counts the iterations left, the second is \<open>attempt\<close>; \<open>resp k\<close> is what the
  \<open>k\<close>-th post does, \<open>cancel\<close> the await at which a cancellation arrives, if any. The
  result is the return value (\<open>None\<close>: \<open>CancelledError\<close> leaves the function), the
  number of posts made (a post is counted when it is made, also when the task is cancelled
  while it waits for the answer) and the delays slept or begun.
\<close>

definition max_retry_attempts :: nat where
  "max_retry_attempts = 3"

definition retry_delay :: nat where
  "retry_delay = 2"

fun webhook_loop ::
  "nat \<Rightarrow> nat \<Rightarrow> (nat \<Rightarrow> http_outcome) \<Rightarrow> await_point option \<Rightarrow> bool option \<times> nat \<times> nat list" where
  "webhook_loop 0 attempt resp cancel = (Some False, 0, [])"
| "webhook_loop (Suc n) attempt resp cancel =
     (if cancel = Some (AwaitPost attempt) then (None, 1, [])
      else
        let again =
              (if attempt < max_retry_attempts - 1 then
                 (if cancel = Some (AwaitSleep attempt) then
                    (None, 1, [retry_delay * (attempt + 1)])
                  else
                    let (r, posts, sleeps) = webhook_loop n (attempt + 1) resp cancel
                    in (r, Suc posts, retry_delay * (attempt + 1) # sleeps))
               else
                 let (r, posts, sleeps) = webhook_loop n (attempt + 1) resp cancel
                 in (r, Suc posts, sleeps))
        in case resp attempt of
             Status code \<Rightarrow>
               if code = 200 \<or> code = 201 \<or> code = 202 then (Some True, 1, [])
               else if 400 \<le> code \<and> code < 500 then (Some False, 1, [])
               else again
           | _ \<Rightarrow> again)"

definition send_webhook_with_retry ::
  "(nat \<Rightarrow> http_outcome) \<Rightarrow> await_point option \<Rightarrow> bool option \<times> nat \<times> nat list" where
  "send_webhook_with_retry resp cancel = webhook_loop max_retry_attempts 0 resp cancel"

section \<open>models.py and orchestration\_service.py\<close>

text \<open>
  A Python exception that leaves a function: an \<open>Exception\<close> with its message, or the
  \<open>CancelledError\<close> of a cancelled task.
\<close>

datatype exc = Exception string | CancelledError

text \<open>
  \<open>OrchestrationOptions\<close>, a pydantic model: the fields it declares are \<open>model_name\<close>
  (\<open>min_length = 1\<close>), \<open>max_concurrent\<close> (\<open>ge = 1\<close>, \<open>le = 20\<close>) and the three option
  groups \<open>preprocessing\<close>, \<open>transformation\<close> and \<open>phoneme_analysis\<close>, which take their
  defaults here. The class sets no \<open>extra\<close> policy, so a keyword of the constructor that
  names no field is dropped; a value that breaks a constraint raises a validation error.
\<close>

record OrchestrationOptions =
  opt_model_name :: string
  opt_max_concurrent :: int

definition new_OrchestrationOptions :: "string \<Rightarrow> int \<Rightarrow> exc + OrchestrationOptions" where
  "new_OrchestrationOptions name concurrent =
     (if length name < 1 \<or> concurrent < 1 \<or> 20 < concurrent then
        Inl (Exception ''validation error for OrchestrationOptions'')
      else Inr \<lparr>opt_model_name = name, opt_max_concurrent = concurrent\<rparr>)"

text \<open>
  What \<open>execute_complete_pipeline\<close> returns: the dict with \<open>success\<close>, \<open>error\<close> and
  \<open>data\<close>.
\<close>

record orchestration_result =
  orch_success :: bool
  orch_error :: string
  orch_data :: string

text \<open>
  \<open>ProcessingOrchestrator.execute_complete_pipeline\<close>. Its first statement, before the
  \<open>try\<close>, logs \<open>options.job_id\<close>. \<open>job_id\<close> is not a field of \<open>OrchestrationOptions\<close>
  (the keyword \<open>job_id\<close> the processor passes to the constructor was dropped), so reading
  the attribute raises \<open>AttributeError\<close>, for every argument. No statement after it
  runs, and none is embedded.
\<close>

definition execute_complete_pipeline :: "OrchestrationOptions \<Rightarrow> exc + orchestration_result" where
  "execute_complete_pipeline options =
     Inl (Exception ''OrchestrationOptions object has no attribute job_id'')"

section \<open>async\_job\_processor.py and the cancel endpoint\<close>

datatype ProcessingStage =
  STAGE_INITIALIZATION | STAGE_PDF_EXTRACTION | STAGE_TEXT_PROCESSING
  | STAGE_BLOCK_TRANSFORMATION | STAGE_IMAGE_GENERATION | STAGE_PHONEME_ANALYSIS
  | STAGE_FINAL_PROCESSING

fun start_percent :: "ProcessingStage \<Rightarrow> real" where
  "start_percent STAGE_INITIALIZATION = 0"
| "start_percent STAGE_PDF_EXTRACTION = 5"
| "start_percent STAGE_TEXT_PROCESSING = 20"
| "start_percent STAGE_BLOCK_TRANSFORMATION = 30"
| "start_percent STAGE_IMAGE_GENERATION = 60"
| "start_percent STAGE_PHONEME_ANALYSIS = 75"
| "start_percent STAGE_FINAL_PROCESSING = 90"

fun end_percent :: "ProcessingStage \<Rightarrow> real" where
  "end_percent STAGE_INITIALIZATION = 5"
| "end_percent STAGE_PDF_EXTRACTION = 20"
| "end_percent STAGE_TEXT_PROCESSING = 30"
| "end_percent STAGE_BLOCK_TRANSFORMATION = 60"
| "end_percent STAGE_IMAGE_GENERATION = 75"
| "end_percent STAGE_PHONEME_ANALYSIS = 90"
| "end_percent STAGE_FINAL_PROCESSING = 100"

text \<open>\<open>_get_job_status\<close> and \<open>_get_job_step\<close>: the two dicts.\<close>

fun get_job_status :: "ProcessingStage \<Rightarrow> JobStatus" where
  "get_job_status STAGE_INITIALIZATION = PENDING"
| "get_job_status STAGE_PDF_EXTRACTION = PREPROCESSING"
| "get_job_status STAGE_TEXT_PROCESSING = PREPROCESSING"
| "get_job_status STAGE_BLOCK_TRANSFORMATION = TRANSFORMING"
| "get_job_status STAGE_IMAGE_GENERATION = GENERATING_IMAGES"
| "get_job_status STAGE_PHONEME_ANALYSIS = ANALYZING_PHONEMES"
| "get_job_status STAGE_FINAL_PROCESSING = TRANSFORMING"

fun get_job_step :: "ProcessingStage \<Rightarrow> JobStep" where
  "get_job_step STAGE_INITIALIZATION = STEP_INITIALIZATION"
| "get_job_step STAGE_PDF_EXTRACTION = STEP_PDF_EXTRACTION"
| "get_job_step STAGE_TEXT_PROCESSING = STEP_CHUNKING"
| "get_job_step STAGE_BLOCK_TRANSFORMATION = STEP_BLOCK_TRANSFORMATION"
| "get_job_step STAGE_IMAGE_GENERATION = STEP_IMAGE_GENERATION"
| "get_job_step STAGE_PHONEME_ANALYSIS = STEP_PHONEME_ANALYSIS"
| "get_job_step STAGE_FINAL_PROCESSING = STEP_FINAL_PROCESSING"

text \<open>
  \<open>_update_job_progress_direct\<close>: the percentage is written as given, past the weights of
  the job manager; index and step count are taken over from the stored record.
\<close>

definition update_job_progress_direct ::
  "job_store \<Rightarrow> string \<Rightarrow> JobStatus \<Rightarrow> JobStep \<Rightarrow> real \<Rightarrow> bool \<times> job_store" where
  "update_job_progress_direct st j new_status step pct =
     (case get_progress st j of
        None \<Rightarrow> (False, st)
      | Some existing_progress \<Rightarrow>
          (True, setex_progress st
             \<lparr>job_id = j, status = new_status, current_step = step,
              progress_percentage = pct,
              total_steps = total_steps existing_progress,
              current_step_index = current_step_index existing_progress,
              error_message = None\<rparr>))"

definition total_progress :: "ProcessingStage \<Rightarrow> real \<Rightarrow> real" where
  "total_progress stage stage_progress =
     (let sp = max 0 (min 100 stage_progress)
      in start_percent stage + (end_percent stage - start_percent stage) * (sp / 100))"

definition update_stage_progress :: "job_store \<Rightarrow> string \<Rightarrow> ProcessingStage \<Rightarrow> real \<Rightarrow> job_store" where
  "update_stage_progress st j stage stage_progress =
     snd (update_job_progress_direct st j (get_job_status stage) (get_job_step stage)
            (total_progress stage stage_progress))"

text \<open>
  \<open>ProcessingContext\<close>, with the two entries of \<open>processing_options\<close> that the
  constructor of \<open>OrchestrationOptions\<close> validates.
\<close>

record ProcessingContext =
  ctx_job_id :: string
  ctx_filename :: string
  webhook_url :: "string option"
  ctx_model_name :: string
  ctx_max_concurrent :: int

text \<open>\<open>if context.webhook_url:\<close> is false for \<open>None\<close> and for the empty string.\<close>

definition has_webhook :: "ProcessingContext \<Rightarrow> bool" where
  "has_webhook ctx = (case webhook_url ctx of None \<Rightarrow> False | Some u \<Rightarrow> u \<noteq> [])"

text \<open>
  What the collaborators of one run answer: whether the temporary file opens, what each
  webhook post does, and what goes wrong in a write of the result, if anything.
\<close>

record run_env =
  file_readable :: bool
  webhook_responses :: "nat \<Rightarrow> http_outcome"
  save_fault :: "write_fault option"

text \<open>
  A post to the webhook url, logged when it is made: the job and the \<open>event_type\<close>.
\<close>

datatype webhook_post = WebhookPost string string

text \<open>
  The processor: the shared store, the keys of \<open>active_jobs\<close> and the webhook posts made.
\<close>

record processor =
  store :: job_store
  active_jobs :: "string set"
  webhook_posts :: "webhook_post list"

definition log_posts :: "processor \<Rightarrow> string \<Rightarrow> string \<Rightarrow> nat \<Rightarrow> processor" where
  "log_posts p j event_type n =
     p\<lparr>webhook_posts := webhook_posts p @ replicate n (WebhookPost j event_type)\<rparr>"

text \<open>
  \<open>send_completion_webhook\<close>: the result is saved whether the webhook was delivered or
  not. The \<open>exc option\<close> is the exception that leaves the function: none but the
  \<open>CancelledError\<close> of a task cancelled in the retry loop, after which nothing is saved.
\<close>

definition send_completion_webhook ::
  "ProcessingContext \<Rightarrow> run_env \<Rightarrow> await_point option \<Rightarrow> string \<Rightarrow> processor
     \<Rightarrow> processor \<times> exc option" where
  "send_completion_webhook ctx env cancel data p =
     (let (success, posts, sleeps) = send_webhook_with_retry (webhook_responses env) cancel;
          p1 = log_posts p (ctx_job_id ctx) ''job_completed'' posts
      in case success of
           None \<Rightarrow> (p1, Some CancelledError)
         | Some delivered \<Rightarrow>
             (p1\<lparr>store := snd (save_result (store p1) (ctx_job_id ctx) data (ctx_filename ctx)
                                  (save_fault env))\<rparr>,
              None))"

text \<open>
  \<open>send_failure_webhook\<close>: the job is marked failed whether the webhook was delivered or
  not, but not when the task is cancelled in the retry loop.
\<close>

definition send_failure_webhook ::
  "ProcessingContext \<Rightarrow> run_env \<Rightarrow> await_point option \<Rightarrow> string \<Rightarrow> processor
     \<Rightarrow> processor \<times> exc option" where
  "send_failure_webhook ctx env cancel msg p =
     (let (success, posts, sleeps) = send_webhook_with_retry (webhook_responses env) cancel;
          p1 = log_posts p (ctx_job_id ctx) ''job_failed'' posts
      in case success of
           None \<Rightarrow> (p1, Some CancelledError)
         | Some delivered \<Rightarrow>
             (p1\<lparr>store := snd (mark_failed (store p1) (ctx_job_id ctx) msg)\<rparr>, None))"

definition handle_completion ::
  "ProcessingContext \<Rightarrow> run_env \<Rightarrow> await_point option \<Rightarrow> string \<Rightarrow> processor
     \<Rightarrow> processor \<times> exc option" where
  "handle_completion ctx env cancel data p =
     (if has_webhook ctx then
        send_completion_webhook ctx env cancel data
          (p\<lparr>store := snd (update_job_progress (store p) (ctx_job_id ctx) WEBHOOK_SENDING
                            STEP_WEBHOOK_NOTIFICATION None)\<rparr>)
      else
        let s1 = snd (save_result (store p) (ctx_job_id ctx) data (ctx_filename ctx)
                        (save_fault env));
            s2 = snd (update_job_progress s1 (ctx_job_id ctx) COMPLETED STEP_COMPLETED None)
        in (p\<lparr>store := s2\<rparr>, None))"

definition handle_failure ::
  "ProcessingContext \<Rightarrow> run_env \<Rightarrow> await_point option \<Rightarrow> string \<Rightarrow> processor
     \<Rightarrow> processor \<times> exc option" where
  "handle_failure ctx env cancel msg p =
     (if has_webhook ctx then send_failure_webhook ctx env cancel msg p
      else (p\<lparr>store := snd (mark_failed (store p) (ctx_job_id ctx) msg)\<rparr>, None))"

text \<open>\<open>_cleanup\<close>: the temporary file is outside the model.\<close>

definition cleanup :: "ProcessingContext \<Rightarrow> processor \<Rightarrow> processor" where
  "cleanup ctx p = p\<lparr>active_jobs := active_jobs p - {ctx_job_id ctx}\<rparr>"

text \<open>
  The \<open>try\<close> block of \<open>_process_pipeline\<close>: the first stage update, the file, the options,
  then the stage functions in their order, each reporting 0 and 100 of its stage. Only
  \<open>_execute_pdf_extraction\<close> does work, the call of \<open>execute_complete_pipeline\<close>;
  \<open>STAGE_TEXT_PROCESSING\<close> is never reported. None of the awaits up to
  \<open>_handle_completion\<close> waits for anything: the stage updates write to Redis with the
  blocking client, and the pipeline call raises before its first await.
\<close>

definition pipeline_body ::
  "ProcessingContext \<Rightarrow> run_env \<Rightarrow> await_point option \<Rightarrow> processor \<Rightarrow> processor \<times> exc option" where
  "pipeline_body ctx env cancel p =
     (let j = ctx_job_id ctx;
          s1 = update_stage_progress (store p) j STAGE_INITIALIZATION 0
      in if \<not> file_readable env then (p\<lparr>store := s1\<rparr>, Some (Exception ''cannot open file''))
         else
           (case new_OrchestrationOptions (ctx_model_name ctx) (ctx_max_concurrent ctx) of
              Inl e \<Rightarrow> (p\<lparr>store := s1\<rparr>, Some e)
            | Inr options \<Rightarrow>
                let s2 = update_stage_progress s1 j STAGE_PDF_EXTRACTION 0
                in (case execute_complete_pipeline options of
                      Inl e \<Rightarrow> (p\<lparr>store := s2\<rparr>, Some e)
                    | Inr result \<Rightarrow>
                        if \<not> orch_success result then
                          (p\<lparr>store := s2\<rparr>, Some (Exception (''pipeline failed: '' @ orch_error result)))
                        else
                          let s3 = update_stage_progress s2 j STAGE_PDF_EXTRACTION 100;
                              s4 = update_stage_progress s3 j STAGE_BLOCK_TRANSFORMATION 0;
                              s5 = update_stage_progress s4 j STAGE_BLOCK_TRANSFORMATION 100;
                              s6 = update_stage_progress s5 j STAGE_IMAGE_GENERATION 0;
                              s7 = update_stage_progress s6 j STAGE_IMAGE_GENERATION 100;
                              s8 = update_stage_progress s7 j STAGE_PHONEME_ANALYSIS 0;
                              s9 = update_stage_progress s8 j STAGE_PHONEME_ANALYSIS 100;
                              s10 = update_stage_progress s9 j STAGE_FINAL_PROCESSING 0;
                              s11 = update_stage_progress s10 j STAGE_FINAL_PROCESSING 100
                          in handle_completion ctx env cancel (orch_data result)
                               (p\<lparr>store := s11\<rparr>))))"

text \<open>
  \<open>_process_pipeline\<close>: \<open>try\<close>, \<open>except Exception\<close>, \<open>finally\<close>. A \<open>CancelledError\<close>
  passes the \<open>except\<close>; \<open>finally\<close> runs in every case.
\<close>

definition process_pipeline ::
  "ProcessingContext \<Rightarrow> run_env \<Rightarrow> await_point option \<Rightarrow> processor \<Rightarrow> processor" where
  "process_pipeline ctx env cancel p =
     (let (p1, raised) = pipeline_body ctx env cancel p;
          p2 = (case raised of
                  Some (Exception msg) \<Rightarrow> fst (handle_failure ctx env cancel msg p1)
                | _ \<Rightarrow> p1)
      in cleanup ctx p2)"

text \<open>
  \<open>start_processing\<close>: the job is created, the task is created and entered in
  \<open>active_jobs\<close>. The task itself runs afterwards (\<open>process_pipeline\<close>).
\<close>

definition start_processing :: "processor \<Rightarrow> string \<Rightarrow> processor" where
  "start_processing p j = p\<lparr>store := create_job (store p) j, active_jobs := insert j (active_jobs p)\<rparr>"

definition processor_init :: processor where
  "processor_init = \<lparr>store = empty_store, active_jobs = {}, webhook_posts = []\<rparr>"

text \<open>\<open>DELETE /jobs/{job_id}\<close>: 404 for a job that is not active, else cancel and remove.\<close>

datatype cancel_response = CancelOk | CancelNotFound

definition cancel_job :: "processor \<Rightarrow> string \<Rightarrow> cancel_response \<times> processor" where
  "cancel_job p j =
     (if j \<notin> active_jobs p then (CancelNotFound, p)
      else (CancelOk, p\<lparr>active_jobs := active_jobs p - {j}\<rparr>))"

text \<open>The snapshots written for one job, oldest first, and their percentages.\<close>

definition snapshots_of :: "job_store \<Rightarrow> string \<Rightarrow> JobProgress list" where
  "snapshots_of st j = filter (\<lambda>s. job_id s = j) (progress_writes st)"

definition percentages :: "JobProgress list \<Rightarrow> real list" where
  "percentages snaps = map progress_percentage snaps"

text \<open>\<open>progress[i+1] >= progress[i]\<close> for every pair of successive snapshots.\<close>

fun non_decreasing :: "real list \<Rightarrow> bool" where
  "non_decreasing [] = True"
| "non_decreasing [x] = True"
| "non_decreasing (x # y # zs) = (x \<le> y \<and> non_decreasing (y # zs))"

text \<open>
  For one job: whether its progress record exists, and what its snapshots show of status,
  step and percentage, oldest first.
\<close>

definition job_exists :: "job_store \<Rightarrow> string \<Rightarrow> bool" where
  "job_exists st j = (get_progress st j \<noteq> None)"

definition view :: "JobProgress \<Rightarrow> JobStatus \<times> JobStep \<times> real" where
  "view s = (status s, current_step s, progress_percentage s)"

definition trace :: "job_store \<Rightarrow> string \<Rightarrow> (JobStatus \<times> JobStep \<times> real) list" where
  "trace st j = map view (snapshots_of st j)"

definition results_of :: "job_store \<Rightarrow> string \<Rightarrow> JobResult list" where
  "results_of st j = filter (\<lambda>r. result_job_id r = j) (result_writes st)"

text \<open>What \<open>get_progress\<close> reads for the job now.\<close>

definition current_view :: "job_store \<Rightarrow> string \<Rightarrow> (JobStatus \<times> JobStep \<times> real) option" where
  "current_view st j = map_option view (get_progress st j)"

text \<open>
  The life of one job: \<open>start_processing\<close>, then the run of its task, and what both add to
  the snapshots stored for the job.
\<close>

definition job_run :: "ProcessingContext \<Rightarrow> run_env \<Rightarrow> await_point option \<Rightarrow> processor \<Rightarrow> processor" where
  "job_run ctx env cancel p = process_pipeline ctx env cancel (start_processing p (ctx_job_id ctx))"

definition added_by_run ::
  "ProcessingContext \<Rightarrow> run_env \<Rightarrow> await_point option \<Rightarrow> processor
     \<Rightarrow> (JobStatus \<times> JobStep \<times> real) list" where
  "added_by_run ctx env cancel p =
     drop (length (trace (store p) (ctx_job_id ctx)))
       (trace (store (job_run ctx env cancel p)) (ctx_job_id ctx))"

text \<open>
  Whether a run gets as far as the pipeline call: the file opens and the options are valid.
\<close>

definition reaches_pipeline_call :: "ProcessingContext \<Rightarrow> run_env \<Rightarrow> bool" where
  "reaches_pipeline_call ctx env =
     (file_readable env \<and> 1 \<le> length (ctx_model_name ctx)
      \<and> 1 \<le> ctx_max_concurrent ctx \<and> ctx_max_concurrent ctx \<le> 20)"

text \<open>
  Whether a run ends with \<open>CancelledError\<close>: the task waits only while it sends a
  webhook, so the job has a webhook url and the cancellation arrives at an await the retry
  loop gets to. (Every run of the processor ends in \<open>_handle_failure\<close>, lemma
  \<open>run_fails\<close>, so the webhook is the failure webhook.)
\<close>

definition run_cancelled :: "ProcessingContext \<Rightarrow> run_env \<Rightarrow> await_point option \<Rightarrow> bool" where
  "run_cancelled ctx env cancel =
     (has_webhook ctx \<and> fst (send_webhook_with_retry (webhook_responses env) cancel) = None)"

text \<open>
  Whether the cancellation reaches the task of a run:
  the run is cancelled at that await.
\<close>

definition cancel_delivered :: "ProcessingContext \<Rightarrow> run_env \<Rightarrow> await_point \<Rightarrow> bool" where
  "cancel_delivered ctx env cp = run_cancelled ctx env (Some cp)"

section \<open>transformation\_service.py\<close>

text \<open>
  A block of the output document: the dict the model returns, with its \<open>type\<close>, its
  \<open>url\<close> (absent until an image is attached) and the rest of its fields as one value.
\<close>

record block =
  block_type :: string
  block_url :: "string option"
  block_body :: string

text \<open>
  What one call of the chain for a chunk does: \<open>Inl\<close> is the exception it raises,
  \<open>Inr bs\<close> a response whose content \<open>clean_json_response\<close> parses to \<open>bs\<close>
  (the empty list when nothing in it parses).
\<close>

type_synonym api_outcome = "string + block list"

text \<open>
  \<open>exponential_backoff_retry\<close> with its defaults \<open>base_delay = 3.0\<close>, \<open>max_delay = 30.0\<close>,
  \<open>jitter = True\<close>. The first argument counts the iterations of \<open>range(max_retries + 1)\<close>
  left, the second is \<open>attempt\<close>; \<open>f k\<close> is what the \<open>k\<close>-th call does and \<open>rnd k\<close> the
  \<open>k\<close>-th draw of \<open>random.random()\<close>. The result comes with the delays slept.
  \<open>Exhausted\<close> is the loop ending without a return, which no call reaches (lemma
  \<open>retry_never_exhausted\<close>).
\<close>

datatype 'a retry_result = Returned 'a | Raised string | Exhausted

definition base_delay :: real where
  "base_delay = 3"

definition max_delay :: real where
  "max_delay = 30"

fun backoff_loop ::
  "nat \<Rightarrow> nat \<Rightarrow> nat \<Rightarrow> (nat \<Rightarrow> string + 'a) \<Rightarrow> (nat \<Rightarrow> real) \<Rightarrow> 'a retry_result \<times> real list" where
  "backoff_loop 0 attempt max_retries f rnd = (Exhausted, [])"
| "backoff_loop (Suc n) attempt max_retries f rnd =
     (case f attempt of
        Inr r \<Rightarrow> (Returned r, [])
      | Inl e \<Rightarrow>
          if attempt = max_retries then (Raised e, [])
          else
            let delay = min (base_delay * 2 ^ attempt) max_delay;
                jittered = delay * (0.5 + rnd attempt * 0.5);
                (r, delays) = backoff_loop n (attempt + 1) max_retries f rnd
            in (r, jittered # delays))"

definition exponential_backoff_retry ::
  "(nat \<Rightarrow> string + 'a) \<Rightarrow> nat \<Rightarrow> (nat \<Rightarrow> real) \<Rightarrow> 'a retry_result \<times> real list" where
  "exponential_backoff_retry f max_retries rnd = backoff_loop (max_retries + 1) 0 max_retries f rnd"

record chunk_result =
  chunk_index :: nat
  chunk_result_blocks :: "block list"
  block_count :: nat

text \<open>
  \<open>process_single_chunk_async\<close>: the call is retried with \<open>max_retries = 2\<close>; the last
  exception leaves the function.
\<close>

definition process_single_chunk_async ::
  "nat \<Rightarrow> (nat \<Rightarrow> api_outcome) \<Rightarrow> (nat \<Rightarrow> real) \<Rightarrow> string + chunk_result" where
  "process_single_chunk_async i f rnd =
     (case fst (exponential_backoff_retry f 2 rnd) of
        Returned bs \<Rightarrow> Inr \<lparr>chunk_index = i, chunk_result_blocks = bs, block_count = length bs\<rparr>
      | Raised e \<Rightarrow> Inl e
      | Exhausted \<Rightarrow> Inl ''no content'')"

text \<open>
  \<open>asyncio.gather(*tasks)\<close> without \<open>return_exceptions\<close>: the results in the order of the
  tasks when all of them return, else the exception of the task that raises first in
  time. \<open>finished\<close> names tasks in the order in which they end; a task it does not name
  ends after those it names, in task order.
\<close>

definition gather :: "nat list \<Rightarrow> (string + 'a) list \<Rightarrow> string + 'a list" where
  "gather finished rs =
     (case filter (\<lambda>i. i < length rs \<and> isl (rs ! i)) (finished @ [0..<length rs]) of
        i # later \<Rightarrow> Inl (projl (rs ! i))
      | [] \<Rightarrow> Inr (map projr rs))"

record transform_result =
  transformed_blocks :: "block list"
  result_chunk_blocks :: "block list list"
  total_blocks :: nat
  input_chunks :: nat

text \<open>
  \<open>transform_content_to_blocks\<close> up to the merge of the chunk results: one task per
  chunk, gathered, sorted by \<open>chunk_index\<close> and merged. \<open>calls i\<close> are the calls for
  chunk \<open>i\<close>, \<open>finished\<close> the order in which the tasks end. Any exception becomes a
  \<open>RuntimeError\<close> for the caller. (The image
  generation that follows replaces entries of \<open>transformed_blocks\<close> and leaves
  \<open>chunk_blocks\<close> as merged here; it and the Redis copy are not modelled.)
\<close>

definition transform_content_to_blocks ::
  "string list \<Rightarrow> (nat \<Rightarrow> nat \<Rightarrow> api_outcome) \<Rightarrow> (nat \<Rightarrow> nat \<Rightarrow> real) \<Rightarrow> nat list
     \<Rightarrow> string + transform_result" where
  "transform_content_to_blocks content calls rnd finished =
     (case gather finished
             (map (\<lambda>(i, chunk). process_single_chunk_async i (calls i) (rnd i))
                (enumerate 0 content)) of
        Inl e \<Rightarrow> Inl (''content transformation error: '' @ e)
      | Inr chunk_results \<Rightarrow>
          let sorted_results = sort_key chunk_index chunk_results
          in Inr \<lparr>transformed_blocks = concat (map chunk_result_blocks sorted_results),
                  result_chunk_blocks = map chunk_result_blocks sorted_results,
                  total_blocks = sum_list (map block_count sorted_results),
                  input_chunks = length content\<rparr>)"

section \<open>main\_pipeline.py\<close>

text \<open>
  The keys of \<open>input_dict\<close> that the steps read and write. The progress messages the
  steps publish are not part of this model of the data flow.
\<close>

record pipeline_dict =
  pd_job_id :: string
  pd_filename :: string
  chunks :: "string list"
  chunk_texts :: "string list"
  chunk_blocks :: "block list list"
  pd_transformed_blocks :: "block list"
  images_generated :: bool

text \<open>
  \<open>preprocess_step\<close>: the preprocessing service raises or returns its chunks (none when
  the key is missing or empty).
\<close>

definition preprocess_step :: "string \<Rightarrow> string \<Rightarrow> string + string list \<Rightarrow> string + pipeline_dict" where
  "preprocess_step job fname preprocessed =
     (case preprocessed of
        Inl e \<Rightarrow> Inl e
      | Inr cs \<Rightarrow> Inr \<lparr>pd_job_id = job, pd_filename = fname, chunks = cs, chunk_texts = [],
                        chunk_blocks = [], pd_transformed_blocks = [], images_generated = False\<rparr>)"

text \<open>
  The loop of \<open>transform_step\<close>: chunk after chunk, one call of the chain each (the client
  retries by itself, \<open>chain i\<close> is what comes out for chunk \<open>i\<close>); an exception is logged
  and raised again.
\<close>

fun transform_loop ::
  "nat \<Rightarrow> string list \<Rightarrow> (nat \<Rightarrow> api_outcome) \<Rightarrow> block list list \<Rightarrow> string + block list list" where
  "transform_loop i [] chain acc = Inr acc"
| "transform_loop i (chunk_text # rest) chain acc =
     (case chain i of
        Inl e \<Rightarrow> Inl e
      | Inr blocks \<Rightarrow> transform_loop (i + 1) rest chain (acc @ [blocks]))"

definition transform_step :: "(nat \<Rightarrow> api_outcome) \<Rightarrow> pipeline_dict \<Rightarrow> string + pipeline_dict" where
  "transform_step chain d =
     (case transform_loop 0 (chunks d) chain [] of
        Inl e \<Rightarrow> Inl e
      | Inr cb \<Rightarrow> Inr (d\<lparr>chunk_texts := chunks d, chunk_blocks := cb,
                          pd_transformed_blocks := concat cb, images_generated := False\<rparr>))"

text \<open>
  \<open>image_processing_step\<close>. What the generation of one image does: an exception, or a
  result with or without a \<open>url\<close>.
\<close>

datatype img_outcome = ImgError | ImgResult "string option"

definition image_targets :: "block list list \<Rightarrow> (nat \<times> nat) list" where
  "image_targets cb =
     concat (map (\<lambda>(ci, blocks).
                    map (\<lambda>(bi, b). (ci, bi))
                      (filter (\<lambda>(bi, b). block_type b = ''PAGE_IMAGE'') (enumerate 0 blocks)))
                 (enumerate 0 cb))"

text \<open>
  \<open>chunk_blocks[ci][bi]["url"] = url\<close>; an index out of range would raise, which the
  step catches and logs.
\<close>

definition set_url :: "block list list \<Rightarrow> nat \<Rightarrow> nat \<Rightarrow> string \<Rightarrow> block list list" where
  "set_url cb ci bi u =
     (if ci < length cb \<and> bi < length (cb ! ci)
      then cb[ci := (cb ! ci)[bi := (cb ! ci ! bi)\<lparr>block_url := Some u\<rparr>]]
      else cb)"

fun apply_images ::
  "nat \<Rightarrow> (nat \<times> nat) list \<Rightarrow> (nat \<Rightarrow> img_outcome) \<Rightarrow> block list list \<Rightarrow> block list list \<times> nat" where
  "apply_images idx [] img cb = (cb, 0)"
| "apply_images idx ((ci, bi) # targets) img cb =
     (case img idx of
        ImgResult (Some u) \<Rightarrow>
          if u \<noteq> [] then
            (let (cb', n) = apply_images (idx + 1) targets img (set_url cb ci bi u)
             in (cb', Suc n))
          else apply_images (idx + 1) targets img cb
      | _ \<Rightarrow> apply_images (idx + 1) targets img cb)"

definition image_processing_step ::
  "bool \<Rightarrow> (nat \<Rightarrow> img_outcome) \<Rightarrow> pipeline_dict \<Rightarrow> pipeline_dict" where
  "image_processing_step enable_images img d =
     (if \<not> enable_images then d\<lparr>images_generated := False\<rparr>
      else if image_targets (chunk_blocks d) = [] then d\<lparr>images_generated := False\<rparr>
      else
        let (cb, success_count) = apply_images 0 (image_targets (chunk_blocks d)) img (chunk_blocks d)
        in d\<lparr>chunk_blocks := cb, pd_transformed_blocks := concat cb,
              images_generated := (success_count > 0)\<rparr>)"

record page =
  page_number :: nat
  original_content :: string
  page_blocks :: "block list"

record final_json =
  jobId :: string
  fileName :: string
  doc_status :: string
  meta_total_chunks :: nat
  meta_total_blocks :: nat
  pages :: "page list"

definition final_assembly_step :: "pipeline_dict \<Rightarrow> final_json" where
  "final_assembly_step d =
     \<lparr>jobId = pd_job_id d, fileName = pd_filename d, doc_status = ''COMPLETED'',
      meta_total_chunks = length (chunk_texts d),
      meta_total_blocks = sum_list (map length (chunk_blocks d)),
      pages = map (\<lambda>(i, text).
                     \<lparr>page_number = i + 1, original_content = text,
                      page_blocks = (if i < length (chunk_blocks d) then chunk_blocks d ! i else [])\<rparr>)
                  (enumerate 0 (chunk_texts d))\<rparr>"

text \<open>
  \<open>main_pipeline\<close>: the four steps in sequence; the exception of a step ends the
  pipeline.
\<close>

definition main_pipeline ::
  "string \<Rightarrow> string \<Rightarrow> string + string list \<Rightarrow> (nat \<Rightarrow> api_outcome) \<Rightarrow> bool
     \<Rightarrow> (nat \<Rightarrow> img_outcome) \<Rightarrow> string + final_json" where
  "main_pipeline job fname preprocessed chain enable_images img =
     (case preprocess_step job fname preprocessed of
        Inl e \<Rightarrow> Inl e
      | Inr d0 \<Rightarrow>
          (case transform_step chain d0 of
             Inl e \<Rightarrow> Inl e
           | Inr d1 \<Rightarrow> Inr (final_assembly_step (image_processing_step enable_images img d1))))"

text \<open>
  How the image step may change a block: not at all, or, for a \<open>PAGE_IMAGE\<close> block, by
  a non-empty \<open>url\<close> and nothing else.
\<close>

definition url_attached :: "block \<Rightarrow> block \<Rightarrow> bool" where
  "url_attached b b' =
     (b' = b \<or> (block_type b = ''PAGE_IMAGE'' \<and> block_url b' \<noteq> None \<and> block_url b' \<noteq> Some []
                 \<and> b' = b\<lparr>block_url := block_url b'\<rparr>))"

text \<open>The same for the block arrays of all chunks, position by position.\<close>

definition blocks_attached :: "block list list \<Rightarrow> block list list \<Rightarrow> bool" where
  "blocks_attached cb cb' = list_all2 (list_all2 url_attached) cb cb'"

text \<open>A position of the block arrays that holds a \<open>PAGE_IMAGE\<close> block, if it exists.\<close>

definition page_image_at :: "block list list \<Rightarrow> nat \<times> nat \<Rightarrow> bool" where
  "page_image_at cb t =
     (fst t < length cb \<and> snd t < length (cb ! fst t)
      \<longrightarrow> block_type (cb ! fst t ! snd t) = ''PAGE_IMAGE'')"

section \<open>Strings\<close>

text \<open>
  \<open>str.lower\<close>, \<open>str.startswith\<close>, \<open>str.endswith\<close>, \<open>in\<close> and \<open>str.strip\<close> on strings
  of one-byte characters; the white space of \<open>strip\<close> is what Python counts as such
  below code point 256.
\<close>

definition lower_char :: "char \<Rightarrow> char" where
  "lower_char c = (let n = (of_char c :: nat) in if 65 \<le> n \<and> n \<le> 90 then char_of (n + 32) else c)"

definition py_lower :: "string \<Rightarrow> string" where
  "py_lower s = map lower_char s"

fun startswith :: "string \<Rightarrow> string \<Rightarrow> bool" where
  "startswith s [] = True"
| "startswith [] (c # cs) = False"
| "startswith (x # xs) (c # cs) = (x = c \<and> startswith xs cs)"

definition endswith :: "string \<Rightarrow> string \<Rightarrow> bool" where
  "endswith s suffix = startswith (rev s) (rev suffix)"

fun contains :: "string \<Rightarrow> string \<Rightarrow> bool" where
  "contains [] sub = (sub = [])"
| "contains (x # xs) sub = (startswith (x # xs) sub \<or> contains xs sub)"

definition py_isspace :: "char \<Rightarrow> bool" where
  "py_isspace c = (let n = (of_char c :: nat) in
     (9 \<le> n \<and> n \<le> 13) \<or> (28 \<le> n \<and> n \<le> 32) \<or> n = 133 \<or> n = 160)"

definition py_strip :: "string \<Rightarrow> string" where
  "py_strip s = rev (dropWhile py_isspace (rev (dropWhile py_isspace s)))"

section \<open>redis\_pub\_sub\_service.py\<close>

text \<open>
  The messages of the three channels: \<open>publish_progress\<close> and \<open>publish_step_progress\<close>
  write to the progress channel, \<open>publish_result\<close> to the result channel,
  \<open>publish_failure\<close> to the failure channel.
\<close>

datatype bus_message =
  ProgressMessage string real
  | StepProgressMessage string string real
  | ResultMessage string string
  | FailureMessage string string

text \<open>
  Each publish function connects, publishes and raises again what either raises: the
  outcome of a call is the exception, if any (\<open>Some e\<close>), and the message is on the channel
  only when there is none.
\<close>

definition publish :: "string option \<Rightarrow> bus_message \<Rightarrow> bus_message list \<Rightarrow> string + bus_message list" where
  "publish raises m bus = (case raises of Some e \<Rightarrow> Inl e | None \<Rightarrow> Inr (bus @ [m]))"

section \<open>s3\_json\_uploader.py\<close>

text \<open>
  The configuration and the answers of S3: whether the upload goes through (else the
  exception), the variable \<open>S3_PRESIGN_RESULT_URL\<close>, what \<open>generate_presigned_url\<close> returns
  (\<open>None\<close>: it raises), the target, the region, the prefix and the date of the key.
\<close>

record s3_env =
  upload_raises :: "string option"
  presign_pref :: "string option"
  presigned_url :: "string option"
  bucket_or_ap :: string
  region :: string
  key_prefix :: string
  key_date :: string

definition generate_s3_key :: "s3_env \<Rightarrow> string \<Rightarrow> string" where
  "generate_s3_key e job = key_prefix e @ key_date e @ ''/'' @ job @ ''.json''"

definition is_access_point :: "s3_env \<Rightarrow> bool" where
  "is_access_point e =
     (startswith (bucket_or_ap e) ''arn:aws:s3'' \<or> contains (bucket_or_ap e) ''s3alias''
      \<or> contains (bucket_or_ap e) ''s3-accesspoint'')"

definition is_mrap_alias :: "s3_env \<Rightarrow> bool" where
  "is_mrap_alias e = contains (bucket_or_ap e) ''s3alias''"

definition domain_url :: "s3_env \<Rightarrow> string \<Rightarrow> string" where
  "domain_url e s3_key =
     (if is_access_point e then
        (if is_mrap_alias e then ''https://'' @ bucket_or_ap e @ ''.s3-global.amazonaws.com/'' @ s3_key
         else ''https://'' @ bucket_or_ap e @ ''.s3-accesspoint.'' @ region e @ ''.amazonaws.com/'' @ s3_key)
      else ''https://'' @ bucket_or_ap e @ ''.s3.'' @ region e @ ''.amazonaws.com/'' @ s3_key)"

definition build_access_url :: "s3_env \<Rightarrow> string \<Rightarrow> string" where
  "build_access_url e s3_key =
     (let use_presign =
            (case presign_pref e of
               Some v \<Rightarrow> py_lower v \<in> set [''1'', ''true'', ''yes'', ''on'']
             | None \<Rightarrow> is_access_point e)
      in if use_presign then
           (case presigned_url e of Some u \<Rightarrow> u | None \<Rightarrow> domain_url e s3_key)
         else domain_url e s3_key)"

text \<open>
  Whether \<open>_build_access_url\<close> returns what \<open>generate_presigned_url\<close> returned, which it
  passes on as it is.
\<close>

definition returns_presigned :: "s3_env \<Rightarrow> bool" where
  "returns_presigned e =
     ((case presign_pref e of
         Some v \<Rightarrow> py_lower v \<in> set [''1'', ''true'', ''yes'', ''on'']
       | None \<Rightarrow> is_access_point e)
      \<and> presigned_url e \<noteq> None)"

definition upload_result_to_s3 :: "s3_env \<Rightarrow> string \<Rightarrow> string + string" where
  "upload_result_to_s3 e job =
     (case upload_raises e of
        Some err \<Rightarrow> Inl err
      | None \<Rightarrow> Inr (build_access_url e (generate_s3_key e job)))"

section \<open>spring\_callback\_service.py\<close>

text \<open>
  \<open>send_document_complete\<close>: no url, no post; else one post, whose status decides.
  \<open>resp k\<close> is what a \<open>k\<close>-th post would do; the result is the return value and the
  number of posts made.
\<close>

definition send_document_complete :: "string option \<Rightarrow> (nat \<Rightarrow> http_outcome) \<Rightarrow> bool \<times> nat" where
  "send_document_complete url resp =
     (case url of
        None \<Rightarrow> (False, 0)
      | Some u \<Rightarrow>
          if u = [] then (False, 0)
          else (case resp 0 of
                  Status code \<Rightarrow> (200 \<le> code \<and> code < 300, 1)
                | _ \<Rightarrow> (False, 1)))"

section \<open>prd\_async\_processor.py\<close>

text \<open>The value stored under \<open>job_status:{job_id}\<close>, without \<open>updated_at\<close>.\<close>

record status_record =
  st_status :: string
  st_progress :: "real option"
  st_error :: "string option"

text \<open>
  The processor and what it acts on: the keys of its \<open>active_jobs\<close>, the status key with
  every value set under it (oldest first), the bus, the posts of the completion callback
  and the background tasks added by the router.
\<close>

record prd_processor =
  prd_active_jobs :: "string set"
  job_status_key :: "string \<rightharpoonup> status_record"
  status_writes :: "(string \<times> status_record) list"
  bus :: "bus_message list"
  callback_posts :: "string list"
  background_tasks :: "(string \<times> string) list"

text \<open>\<open>__init__\<close>: \<open>self.active_jobs = {}\<close>.\<close>

definition prd_init :: prd_processor where
  "prd_init = \<lparr>prd_active_jobs = {}, job_status_key = Map.empty, status_writes = [], bus = [],
     callback_posts = [], background_tasks = []\<rparr>"

definition is_job_active :: "prd_processor \<Rightarrow> string \<Rightarrow> bool" where
  "is_job_active p job = (job \<in> prd_active_jobs p)"

text \<open>
  \<open>_set_job_status\<close>: a Redis error is caught and logged inside and changes nothing for
  the caller; the write is taken to go through.
\<close>

definition set_job_status ::
  "prd_processor \<Rightarrow> string \<Rightarrow> string \<Rightarrow> real option \<Rightarrow> string option \<Rightarrow> prd_processor" where
  "set_job_status p job s prog err =
     (let r = \<lparr>st_status = s, st_progress = prog, st_error = err\<rparr>
      in p\<lparr>job_status_key := (job_status_key p)(job \<mapsto> r),
            status_writes := status_writes p @ [(job, r)]\<rparr>)"

text \<open>
  What the collaborators of one run of \<open>process_pdf_pipeline\<close> answer: the exception of
  each publish call, if any; what \<open>main_pipeline.ainvoke\<close> returns or raises, with the
  step and percentage of the progress messages its steps published until then; S3; the
  callback url and what a post to it does.
\<close>

record prd_env =
  progress_raises :: "string option"
  pipeline_out :: "string + final_json"
  pipeline_messages :: "(string \<times> real) list"
  storage85_raises :: "string option"
  s3 :: s3_env
  storage95_raises :: "string option"
  result_raises :: "string option"
  callback_url :: "string option"
  callback_responses :: "nat \<Rightarrow> http_outcome"
  failure_raises :: "string option"

text \<open>
  The \<open>try\<close> block up to the await of the pipeline: status \<open>PROCESSING\<close>, progress 0.
  The second component is the exception that leaves the part, if any.
\<close>

definition pipeline_start :: "string \<Rightarrow> prd_env \<Rightarrow> prd_processor \<Rightarrow> prd_processor \<times> string option" where
  "pipeline_start job env p =
     (let p1 = set_job_status p job ''PROCESSING'' (Some 0) None
      in case publish (progress_raises env) (ProgressMessage job 0) (bus p1) of
           Inl e \<Rightarrow> (p1, Some e)
         | Inr b \<Rightarrow> (p1\<lparr>bus := b\<rparr>, None))"

text \<open>
  The rest of the \<open>try\<close> block: the pipeline, storage, status \<open>COMPLETED\<close>, the result
  message, the callback (whose failure is logged only).
\<close>

definition pipeline_rest ::
  "string \<Rightarrow> string \<Rightarrow> prd_env \<Rightarrow> prd_processor \<Rightarrow> prd_processor \<times> string option" where
  "pipeline_rest job fname env p =
     (let p1 = p\<lparr>bus := bus p @ map (\<lambda>(step, x). StepProgressMessage job step x)
                                     (pipeline_messages env)\<rparr>
      in case pipeline_out env of
           Inl e \<Rightarrow> (p1, Some e)
         | Inr final_result \<Rightarrow>
             (case publish (storage85_raises env) (StepProgressMessage job ''STORAGE'' 85) (bus p1) of
                Inl e \<Rightarrow> (p1, Some e)
              | Inr b2 \<Rightarrow>
                  (case upload_result_to_s3 (s3 env) job of
                     Inl e \<Rightarrow> (p1\<lparr>bus := b2\<rparr>, Some e)
                   | Inr s3_url \<Rightarrow>
                       (case publish (storage95_raises env) (StepProgressMessage job ''STORAGE'' 95) b2 of
                          Inl e \<Rightarrow> (p1\<lparr>bus := b2\<rparr>, Some e)
                        | Inr b3 \<Rightarrow>
                            let p2 = set_job_status (p1\<lparr>bus := b3\<rparr>) job ''COMPLETED'' (Some 100) None
                            in (case publish (result_raises env) (ResultMessage job s3_url) (bus p2) of
                                  Inl e \<Rightarrow> (p2, Some e)
                                | Inr b4 \<Rightarrow>
                                    let (ok, posts) =
                                          send_document_complete (callback_url env) (callback_responses env)
                                    in (p2\<lparr>bus := b4,
                                            callback_posts := callback_posts p2 @ replicate posts job\<rparr>,
                                        None))))))"

text \<open>
  \<open>except Exception\<close>: status \<open>FAILED\<close> with the message, then the failure message, whose
  own exception is logged only. (The message starts with a fixed Korean sentence, written
  here in English.)
\<close>

definition error_message_of :: "string \<Rightarrow> string" where
  "error_message_of e = ''unexpected error while generating the material: '' @ e"

definition pipeline_except :: "string \<Rightarrow> prd_env \<Rightarrow> string \<Rightarrow> prd_processor \<Rightarrow> prd_processor" where
  "pipeline_except job env e p =
     (let p1 = set_job_status p job ''FAILED'' None (Some (error_message_of e))
      in case publish (failure_raises env) (FailureMessage job (error_message_of e)) (bus p1) of
           Inl e2 \<Rightarrow> p1
         | Inr b \<Rightarrow> p1\<lparr>bus := b\<rparr>)"

text \<open>\<open>finally\<close>: the job leaves \<open>active_jobs\<close>, if it is there.\<close>

definition pipeline_finally :: "string \<Rightarrow> prd_processor \<Rightarrow> prd_processor" where
  "pipeline_finally job p = p\<lparr>prd_active_jobs := prd_active_jobs p - {job}\<rparr>"

definition process_pdf_pipeline :: "string \<Rightarrow> string \<Rightarrow> prd_env \<Rightarrow> prd_processor \<Rightarrow> prd_processor" where
  "process_pdf_pipeline job fname env p =
     (case pipeline_start job env p of
        (p1, Some e) \<Rightarrow> pipeline_finally job (pipeline_except job env e p1)
      | (p1, None) \<Rightarrow>
          (case pipeline_rest job fname env p1 of
             (p2, Some e) \<Rightarrow> pipeline_finally job (pipeline_except job env e p2)
           | (p2, None) \<Rightarrow> pipeline_finally job p2))"

text \<open>
  Whether a run gets as far as setting the status \<open>COMPLETED\<close>: nothing before raises.
\<close>

definition reaches_completed :: "prd_env \<Rightarrow> string \<Rightarrow> bool" where
  "reaches_completed env job =
     (progress_raises env = None \<and> isl (pipeline_out env) = False
      \<and> storage85_raises env = None \<and> isl (upload_result_to_s3 (s3 env) job) = False
      \<and> storage95_raises env = None)"

text \<open>The exception that leaves the \<open>try\<close> block of a run, if any: that of the first step that raises.\<close>

definition raised_in_try :: "prd_env \<Rightarrow> string \<Rightarrow> string option" where
  "raised_in_try env job =
     (case progress_raises env of
        Some e \<Rightarrow> Some e
      | None \<Rightarrow>
          (case pipeline_out env of
             Inl e \<Rightarrow> Some e
           | Inr final_result \<Rightarrow>
               (case storage85_raises env of
                  Some e \<Rightarrow> Some e
                | None \<Rightarrow>
                    (case upload_result_to_s3 (s3 env) job of
                       Inl e \<Rightarrow> Some e
                     | Inr s3_url \<Rightarrow>
                         (case storage95_raises env of
                            Some e \<Rightarrow> Some e
                          | None \<Rightarrow> result_raises env)))))"

text \<open>
  What a run leaves to be observed for a job: its messages on a bus, the statuses set for
  it and the status stored last.
\<close>

definition result_messages :: "bus_message list \<Rightarrow> string \<Rightarrow> string list" where
  "result_messages b job =
     concat (map (\<lambda>m. case m of ResultMessage j u \<Rightarrow> (if j = job then [u] else []) | _ \<Rightarrow> []) b)"

definition failure_messages :: "bus_message list \<Rightarrow> string \<Rightarrow> string list" where
  "failure_messages b job =
     concat (map (\<lambda>m. case m of FailureMessage j e \<Rightarrow> (if j = job then [e] else []) | _ \<Rightarrow> []) b)"

definition progress_messages :: "bus_message list \<Rightarrow> string \<Rightarrow> real list" where
  "progress_messages b job =
     concat (map (\<lambda>m. case m of
                         ProgressMessage j x \<Rightarrow> (if j = job then [x] else [])
                       | StepProgressMessage j step x \<Rightarrow> (if j = job then [x] else [])
                       | _ \<Rightarrow> []) b)"

definition statuses_set :: "prd_processor \<Rightarrow> string \<Rightarrow> string list" where
  "statuses_set p job = map (\<lambda>(j, r). st_status r) (filter (\<lambda>(j, r). j = job) (status_writes p))"

definition current_status :: "prd_processor \<Rightarrow> string \<Rightarrow> string option" where
  "current_status p job = map_option st_status (job_status_key p job)"

text \<open>
  What one run adds for its job: the statuses it sets, and the messages it publishes on
  the result and on the failure channel.
\<close>

definition statuses_by_run :: "string \<Rightarrow> string \<Rightarrow> prd_env \<Rightarrow> prd_processor \<Rightarrow> string list" where
  "statuses_by_run job fname env p =
     drop (length (statuses_set p job)) (statuses_set (process_pdf_pipeline job fname env p) job)"

definition published_results :: "string \<Rightarrow> string \<Rightarrow> prd_env \<Rightarrow> prd_processor \<Rightarrow> string list" where
  "published_results job fname env p =
     drop (length (result_messages (bus p) job))
       (result_messages (bus (process_pdf_pipeline job fname env p)) job)"

definition published_failures :: "string \<Rightarrow> string \<Rightarrow> prd_env \<Rightarrow> prd_processor \<Rightarrow> string list" where
  "published_failures job fname env p =
     drop (length (failure_messages (bus p) job))
       (failure_messages (bus (process_pdf_pipeline job fname env p)) job)"

section \<open>async\_prd\_router.py\<close>

text \<open>
  The multipart request of \<open>POST /process/async\<close>: the file object, its name, the job id
  and what reading the file gives.
\<close>

record upload_request =
  file_present :: bool
  req_filename :: "string option"
  req_job_id :: string
  file_read :: "string + string"

datatype admission_response = Accepted string string | HTTPException nat string

definition process_pdf_async :: "prd_processor \<Rightarrow> upload_request \<Rightarrow> admission_response \<times> prd_processor" where
  "process_pdf_async p req =
     (case (if file_present req then req_filename req else None) of
        None \<Rightarrow> (HTTPException 400 ''no file'', p)
      | Some fname \<Rightarrow>
          if fname = [] then (HTTPException 400 ''no file'', p)
          else if \<not> endswith (py_lower fname) ''.pdf'' then (HTTPException 400 ''pdf only'', p)
          else if req_job_id req = [] \<or> py_strip (req_job_id req) = [] then
            (HTTPException 400 ''no job_id'', p)
          else if is_job_active p (req_job_id req) then
            (HTTPException 409 (''Job '' @ req_job_id req @ '' is already processing''), p)
          else
            (case file_read req of
               Inl e \<Rightarrow> (HTTPException 500 e, p)
             | Inr file_bytes \<Rightarrow>
                 (Accepted (req_job_id req) ''PROCESSING'',
                  p\<lparr>background_tasks := background_tasks p @ [(req_job_id req, fname)]\<rparr>)))"

section \<open>Sample inputs\<close>

text \<open>
  Concrete inputs for the evaluations below: an assembled document without pages, a bucket
  without presigned urls, collaborators that all answer well, and a request for job
  \<open>J1\<close>; for the staged processor, a job with a webhook url and valid options, a file
  that opens and a webhook that answers 500 to every post.
\<close>

definition sample_doc :: final_json where
  "sample_doc = \<lparr>jobId = ''J1'', fileName = ''a.pdf'', doc_status = ''COMPLETED'',
     meta_total_chunks = 0, meta_total_blocks = 0, pages = []\<rparr>"

definition sample_s3 :: s3_env where
  "sample_s3 = \<lparr>upload_raises = None, presign_pref = None, presigned_url = None,
     bucket_or_ap = ''dyslexia-pdf'', region = ''ap-northeast-2'',
     key_prefix = ''dyslexia-results/'', key_date = ''2025/01/31''\<rparr>"

definition sample_url :: string where
  "sample_url = ''https://dyslexia-pdf.s3.ap-northeast-2.amazonaws.com/dyslexia-results/2025/01/31/J1.json''"

definition sample_env :: prd_env where
  "sample_env = \<lparr>progress_raises = None, pipeline_out = Inr sample_doc,
     pipeline_messages = [(''PDF_PREPROCESSING'', 10), (''PDF_PREPROCESSING'', 25),
       (''TRANSFORMATION'', 30), (''TRANSFORMATION'', 60), (''IMAGE_PROCESSING'', 65),
       (''IMAGE_PROCESSING'', 80)],
     storage85_raises = None, s3 = sample_s3, storage95_raises = None, result_raises = None,
     callback_url = Some ''http://spring:8080/api/document/complete'',
     callback_responses = (\<lambda>k. Status 200), failure_raises = None\<rparr>"

definition sample_request :: upload_request where
  "sample_request = \<lparr>file_present = True, req_filename = Some ''a.pdf'', req_job_id = ''J1'',
     file_read = Inr ''%PDF-1.7''\<rparr>"

definition sample_ctx :: ProcessingContext where
  "sample_ctx = \<lparr>ctx_job_id = ''j1'', ctx_filename = ''a.pdf'', webhook_url = Some ''http://hook'',
     ctx_model_name = ''claude-sonnet-4-20250514'', ctx_max_concurrent = 8\<rparr>"

definition sample_run_env :: run_env where
  "sample_run_env = \<lparr>file_readable = True, webhook_responses = (\<lambda>k. Status 500),
     save_fault = None\<rparr>"

section \<open>Lemmas: double precision and the tracker\<close>

lemma binade_bounds: "e0 - int n \<le> binade n e0 a \<and> binade n e0 a \<le> e0"
proof (induction n arbitrary: e0)
  case 0
  then show ?case by simp
next
  case (Suc n)
  from Suc [of "e0 - 1"] show ?case by simp
qed

lemma binade_found: "binade n e0 a = e0 - int n \<or> 2 powi (binade n e0 a) \<le> a"
proof (induction n arbitrary: e0)
  case 0
  then show ?case by simp
next
  case (Suc n)
  from Suc [of "e0 - 1"] show ?case by auto
qed

lemma binade_ge: "2 powi e \<le> a \<Longrightarrow> e \<le> e0 \<Longrightarrow> e \<le> binade n e0 a"
proof (induction n arbitrary: e0)
  case 0
  then show ?case by simp
next
  case (Suc n)
  show ?case
  proof (cases "2 powi e0 \<le> a")
    case True
    then show ?thesis using Suc.prems by simp
  next
    case False
    then have "e \<noteq> e0" using Suc.prems by auto
    then have "e \<le> e0 - 1" using Suc.prems by simp
    from Suc.IH [OF Suc.prems(1) this] show ?thesis using False by simp
  qed
qed

lemma exponent_bounds: "- 1022 \<le> exponent a" "exponent a \<le> 1023"
  using binade_bounds [of 1023 2045 a] by (simp_all add: exponent_def)

lemma powi_less_cancel: "(2::real) powi a \<le> x \<Longrightarrow> x < 2 powi b \<Longrightarrow> a < b"
proof -
  assume "(2::real) powi a \<le> x" "x < 2 powi b"
  then have l: "(2::real) powi a < 2 powi b" by simp
  show "a < b"
  proof (rule ccontr)
    assume "\<not> a < b"
    then have "b \<le> a" by simp
    then have "(2::real) powi b \<le> 2 powi a" by (rule power_int_increasing) simp
    with l show False by simp
  qed
qed

lemma exponent_le:
  assumes "a < 2 powi (e + 1)" and "- 1022 \<le> e"
  shows "exponent a \<le> e"
proof -
  from binade_found [of 2045 1023 a]
  consider "exponent a = - 1022" | "2 powi (exponent a) \<le> a"
    by (auto simp: exponent_def)
  then show ?thesis
  proof cases
    case 1
    then show ?thesis using assms by simp
  next
    case 2
    from powi_less_cancel [OF 2 assms(1)] show ?thesis by simp
  qed
qed

lemma exponent_ge:
  assumes "2 powi e \<le> a" and "e \<le> 1023"
  shows "e \<le> exponent a"
  unfolding exponent_def using assms by (rule binade_ge)

lemma exponent_eq:
  assumes "2 powi e \<le> a" "a < 2 powi (e + 1)" "- 1022 \<le> e" "e \<le> 1023"
  shows "exponent a = e"
  using exponent_le [OF assms(2,3)] exponent_ge [OF assms(1,4)] by simp

lemma ulp_pos: "0 < ulp a"
  by (simp add: ulp_def)

lemma round_half_even_near: "\<bar>of_int (round_half_even r) - r\<bar> \<le> 1 / 2"
  unfolding round_half_even_def Let_def by (auto; linarith)

lemma round_half_even_le: "r < of_int n + 1 / 2 \<Longrightarrow> round_half_even r \<le> n"
  using round_half_even_near [of r] by linarith

lemma round_half_even_ge: "of_int n - 1 / 2 < r \<Longrightarrow> n \<le> round_half_even r"
  using round_half_even_near [of r] by linarith

lemma round_half_even_int: "round_half_even (of_int n) = n"
  by (simp add: round_half_even_def)

lemma to_double_near: "\<bar>to_double x - x\<bar> \<le> ulp \<bar>x\<bar> / 2"
proof -
  let ?u = "ulp \<bar>x\<bar>"
  have u: "0 < ?u" by (rule ulp_pos)
  have "to_double x - x = (of_int (round_half_even (x / ?u)) - x / ?u) * ?u"
    using u by (simp add: to_double_def field_simps)
  then have "\<bar>to_double x - x\<bar> = \<bar>of_int (round_half_even (x / ?u)) - x / ?u\<bar> * ?u"
    using u by (simp add: abs_mult)
  also have "\<dots> \<le> 1 / 2 * ?u"
    using round_half_even_near [of "x / ?u"] u by (intro mult_right_mono) simp_all
  finally show ?thesis by simp
qed


lemma to_double_eval:
  assumes "2 powi e \<le> \<bar>x\<bar>" "\<bar>x\<bar> < 2 powi (e + 1)" "- 1022 \<le> e" "e \<le> 1023"
  shows "to_double x = of_int (round_half_even (x / 2 powi (e - 52))) * 2 powi (e - 52)"
  by (simp add: to_double_def ulp_def exponent_eq [OF assms])

lemma to_double_zero: "to_double 0 = 0"
  using round_half_even_int [of 0] by (simp add: to_double_def)

lemma to_double_nonneg:
  assumes "0 \<le> x"
  shows "0 \<le> to_double x"
proof -
  have "0 \<le> x / ulp \<bar>x\<bar>" using assms ulp_pos [of "\<bar>x\<bar>"] by simp
  then have "of_int 0 - 1 / 2 < x / ulp \<bar>x\<bar>" by simp
  then have "0 \<le> round_half_even (x / ulp \<bar>x\<bar>)" by (rule round_half_even_ge)
  then show ?thesis
    using ulp_pos [of "\<bar>x\<bar>"] by (simp add: to_double_def)
qed

lemma to_double_error:
  assumes "\<bar>x\<bar> < 2 powi (e + 1)" and "- 1022 \<le> e"
  shows "\<bar>to_double x - x\<bar> \<le> 2 powi (e - 53)"
proof -
  have "exponent \<bar>x\<bar> \<le> e" using assms by (rule exponent_le)
  then have "ulp \<bar>x\<bar> \<le> 2 powi (e - 52)"
    unfolding ulp_def by (intro power_int_increasing) simp_all
  moreover have "(2::real) powi (e - 52) = 2 * 2 powi (e - 53)"
    using power_int_add_1' [of "2::real" "e - 53"] by simp
  ultimately show ?thesis using to_double_near [of x] by simp
qed

text \<open>
  Rounding does not pass a natural number \<open>c\<close> from below, also when the argument
  exceeds \<open>c\<close> by less than half a unit in the last place.
\<close>

lemma to_double_le:
  assumes x0: "0 \<le> x" and big: "x < 2 powi 53"
    and c: "x \<le> of_nat c + d"
    and e: "(2::real) powi e \<le> of_nat c" "- 1022 \<le> e"
    and d: "d < 2 powi (e - 53)"
  shows "to_double x \<le> of_nat c"
proof -
  define E where "E = exponent \<bar>x\<bar>"
  define u where "u = ulp \<bar>x\<bar>"
  have ax: "\<bar>x\<bar> = x" using x0 by simp
  have u: "u = 2 powi (E - 52)" "0 < u" by (simp_all add: u_def E_def ulp_def)
  have E52: "E \<le> 52"
    unfolding E_def using big by (intro exponent_le) (simp_all add: ax)
  define k where "k = nat (52 - E)"
  have "u = 2 powi (- int k)" using E52 by (simp add: u k_def)
  then have "u = 1 / 2 ^ k" by (simp add: power_int_minus field_simps)
  then have iu: "1 / u = 2 ^ k" by simp
  define n where "n = int c * 2 ^ k"
  have "of_nat c / u = of_nat c * (1 / u)" by simp
  also have "\<dots> = of_int n" unfolding iu by (simp add: n_def)
  finally have cn: "of_nat c / u = of_int n" .
  have "x / u < of_int n + 1 / 2"
  proof (cases "x \<le> of_nat c")
    case True
    then have "x / u \<le> of_nat c / u" using u(2) by (simp add: divide_right_mono)
    then show ?thesis using cn by simp
  next
    case False
    then have "2 powi e \<le> \<bar>x\<bar>" using e(1) ax by simp
    moreover have "e < 53" using powi_less_cancel [of e x 53] e(1) False big by simp
    ultimately have "e \<le> E" unfolding E_def by (intro exponent_ge) simp_all
    then have "(2::real) powi (e - 52) \<le> u"
      unfolding u(1) by (intro power_int_increasing) simp_all
    moreover have "(2::real) powi (e - 52) = 2 * 2 powi (e - 53)"
      using power_int_add_1' [of "2::real" "e - 53"] by simp
    ultimately have "d < u / 2" using d by simp
    then have "x < of_nat c + u / 2" using c by simp
    then have "x / u < (of_nat c + u / 2) / u" using u(2) by (simp add: divide_strict_right_mono)
    also have "\<dots> = of_nat c / u + 1 / 2" using u(2) by (simp add: field_simps)
    finally show ?thesis using cn by simp
  qed
  then have "round_half_even (x / u) \<le> n" by (rule round_half_even_le)
  then have "of_int (round_half_even (x / u)) * u \<le> of_int n * u"
    using u(2) by (intro mult_right_mono) simp_all
  also have "of_int n * u = of_nat c" using cn u(2) by (simp add: field_simps)
  finally show ?thesis by (simp add: to_double_def u_def)
qed

lemma weight_values:
  "weight_preprocessing = 3602879701896397 / 2 ^ 54"
  "weight_block_transformation = 3602879701896397 / 2 ^ 53"
  "weight_phoneme_analysis = 5404319552844595 / 2 ^ 55"
  "weight_block_word_phoneme_analysis = 5404319552844595 / 2 ^ 55"
  "weight_post_processing = 3602879701896397 / 2 ^ 55"
proof -
  show "weight_preprocessing = 3602879701896397 / 2 ^ 54"
    unfolding weight_preprocessing_def
    by (subst to_double_eval [where e = "- 3"]) (simp_all add: round_half_even_def)
  show "weight_block_transformation = 3602879701896397 / 2 ^ 53"
    unfolding weight_block_transformation_def
    by (subst to_double_eval [where e = "- 2"]) (simp_all add: round_half_even_def)
  show "weight_phoneme_analysis = 5404319552844595 / 2 ^ 55"
    unfolding weight_phoneme_analysis_def
    by (subst to_double_eval [where e = "- 3"]) (simp_all add: round_half_even_def)
  show "weight_block_word_phoneme_analysis = 5404319552844595 / 2 ^ 55"
    unfolding weight_block_word_phoneme_analysis_def
    by (subst to_double_eval [where e = "- 3"]) (simp_all add: round_half_even_def)
  show "weight_post_processing = 3602879701896397 / 2 ^ 55"
    unfolding weight_post_processing_def
    by (subst to_double_eval [where e = "- 4"]) (simp_all add: round_half_even_def)
qed


lemma fmul_weight:
  assumes p: "0 \<le> p" "p \<le> 100" and w: "0 \<le> w"
    and W: "100 * w \<le> of_nat c + d" "d < 2 powi (e - 53)" "(2::real) powi e \<le> of_nat c"
      "- 1022 \<le> e" "of_nat c + d < 64"
  shows "0 \<le> fmul p w" and "fmul p w \<le> of_nat c" and "\<bar>fmul p w - p * w\<bar> \<le> 2 powi (- 48)"
proof -
  have x0: "0 \<le> p * w" using p w by simp
  have "p * w \<le> 100 * w" using p w by (simp add: mult_right_mono)
  then have xc: "p * w \<le> of_nat c + d" using W(1) by simp
  then have x64: "p * w < 64" using W(5) by simp
  show "0 \<le> fmul p w" unfolding fmul_def using x0 by (rule to_double_nonneg)
  show "fmul p w \<le> of_nat c"
    unfolding fmul_def using x0 _ xc W(3,4,2)
    by (rule to_double_le) (use x64 in simp)
  have "\<bar>to_double (p * w) - p * w\<bar> \<le> 2 powi (5 - 53)"
    by (rule to_double_error) (use x0 x64 in simp_all)
  then show "\<bar>fmul p w - p * w\<bar> \<le> 2 powi (- 48)" by (simp add: fmul_def)
qed

lemma fadd_bounds:
  assumes "0 \<le> a" "a \<le> of_nat ca" "0 \<le> b" "b \<le> of_nat cb" "1 \<le> ca + cb" "ca + cb < 128"
  shows "0 \<le> fadd a b" and "fadd a b \<le> of_nat (ca + cb)"
    and "\<bar>fadd a b - (a + b)\<bar> \<le> 2 powi (- 47)"
proof -
  have x0: "0 \<le> a + b" using assms by simp
  have xc: "a + b \<le> of_nat (ca + cb) + 0" using assms by simp
  have "real (ca + cb) < 128" using assms(6) by linarith
  then have x128: "a + b < 128" using xc by linarith
  show "0 \<le> fadd a b" unfolding fadd_def using x0 by (rule to_double_nonneg)
  have one: "(2::real) powi 0 \<le> of_nat (ca + cb)" using assms(5) by simp
  show "fadd a b \<le> of_nat (ca + cb)"
    unfolding fadd_def using x0 _ xc one
    by (rule to_double_le) (use x128 in simp_all)
  have "\<bar>to_double (a + b) - (a + b)\<bar> \<le> 2 powi (6 - 53)"
    by (rule to_double_error) (use x0 x128 in simp_all)
  then show "\<bar>fadd a b - (a + b)\<bar> \<le> 2 powi (- 47)" by (simp add: fadd_def)
qed

lemma weighted_average_ok:
  assumes "in_range (preprocessing d)" "in_range (block_transformation d)"
    "in_range (phoneme_analysis d)" "in_range (block_word_phoneme_analysis d)"
    "in_range (post_processing d)"
  shows "in_range (weighted_average d)"
    and "\<bar>weighted_average d - exact_weighted_average d\<bar> \<le> 1 / 10 ^ 12"
proof -
  define p1 where "p1 = preprocessing d"
  define p2 where "p2 = block_transformation d"
  define p3 where "p3 = phoneme_analysis d"
  define p4 where "p4 = block_word_phoneme_analysis d"
  define p5 where "p5 = post_processing d"
  define m1 where "m1 = fmul p1 weight_preprocessing"
  define m2 where "m2 = fmul p2 weight_block_transformation"
  define m3 where "m3 = fmul p3 weight_phoneme_analysis"
  define m4 where "m4 = fmul p4 weight_block_word_phoneme_analysis"
  define m5 where "m5 = fmul p5 weight_post_processing"
  define s1 where "s1 = fadd m1 m2"
  define s2 where "s2 = fadd s1 m3"
  define s3 where "s3 = fadd s2 m4"
  define s4 where "s4 = fadd s3 m5"
  have r: "0 \<le> p1" "p1 \<le> 100" "0 \<le> p2" "p2 \<le> 100" "0 \<le> p3" "p3 \<le> 100"
    "0 \<le> p4" "p4 \<le> 100" "0 \<le> p5" "p5 \<le> 100"
    using assms by (simp_all add: in_range_def p1_def p2_def p3_def p4_def p5_def)
  have b1: "0 \<le> m1 \<and> m1 \<le> 20 \<and> \<bar>m1 - p1 * weight_preprocessing\<bar> \<le> 2 powi (- 48)"
    using fmul_weight [of p1 weight_preprocessing 20 "20 / 2 ^ 54" 4] r
    by (simp add: m1_def weight_values)
  have b2: "0 \<le> m2 \<and> m2 \<le> 40 \<and> \<bar>m2 - p2 * weight_block_transformation\<bar> \<le> 2 powi (- 48)"
    using fmul_weight [of p2 weight_block_transformation 40 "20 / 2 ^ 53" 5] r
    by (simp add: m2_def weight_values)
  have b3: "0 \<le> m3 \<and> m3 \<le> 15 \<and> \<bar>m3 - p3 * weight_phoneme_analysis\<bar> \<le> 2 powi (- 48)"
    using fmul_weight [of p3 weight_phoneme_analysis 15 0 3] r
    by (simp add: m3_def weight_values)
  have b4: "0 \<le> m4 \<and> m4 \<le> 15
      \<and> \<bar>m4 - p4 * weight_block_word_phoneme_analysis\<bar> \<le> 2 powi (- 48)"
    using fmul_weight [of p4 weight_block_word_phoneme_analysis 15 0 3] r
    by (simp add: m4_def weight_values)
  have b5: "0 \<le> m5 \<and> m5 \<le> 10 \<and> \<bar>m5 - p5 * weight_post_processing\<bar> \<le> 2 powi (- 48)"
    using fmul_weight [of p5 weight_post_processing 10 "20 / 2 ^ 55" 3] r
    by (simp add: m5_def weight_values)
  have a1: "0 \<le> s1 \<and> s1 \<le> 60 \<and> \<bar>s1 - (m1 + m2)\<bar> \<le> 2 powi (- 47)"
    using fadd_bounds [of m1 20 m2 40] b1 b2 by (simp add: s1_def)
  have a2: "0 \<le> s2 \<and> s2 \<le> 75 \<and> \<bar>s2 - (s1 + m3)\<bar> \<le> 2 powi (- 47)"
    using fadd_bounds [of s1 60 m3 15] a1 b3 by (simp add: s2_def)
  have a3: "0 \<le> s3 \<and> s3 \<le> 90 \<and> \<bar>s3 - (s2 + m4)\<bar> \<le> 2 powi (- 47)"
    using fadd_bounds [of s2 75 m4 15] a2 b4 by (simp add: s3_def)
  have a4: "0 \<le> s4 \<and> s4 \<le> 100 \<and> \<bar>s4 - (s3 + m5)\<bar> \<le> 2 powi (- 47)"
    using fadd_bounds [of s3 90 m5 10] a3 b5 by (simp add: s4_def)
  have wa: "weighted_average d = s4"
    by (simp add: weighted_average_def s4_def s3_def s2_def s1_def m1_def m2_def m3_def m4_def
        m5_def p1_def p2_def p3_def p4_def p5_def)
  show "in_range (weighted_average d)"
    using a4 by (simp add: wa in_range_def)
  have ex: "exact_weighted_average d = p1 / 5 + 2 * p2 / 5 + 3 * p3 / 20 + 3 * p4 / 20 + p5 / 10"
    by (simp add: exact_weighted_average_def p1_def p2_def p3_def p4_def p5_def)
  have w1: "\<bar>p1 * weight_preprocessing - p1 / 5\<bar> \<le> 1 / 10 ^ 14"
    and w2: "\<bar>p2 * weight_block_transformation - 2 * p2 / 5\<bar> \<le> 1 / 10 ^ 14"
    and w3: "\<bar>p3 * weight_phoneme_analysis - 3 * p3 / 20\<bar> \<le> 1 / 10 ^ 14"
    and w4: "\<bar>p4 * weight_block_word_phoneme_analysis - 3 * p4 / 20\<bar> \<le> 1 / 10 ^ 14"
    and w5: "\<bar>p5 * weight_post_processing - p5 / 10\<bar> \<le> 1 / 10 ^ 14"
    using r by (simp_all add: weight_values abs_le_iff)

  define t where "t = (1::real) / 10 ^ 14"
  have q: "(2::real) powi (- 48) \<le> t" "(2::real) powi (- 47) \<le> t"
    by (simp_all add: t_def)
  have tri: "\<And>a b c x y. \<bar>a - b\<bar> \<le> x \<Longrightarrow> \<bar>b - c\<bar> \<le> y \<Longrightarrow> \<bar>a - c\<bar> \<le> x + (y::real)"
    by linarith
  have add: "\<And>a a' b b' s x y z. \<bar>a - a'\<bar> \<le> x \<Longrightarrow> \<bar>b - b'\<bar> \<le> y \<Longrightarrow> \<bar>s - (a + b)\<bar> \<le> z
               \<Longrightarrow> \<bar>s - (a' + b')\<bar> \<le> x + y + (z::real)"
    by linarith
  have le: "\<And>a x y. \<bar>a\<bar> \<le> x \<Longrightarrow> x \<le> y \<Longrightarrow> \<bar>a\<bar> \<le> (y::real)"
    by linarith
  have c1: "\<bar>m1 - p1 / 5\<bar> \<le> t + t"
    by (rule tri [OF le [OF _ q(1)]]) (use b1 w1 in \<open>simp_all add: t_def\<close>)
  have c2: "\<bar>m2 - 2 * p2 / 5\<bar> \<le> t + t"
    by (rule tri [OF le [OF _ q(1)]]) (use b2 w2 in \<open>simp_all add: t_def\<close>)
  have c3: "\<bar>m3 - 3 * p3 / 20\<bar> \<le> t + t"
    by (rule tri [OF le [OF _ q(1)]]) (use b3 w3 in \<open>simp_all add: t_def\<close>)
  have c4: "\<bar>m4 - 3 * p4 / 20\<bar> \<le> t + t"
    by (rule tri [OF le [OF _ q(1)]]) (use b4 w4 in \<open>simp_all add: t_def\<close>)
  have c5: "\<bar>m5 - p5 / 10\<bar> \<le> t + t"
    by (rule tri [OF le [OF _ q(1)]]) (use b5 w5 in \<open>simp_all add: t_def\<close>)
  have d1: "\<bar>s1 - (p1 / 5 + 2 * p2 / 5)\<bar> \<le> (t + t) + (t + t) + t"
    by (rule add [OF c1 c2 le [OF _ q(2)]]) (use a1 in simp)
  have d2: "\<bar>s2 - ((p1 / 5 + 2 * p2 / 5) + 3 * p3 / 20)\<bar> \<le> ((t + t) + (t + t) + t) + (t + t) + t"
    by (rule add [OF d1 c3 le [OF _ q(2)]]) (use a2 in simp)
  have d3: "\<bar>s3 - (((p1 / 5 + 2 * p2 / 5) + 3 * p3 / 20) + 3 * p4 / 20)\<bar>
            \<le> (((t + t) + (t + t) + t) + (t + t) + t) + (t + t) + t"
    by (rule add [OF d2 c4 le [OF _ q(2)]]) (use a3 in simp)
  have d4: "\<bar>s4 - ((((p1 / 5 + 2 * p2 / 5) + 3 * p3 / 20) + 3 * p4 / 20) + p5 / 10)\<bar>
            \<le> ((((t + t) + (t + t) + t) + (t + t) + t) + (t + t) + t) + (t + t) + t"
    by (rule add [OF d3 c5 le [OF _ q(2)]]) (use a4 in simp)
  have "((((t + t) + (t + t) + t) + (t + t) + t) + (t + t) + t) + (t + t) + t \<le> 1 / 10 ^ 12"
    by (simp add: t_def)
  with d4 show "\<bar>weighted_average d - exact_weighted_average d\<bar> \<le> 1 / 10 ^ 12"
    unfolding wa ex by simp
qed


lemma clamp_progress_finite: "\<exists>r. clamp_progress p = Fin r \<and> 0 \<le> r \<and> r \<le> 100"
  by (cases p) (auto simp: clamp_progress_def py_min_def py_max_def)

lemma clamped_in_range: "in_range (clamped p)"
  using clamp_progress_finite [of p] by (auto simp: clamped_def in_range_def)

lemma recompute_ok:
  assumes "in_range (preprocessing d)" "in_range (block_transformation d)"
    "in_range (phoneme_analysis d)" "in_range (block_word_phoneme_analysis d)"
    "in_range (post_processing d)"
  shows "tracker_ok (save_progress (calculate_overall_progress (t\<lparr>progress := d\<rparr>)))"
proof -
  have w: "in_range (weighted_average d)"
    "\<bar>weighted_average d - exact_weighted_average d\<bar> \<le> 1 / 10 ^ 12"
    using assms by (rule weighted_average_ok)+
  have e: "weighted_average (d\<lparr>overall := weighted_average d\<rparr>) = weighted_average d"
    "exact_weighted_average (d\<lparr>overall := weighted_average d\<rparr>) = exact_weighted_average d"
    by (simp_all add: weighted_average_def exact_weighted_average_def)
  show ?thesis
    using assms w
    by (simp add: tracker_ok_def save_progress_def calculate_overall_progress_def e)
qed

lemma update_progress_ok:
  assumes ok: "tracker_ok t"
  shows "tracker_ok (update_progress t n p)"
proof -
  have c: "in_range (clamped p)" by (rule clamped_in_range)
  have f: "in_range (preprocessing (progress t))" "in_range (block_transformation (progress t))"
    "in_range (phoneme_analysis (progress t))"
    "in_range (block_word_phoneme_analysis (progress t))"
    "in_range (post_processing (progress t))"
    using ok by (simp_all add: tracker_ok_def)
  have 1: "tracker_ok (save_progress (calculate_overall_progress
      (t\<lparr>progress := (progress t)\<lparr>preprocessing := clamped p\<rparr>\<rparr>)))"
    by (rule recompute_ok) (simp_all add: c f)
  have 2: "tracker_ok (save_progress (calculate_overall_progress
      (t\<lparr>progress := (progress t)\<lparr>block_transformation := clamped p\<rparr>\<rparr>)))"
    by (rule recompute_ok) (simp_all add: c f)
  have 3: "tracker_ok (save_progress (calculate_overall_progress
      (t\<lparr>progress := (progress t)\<lparr>phoneme_analysis := clamped p\<rparr>\<rparr>)))"
    by (rule recompute_ok) (simp_all add: c f)
  have 4: "tracker_ok (save_progress (calculate_overall_progress
      (t\<lparr>progress := (progress t)\<lparr>block_word_phoneme_analysis := clamped p\<rparr>\<rparr>)))"
    by (rule recompute_ok) (simp_all add: c f)
  have 5: "tracker_ok (save_progress (calculate_overall_progress
      (t\<lparr>progress := (progress t)\<lparr>post_processing := clamped p\<rparr>\<rparr>)))"
    by (rule recompute_ok) (simp_all add: c f)
  show ?thesis
    unfolding update_progress_def Let_def
    using ok 1 2 3 4 5 by simp
qed

lemma update_all_ok: "tracker_ok t \<Longrightarrow> tracker_ok (update_all t calls)"
  unfolding update_all_def
  by (induction calls arbitrary: t) (auto simp: update_progress_ok)

lemma weighted_average_init: "weighted_average ProgressData_init = 0"
  by (simp add: weighted_average_def ProgressData_init_def fmul_def fadd_def to_double_zero)

lemma tracker_init_ok: "tracker_ok ProgressTracker_init"
  using weighted_average_init
  by (simp add: tracker_ok_def ProgressTracker_init_def in_range_def exact_weighted_average_def)
     (simp add: ProgressData_init_def)

lemma fmul_zero: "fmul 0 w = 0"
  by (simp add: fmul_def to_double_zero)

lemma seven_fifths:
  "fmul 7 weight_preprocessing = 6305039478318695 / 4503599627370496"
  "fadd (6305039478318695 / 4503599627370496) 0 = 6305039478318695 / 4503599627370496"
proof -
  show "fmul 7 weight_preprocessing = 6305039478318695 / 4503599627370496"
    unfolding fmul_def weight_values
    by (subst to_double_eval [where e = 0]) (simp_all add: round_half_even_def)
  show "fadd (6305039478318695 / 4503599627370496) 0 = 6305039478318695 / 4503599627370496"
    unfolding fadd_def
    by (subst to_double_eval [where e = 0]) (simp_all add: round_half_even_def)
qed

lemma clamped_values:
  "clamped (Fin r) = max 0 (min 100 r)" "clamped NaN = 100" "clamped PosInf = 100"
  "clamped NegInf = 0"
  by (auto simp: clamped_def clamp_progress_def py_min_def py_max_def)

section \<open>Lemmas: the job store\<close>

lemma step_index:
  "index_of (map fst step_weights) STEP_WEBHOOK_NOTIFICATION = Some 9"
  "index_of (map fst step_weights) STEP_COMPLETED = Some 10"
  by (simp_all add: step_weights_def)

lemma percentage_values:
  "calculate_progress_percentage 9 = 99"
  "calculate_progress_percentage 10 = 100"
  by (simp_all add: calculate_progress_percentage_def step_weights_def)

lemma total_progress_ends:
  "total_progress stage 0 = start_percent stage"
  "total_progress stage 100 = end_percent stage"
  by (simp_all add: total_progress_def field_simps)

lemma create_job_effect:
  "job_exists (create_job st j) j"
  "trace (create_job st j) j = trace st j @ [(PENDING, STEP_INITIALIZATION, 0)]"
  "results_of (create_job st j) k = results_of st k"
  "current_view (create_job st j) j = Some (PENDING, STEP_INITIALIZATION, 0)"
  by (simp_all add: create_job_def setex_progress_def job_exists_def get_progress_def
      trace_def snapshots_of_def view_def results_of_def current_view_def)

lemma update_stage_progress_effect:
  assumes "job_exists st j"
  shows "job_exists (update_stage_progress st j stage sp) j"
    and "trace (update_stage_progress st j stage sp) j
         = trace st j @ [(get_job_status stage, get_job_step stage, total_progress stage sp)]"
    and "results_of (update_stage_progress st j stage sp) k = results_of st k"
    and "current_view (update_stage_progress st j stage sp) j
         = Some (get_job_status stage, get_job_step stage, total_progress stage sp)"
  using assms
  by (auto simp: update_stage_progress_def update_job_progress_direct_def setex_progress_def
      job_exists_def get_progress_def trace_def snapshots_of_def view_def results_of_def
      current_view_def)

lemma update_job_progress_effect:
  assumes "job_exists st j" and "index_of (map fst step_weights) step = Some idx"
  shows "job_exists (snd (update_job_progress st j s step err)) j"
    and "trace (snd (update_job_progress st j s step err)) j
         = trace st j @ [(s, step, calculate_progress_percentage idx)]"
    and "results_of (snd (update_job_progress st j s step err)) k = results_of st k"
    and "fst (update_job_progress st j s step err)"
    and "current_view (snd (update_job_progress st j s step err)) j
         = Some (s, step, calculate_progress_percentage idx)"
  using assms
  by (auto simp: update_job_progress_def setex_progress_def
      job_exists_def get_progress_def trace_def snapshots_of_def view_def results_of_def
      current_view_def)

lemma update_job_progress_absent:
  "\<not> job_exists st j \<Longrightarrow> update_job_progress st j s step err = (False, st)"
  by (simp add: update_job_progress_def job_exists_def)

lemma setex_result_effect:
  "job_exists (setex_result st r) j = job_exists st j"
  "trace (setex_result st r) j = trace st j"
  "results_of (setex_result st r) j
     = results_of st j @ (if result_job_id r = j then [r] else [])"
  "current_view (setex_result st r) j = current_view st j"
  by (simp_all add: setex_result_def job_exists_def get_progress_def trace_def
      snapshots_of_def results_of_def current_view_def)

text \<open>\<open>save_result\<close> in each of its cases.\<close>

lemma save_result_cases:
  "\<not> job_exists st j \<Longrightarrow> save_result st j d f fault = (False, st)"
  "job_exists st j \<Longrightarrow> save_result st j d f (Some DumpsRaises) = (False, st)"
  "job_exists st j \<Longrightarrow> save_result st j d f (Some (SetexRaises False)) = (False, st)"
  "job_exists st j \<Longrightarrow> save_result st j d f (Some (SetexRaises True))
     = (False, setex_result st
          \<lparr>result_job_id = j, result_status = COMPLETED, filename = f, result_data = d\<rparr>)"
  "job_exists st j \<Longrightarrow> save_result st j d f None
     = (True, snd (update_job_progress
          (setex_result st
             \<lparr>result_job_id = j, result_status = COMPLETED, filename = f, result_data = d\<rparr>)
          j COMPLETED STEP_COMPLETED None))"
  by (auto simp: save_result_def job_exists_def Let_def)

lemma save_result_effect:
  assumes "job_exists st j"
  shows "job_exists (snd (save_result st j d f None)) j"
    and "trace (snd (save_result st j d f None)) j = trace st j @ [(COMPLETED, STEP_COMPLETED, 100)]"
    and "results_of (snd (save_result st j d f None)) j
         = results_of st j
           @ [\<lparr>result_job_id = j, result_status = COMPLETED, filename = f, result_data = d\<rparr>]"
    and "fst (save_result st j d f None)"
    and "current_view (snd (save_result st j d f None)) j = Some (COMPLETED, STEP_COMPLETED, 100)"
proof -
  let ?r = "\<lparr>result_job_id = j, result_status = COMPLETED, filename = f, result_data = d\<rparr>"
  have e: "job_exists (setex_result st ?r) j"
    using assms by (simp add: setex_result_effect)
  have s: "save_result st j d f None
           = (True, snd (update_job_progress (setex_result st ?r) j COMPLETED STEP_COMPLETED None))"
    by (rule save_result_cases(5) [OF assms])
  show "job_exists (snd (save_result st j d f None)) j"
    using update_job_progress_effect(1) [OF e step_index(2)] by (simp add: s)
  show "trace (snd (save_result st j d f None)) j = trace st j @ [(COMPLETED, STEP_COMPLETED, 100)]"
    using update_job_progress_effect(2) [OF e step_index(2)]
    by (simp add: s setex_result_effect percentage_values)
  show "results_of (snd (save_result st j d f None)) j = results_of st j @ [?r]"
    using update_job_progress_effect(3) [OF e step_index(2)]
    by (simp add: s setex_result_effect)
  show "fst (save_result st j d f None)"
    by (simp add: s)
  show "current_view (snd (save_result st j d f None)) j = Some (COMPLETED, STEP_COMPLETED, 100)"
    using update_job_progress_effect(5) [OF e step_index(2)]
    by (simp add: s percentage_values)
qed

text \<open>What \<open>save_result\<close> returns and what it writes, for every store, job and fault.\<close>

lemma save_result_summary:
  "fst (save_result st j d f fault) = (job_exists st j \<and> fault = None)"
  "results_of (snd (save_result st j d f fault)) j
   = results_of st j
     @ (if job_exists st j \<and> (fault = None \<or> fault = Some (SetexRaises True))
        then [\<lparr>result_job_id = j, result_status = COMPLETED, filename = f, result_data = d\<rparr>]
        else [])"
  "trace (snd (save_result st j d f fault)) j
   = trace st j @ (if job_exists st j \<and> fault = None then [(COMPLETED, STEP_COMPLETED, 100)] else [])"
  "job_exists (snd (save_result st j d f fault)) j = job_exists st j"
proof -
  consider (absent) "\<not> job_exists st j"
    | (ok) "job_exists st j" "fault = None"
    | (dumps) "job_exists st j" "fault = Some DumpsRaises"
    | (lost) "job_exists st j" "fault = Some (SetexRaises False)"
    | (stored) "job_exists st j" "fault = Some (SetexRaises True)"
  proof (cases fault)
    case None
    then show ?thesis using that by blast
  next
    case (Some w)
    then show ?thesis using that by (cases w) auto
  qed
  then have "fst (save_result st j d f fault) = (job_exists st j \<and> fault = None)
    \<and> results_of (snd (save_result st j d f fault)) j
      = results_of st j
        @ (if job_exists st j \<and> (fault = None \<or> fault = Some (SetexRaises True))
           then [\<lparr>result_job_id = j, result_status = COMPLETED, filename = f, result_data = d\<rparr>]
           else [])
    \<and> trace (snd (save_result st j d f fault)) j
      = trace st j @ (if job_exists st j \<and> fault = None then [(COMPLETED, STEP_COMPLETED, 100)] else [])
    \<and> job_exists (snd (save_result st j d f fault)) j = job_exists st j"
  proof cases
    case absent
    then show ?thesis by (simp add: save_result_cases)
  next
    case ok
    then show ?thesis by (simp add: save_result_effect)
  next
    case dumps
    then show ?thesis by (simp add: save_result_cases)
  next
    case lost
    then show ?thesis by (simp add: save_result_cases)
  next
    case stored
    then show ?thesis by (simp add: save_result_cases setex_result_effect)
  qed
  then show "fst (save_result st j d f fault) = (job_exists st j \<and> fault = None)"
    "results_of (snd (save_result st j d f fault)) j
     = results_of st j
       @ (if job_exists st j \<and> (fault = None \<or> fault = Some (SetexRaises True))
          then [\<lparr>result_job_id = j, result_status = COMPLETED, filename = f, result_data = d\<rparr>]
          else [])"
    "trace (snd (save_result st j d f fault)) j
     = trace st j @ (if job_exists st j \<and> fault = None then [(COMPLETED, STEP_COMPLETED, 100)] else [])"
    "job_exists (snd (save_result st j d f fault)) j = job_exists st j"
    by blast+
qed

lemma mark_failed_effect:
  assumes "job_exists st j"
  shows "job_exists (snd (mark_failed st j msg)) j"
    and "trace (snd (mark_failed st j msg)) j = trace st j @ [(FAILED, STEP_COMPLETED, 100)]"
    and "results_of (snd (mark_failed st j msg)) k = results_of st k"
    and "current_view (snd (mark_failed st j msg)) j = Some (FAILED, STEP_COMPLETED, 100)"
  using update_job_progress_effect [OF assms step_index(2)]
  by (simp_all add: mark_failed_def percentage_values)

lemmas store_effects = create_job_effect update_stage_progress_effect
  update_job_progress_effect mark_failed_effect step_index
  percentage_values total_progress_ends

section \<open>Lemmas: the webhook loop\<close>

lemma webhook_loop_posts: "fst (snd (webhook_loop n a resp c)) \<le> n"
proof (induction n arbitrary: a)
  case 0
  then show ?case by simp
next
  case (Suc n)
  from Suc [of "a + 1"] show ?case
    by (auto simp: Let_def split_beta split: http_outcome.splits)
qed

lemma webhook_loop_cancelled_posts:
  "fst (webhook_loop n a resp c) = None \<Longrightarrow> 1 \<le> fst (snd (webhook_loop n a resp c))"
  by (cases n) (auto simp: Let_def split_beta split: http_outcome.splits if_splits)

lemma webhook_loop_not_cancelled: "fst (webhook_loop n a resp None) \<noteq> None"
proof (induction n arbitrary: a)
  case 0
  then show ?case by simp
next
  case (Suc n)
  from Suc [of "a + 1"] show ?case
    by (auto simp: Let_def split_beta split: http_outcome.splits)
qed

lemma send_webhook_posts:
  "fst (snd (send_webhook_with_retry resp c)) \<le> 3"
  "fst (send_webhook_with_retry resp c) = None \<Longrightarrow> 1 \<le> fst (snd (send_webhook_with_retry resp c))"
  "fst (send_webhook_with_retry resp None) \<noteq> None"
  using webhook_loop_posts [of 3 0 resp c] webhook_loop_cancelled_posts [of 3 0 resp c]
    webhook_loop_not_cancelled [of 3 0 resp]
  by (simp_all add: send_webhook_with_retry_def max_retry_attempts_def)

section \<open>Lemmas: the processor\<close>

text \<open>
  The \<open>try\<close> block of every run ends with an exception that \<open>except Exception\<close> catches:
  the file does not open, the options are not valid, or the pipeline call raises.
\<close>

lemma body_eq:
  "pipeline_body ctx env cancel p
   = (if reaches_pipeline_call ctx env then
        (p\<lparr>store := update_stage_progress
                      (update_stage_progress (store p) (ctx_job_id ctx) STAGE_INITIALIZATION 0)
                      (ctx_job_id ctx) STAGE_PDF_EXTRACTION 0\<rparr>,
         Some (Exception ''OrchestrationOptions object has no attribute job_id''))
      else
        (p\<lparr>store := update_stage_progress (store p) (ctx_job_id ctx) STAGE_INITIALIZATION 0\<rparr>,
         Some (Exception (if file_readable env then ''validation error for OrchestrationOptions''
                          else ''cannot open file''))))"
  by (auto simp: pipeline_body_def reaches_pipeline_call_def new_OrchestrationOptions_def
      execute_complete_pipeline_def Let_def Suc_le_eq)

lemma run_fails: "\<exists>p1 msg. pipeline_body ctx env cancel p = (p1, Some (Exception msg))"
  unfolding body_eq by simp

lemma failure_eq:
  "fst (handle_failure ctx env cancel msg p)
   = (if has_webhook ctx then
        (let q = log_posts p (ctx_job_id ctx) ''job_failed''
                   (fst (snd (send_webhook_with_retry (webhook_responses env) cancel)))
         in if run_cancelled ctx env cancel then q
            else q\<lparr>store := snd (mark_failed (store q) (ctx_job_id ctx) msg)\<rparr>)
      else p\<lparr>store := snd (mark_failed (store p) (ctx_job_id ctx) msg)\<rparr>)"
  by (auto simp: handle_failure_def send_failure_webhook_def run_cancelled_def Let_def split_beta
      split: option.splits)

lemma cancelled_has_webhook: "run_cancelled ctx env cancel \<Longrightarrow> has_webhook ctx"
  by (simp add: run_cancelled_def)

lemma log_posts_store: "store (log_posts p j e n) = store p"
  "active_jobs (log_posts p j e n) = active_jobs p"
  "webhook_posts (log_posts p j e n) = webhook_posts p @ replicate n (WebhookPost j e)"
  by (simp_all add: log_posts_def)

text \<open>
  The snapshots one run of \<open>_process_pipeline\<close> writes for its job, in every case of its
  inputs.
\<close>

lemma run_trace:
  assumes "job_exists (store p) (ctx_job_id ctx)"
  shows "trace (store (process_pipeline ctx env cancel p)) (ctx_job_id ctx)
   = trace (store p) (ctx_job_id ctx)
     @ [(PENDING, STEP_INITIALIZATION, 0)]
     @ (if reaches_pipeline_call ctx env then [(PREPROCESSING, STEP_PDF_EXTRACTION, 5)] else [])
     @ (if run_cancelled ctx env cancel then [] else [(FAILED, STEP_COMPLETED, 100)])"
  using assms cancelled_has_webhook [of ctx env cancel]
  by (auto simp: process_pipeline_def body_eq failure_eq cleanup_def log_posts_store
      store_effects Let_def)

lemma run_current:
  assumes "job_exists (store p) (ctx_job_id ctx)"
  shows "current_view (store (process_pipeline ctx env cancel p)) (ctx_job_id ctx)
   = Some (if run_cancelled ctx env cancel then
             (if reaches_pipeline_call ctx env then (PREPROCESSING, STEP_PDF_EXTRACTION, 5)
              else (PENDING, STEP_INITIALIZATION, 0))
           else (FAILED, STEP_COMPLETED, 100))"
  using assms cancelled_has_webhook [of ctx env cancel]
  by (auto simp: process_pipeline_def body_eq failure_eq cleanup_def log_posts_store
      store_effects Let_def)

lemma run_results:
  assumes "job_exists (store p) (ctx_job_id ctx)"
  shows "results_of (store (process_pipeline ctx env cancel p)) k = results_of (store p) k"
  using assms cancelled_has_webhook [of ctx env cancel]
  by (auto simp: process_pipeline_def body_eq failure_eq cleanup_def log_posts_store
      store_effects Let_def)

lemma run_posts:
  "webhook_posts (process_pipeline ctx env cancel p)
   = webhook_posts p
     @ (if has_webhook ctx then
          replicate (fst (snd (send_webhook_with_retry (webhook_responses env) cancel)))
            (WebhookPost (ctx_job_id ctx) ''job_failed'')
        else [])"
  by (simp add: process_pipeline_def body_eq failure_eq cleanup_def log_posts_store Let_def)

lemma run_active:
  "active_jobs (process_pipeline ctx env cancel p) = active_jobs p - {ctx_job_id ctx}"
  by (simp add: process_pipeline_def body_eq failure_eq cleanup_def log_posts_store Let_def)

lemma start_processing_effect:
  "job_exists (store (start_processing p j)) j"
  "trace (store (start_processing p j)) j = trace (store p) j @ [(PENDING, STEP_INITIALIZATION, 0)]"
  "results_of (store (start_processing p j)) k = results_of (store p) k"
  "webhook_posts (start_processing p j) = webhook_posts p"
  "j \<in> active_jobs (start_processing p j)"
  by (simp_all add: start_processing_def create_job_effect)

text \<open>The life of a job: what creation and run add to its snapshots.\<close>

lemma job_run_trace:
  "trace (store (job_run ctx env cancel p)) (ctx_job_id ctx)
   = trace (store p) (ctx_job_id ctx)
     @ [(PENDING, STEP_INITIALIZATION, 0), (PENDING, STEP_INITIALIZATION, 0)]
     @ (if reaches_pipeline_call ctx env then [(PREPROCESSING, STEP_PDF_EXTRACTION, 5)] else [])
     @ (if run_cancelled ctx env cancel then [] else [(FAILED, STEP_COMPLETED, 100)])"
  unfolding job_run_def
  by (simp add: run_trace [OF start_processing_effect(1)] start_processing_effect)

lemma added_by_run_eq:
  "added_by_run ctx env cancel p
   = [(PENDING, STEP_INITIALIZATION, 0), (PENDING, STEP_INITIALIZATION, 0)]
     @ (if reaches_pipeline_call ctx env then [(PREPROCESSING, STEP_PDF_EXTRACTION, 5)] else [])
     @ (if run_cancelled ctx env cancel then [] else [(FAILED, STEP_COMPLETED, 100)])"
  unfolding added_by_run_def job_run_trace by simp

lemma percentages_trace:
  "percentages (snapshots_of st j) = map (\<lambda>(s, c, pct). pct) (trace st j)"
  by (simp add: percentages_def trace_def view_def)

lemma trace_init: "trace (store processor_init) j = []"
  by (simp add: processor_init_def empty_store_def trace_def snapshots_of_def)

lemma results_init: "results_of (store processor_init) j = []"
  by (simp add: processor_init_def empty_store_def results_of_def)

lemma JobStatus_members:
  "s = PENDING \<or> s = PREPROCESSING \<or> s = TRANSFORMING \<or> s = GENERATING_IMAGES
   \<or> s = ANALYZING_PHONEMES \<or> s = WEBHOOK_SENDING \<or> s = COMPLETED \<or> s = FAILED"
  by (cases s) simp_all

lemma cancel_job_store: "store (snd (cancel_job p j)) = store p"
  "webhook_posts (snd (cancel_job p j)) = webhook_posts p"
  by (simp_all add: cancel_job_def)

text \<open>
  A job without a webhook url cannot be cancelled while its task runs: the run never
  waits, and when it is over the job is no longer active, so \<open>cancel_job\<close> answers 404.
\<close>

lemma no_webhook_no_cancel:
  "\<not> has_webhook ctx \<Longrightarrow> \<not> run_cancelled ctx env cancel"
  "fst (cancel_job (job_run ctx env cancel p) (ctx_job_id ctx)) = CancelNotFound"
  by (simp_all add: run_cancelled_def cancel_job_def job_run_def run_active)

text \<open>
  The code after the pipeline call, which no run reaches: on a record at 100 percent,
  \<open>_handle_completion\<close> of a job with a webhook url would store 99 percent for
  \<open>WEBHOOK_NOTIFICATION\<close> before the result is saved.
\<close>

lemma handle_completion_trace:
  assumes "job_exists (store p) (ctx_job_id ctx)"
  shows "trace (store (fst (handle_completion ctx env cancel d p))) (ctx_job_id ctx)
   = trace (store p) (ctx_job_id ctx)
     @ (if has_webhook ctx then
          [(WEBHOOK_SENDING, STEP_WEBHOOK_NOTIFICATION, 99)]
          @ (if run_cancelled ctx env cancel \<or> save_fault env \<noteq> None then []
             else [(COMPLETED, STEP_COMPLETED, 100)])
        else (if save_fault env = None then [(COMPLETED, STEP_COMPLETED, 100)] else [])
          @ [(COMPLETED, STEP_COMPLETED, 100)])"
proof (cases "has_webhook ctx")
  case False
  then show ?thesis
    using assms
    by (simp add: handle_completion_def Let_def save_result_summary store_effects)
next
  case True
  define q where "q = p\<lparr>store := snd (update_job_progress (store p) (ctx_job_id ctx) WEBHOOK_SENDING
                            STEP_WEBHOOK_NOTIFICATION None)\<rparr>"
  have e: "job_exists (store q) (ctx_job_id ctx)"
    "trace (store q) (ctx_job_id ctx)
     = trace (store p) (ctx_job_id ctx) @ [(WEBHOOK_SENDING, STEP_WEBHOOK_NOTIFICATION, 99)]"
    using assms by (simp_all add: q_def store_effects)
  show ?thesis
    using True e
    by (cases "fst (send_webhook_with_retry (webhook_responses env) cancel)")
       (simp_all add: handle_completion_def send_completion_webhook_def q_def [symmetric]
         run_cancelled_def split_beta Let_def log_posts_store save_result_summary)
qed

lemma sample_ctx_simps:
  "ctx_job_id sample_ctx = ''j1''" "has_webhook sample_ctx"
  "reaches_pipeline_call sample_ctx sample_run_env"
  by (simp_all add: sample_ctx_def sample_run_env_def has_webhook_def reaches_pipeline_call_def)

lemma sample_webhook:
  "send_webhook_with_retry (webhook_responses sample_run_env) None = (Some False, 3, [2, 4])"
  "send_webhook_with_retry (webhook_responses sample_run_env) (Some (AwaitSleep 0)) = (None, 1, [2])"
  by (simp_all add: send_webhook_with_retry_def max_retry_attempts_def retry_delay_def
      sample_run_env_def numeral_3_eq_3)

lemma sample_cancelled:
  "\<not> run_cancelled sample_ctx sample_run_env None"
  "run_cancelled sample_ctx sample_run_env (Some (AwaitSleep 0))"
  by (simp_all add: run_cancelled_def sample_webhook sample_ctx_simps)

section \<open>Claims on the job store and the processor\<close>

text \<open>
  C3. For every job of the processor, in every case of its inputs (any context, any
  answers of the collaborators, cancelled at any await or not), the percentages of the
  snapshots stored for the job from its creation on never decrease: they are 0 and 0, then
  5 when the pipeline call was reached, then 100 when the job was marked failed. These are
  all the snapshots of a job whose id is new. Every run ends in the failure path (lemma
  \<open>run_fails\<close>); the completion and webhook-notification steps of \<open>_handle_completion\<close>
  are reached by no run.
\<close>

theorem progress_never_decreases:
  "percentages (snapshots_of (store (job_run ctx env cancel p)) (ctx_job_id ctx))
     = percentages (snapshots_of (store p) (ctx_job_id ctx))
       @ map (\<lambda>(s, c, pct). pct) (added_by_run ctx env cancel p)
   \<and> non_decreasing (map (\<lambda>(s, c, pct). pct) (added_by_run ctx env cancel p))
   \<and> map (\<lambda>(s, c, pct). pct) (added_by_run ctx env cancel p)
       \<in> {[0, 0], [0, 0, 5], [0, 0, 100], [0, 0, 5, 100]}
   \<and> (snapshots_of (store p) (ctx_job_id ctx) \<noteq> []
        \<or> non_decreasing (percentages
             (snapshots_of (store (job_run ctx env cancel p)) (ctx_job_id ctx))))"
proof -
  have a: "percentages (snapshots_of (store (job_run ctx env cancel p)) (ctx_job_id ctx))
     = percentages (snapshots_of (store p) (ctx_job_id ctx))
       @ map (\<lambda>(s, c, pct). pct) (added_by_run ctx env cancel p)"
    unfolding percentages_trace job_run_trace added_by_run_eq by simp
  have b: "non_decreasing (map (\<lambda>(s, c, pct). pct) (added_by_run ctx env cancel p))"
    unfolding added_by_run_eq by simp
  have c: "map (\<lambda>(s, c, pct). pct) (added_by_run ctx env cancel p)
       \<in> {[0, 0], [0, 0, 5], [0, 0, 100], [0, 0, 5, 100]}"
    unfolding added_by_run_eq by simp
  have d: "snapshots_of (store p) (ctx_job_id ctx) \<noteq> []
        \<or> non_decreasing (percentages
             (snapshots_of (store (job_run ctx env cancel p)) (ctx_job_id ctx)))"
  proof (cases "snapshots_of (store p) (ctx_job_id ctx) = []")
    case True
    then show ?thesis unfolding a using b by (simp add: percentages_def)
  next
    case False
    then show ?thesis by simp
  qed
  show ?thesis using a b c d by blast
qed

theorem progress_never_decreases_witness:
  "snapshots_of (store processor_init) ''j1'' = []
   \<and> non_decreasing (percentages
        (snapshots_of (store (job_run sample_ctx sample_run_env None processor_init)) ''j1''))
   \<and> percentages (snapshots_of (store (job_run sample_ctx sample_run_env None processor_init)) ''j1'')
       = [0, 0, 5, 100]"
proof -
  have e: "snapshots_of (store processor_init) ''j1'' = []"
    by (simp add: processor_init_def empty_store_def snapshots_of_def)
  have v: "percentages (snapshots_of (store (job_run sample_ctx sample_run_env None processor_init))
             (ctx_job_id sample_ctx)) = [0, 0, 5, 100]"
    unfolding percentages_trace job_run_trace
    by (simp add: trace_init sample_ctx_simps sample_cancelled)
  from progress_never_decreases [of sample_ctx sample_run_env None processor_init] e v
  show ?thesis by (simp add: sample_ctx_simps)
qed

text \<open>
  C8. For every job of the processor, in every case of its inputs, a snapshot stored for
  the job from its creation on that carries the percentage 100 has a terminal status: it
  is the snapshot \<open>mark_failed\<close> writes, with the status \<open>FAILED\<close>. (\<open>JobStatus\<close> has the
  terminal members \<open>COMPLETED\<close> and \<open>FAILED\<close> and no member for a cancelled job. The
  closing update of the stage \<open>FINAL_PROCESSING\<close>, which would store 100 with the status
  \<open>TRANSFORMING\<close>, is reached by no run.)
\<close>

theorem full_progress_is_terminal:
  "trace (store (job_run ctx env cancel p)) (ctx_job_id ctx)
     = trace (store p) (ctx_job_id ctx) @ added_by_run ctx env cancel p
   \<and> (\<forall>(s, c, pct) \<in> set (added_by_run ctx env cancel p).
         pct = 100 \<longrightarrow> terminal s \<and> s = FAILED)"
  unfolding job_run_trace added_by_run_eq by (simp add: terminal_def)

theorem full_progress_is_terminal_witness:
  "(FAILED, STEP_COMPLETED, 100) \<in> set (added_by_run sample_ctx sample_run_env None processor_init)
   \<and> terminal FAILED"
proof -
  have m: "(FAILED, STEP_COMPLETED, 100)
           \<in> set (added_by_run sample_ctx sample_run_env None processor_init)"
    unfolding added_by_run_eq by (simp add: sample_cancelled)
  from full_progress_is_terminal [of sample_ctx sample_run_env None processor_init] m
  show ?thesis by auto
qed




text \<open>
  C5, as stated, fails: the claim is that a cancelled job gets the terminal status
  \<open>CANCELLED\<close> and that no failure message is published for it. The pipeline of job
  \<open>j1\<close> has failed, the first post of its failure webhook was answered 500 and the task
  waits in the delay before the second: \<open>cancel_job\<close> answers with success and the task
  ends with \<open>CancelledError\<close>. The job's record still says \<open>PREPROCESSING\<close> at 5
  percent, and the failure webhook has been posted. (\<open>cancel_job\<close> changes \<open>active_jobs\<close>
  only, so the run is applied to the state it leaves; the task wrote its snapshots before
  it was suspended.)
\<close>

theorem cancelled_job_keeps_stage_status:
  "fst (cancel_job (start_processing processor_init ''j1'') ''j1'') = CancelOk
   \<and> current_view (store (process_pipeline sample_ctx sample_run_env (Some (AwaitSleep 0))
         (snd (cancel_job (start_processing processor_init ''j1'') ''j1'')))) ''j1''
       = Some (PREPROCESSING, STEP_PDF_EXTRACTION, 5)
   \<and> \<not> terminal PREPROCESSING
   \<and> webhook_posts (process_pipeline sample_ctx sample_run_env (Some (AwaitSleep 0))
         (snd (cancel_job (start_processing processor_init ''j1'') ''j1'')))
       = [WebhookPost ''j1'' ''job_failed'']"
proof -
  let ?p = "snd (cancel_job (start_processing processor_init ''j1'') ''j1'')"
  have e: "job_exists (store ?p) (ctx_job_id sample_ctx)"
    by (simp add: cancel_job_store start_processing_effect sample_ctx_simps)
  have w: "webhook_posts ?p = []"
    by (simp add: cancel_job_store start_processing_effect processor_init_def)
  have a: "fst (cancel_job (start_processing processor_init ''j1'') ''j1'') = CancelOk"
    by (simp add: cancel_job_def start_processing_effect)
  have b: "current_view (store (process_pipeline sample_ctx sample_run_env (Some (AwaitSleep 0)) ?p))
             (ctx_job_id sample_ctx) = Some (PREPROCESSING, STEP_PDF_EXTRACTION, 5)"
    unfolding run_current [OF e] by (simp add: sample_cancelled sample_ctx_simps)
  have c: "webhook_posts (process_pipeline sample_ctx sample_run_env (Some (AwaitSleep 0)) ?p)
           = [WebhookPost ''j1'' ''job_failed'']"
    unfolding run_posts by (simp add: w sample_ctx_simps sample_webhook)
  show ?thesis using a b c by (simp add: terminal_def sample_ctx_simps)
qed

text \<open>
  C5, amended. A task of the processor waits only while it sends the failure webhook: the
  run of a job without a webhook url is never cancelled, and once a run is over,
  \<open>cancel_job\<close> for its job answers 404. \<open>cancel_job\<close> for an active job answers with
  success, removes the job from \<open>active_jobs\<close> and cancels its task; it writes nothing to
  the store and posts nothing. No status is written for the cancellation (\<open>JobStatus\<close> has
  no member for it, lemma \<open>JobStatus_members\<close>) and the job is not marked failed: its
  record keeps the non-terminal status of the last stage update, \<open>PREPROCESSING\<close> at 5
  percent, or \<open>PENDING\<close> at 0 when the file or the options had failed. No result is
  written and no completion webhook is posted. The failure webhook has been posted, once
  to three times, when the cancellation arrives.
\<close>

theorem cancel_leaves_stage_status:
  assumes active: "j \<in> active_jobs p" and job: "ctx_job_id ctx = j"
    and ex: "job_exists (store p) j" and delivered: "cancel_delivered ctx env cp"
  shows "fst (cancel_job p j) = CancelOk
     \<and> store (snd (cancel_job p j)) = store p
     \<and> webhook_posts (snd (cancel_job p j)) = webhook_posts p
     \<and> j \<notin> active_jobs (snd (cancel_job p j))
     \<and> current_view (store (process_pipeline ctx env (Some cp) (snd (cancel_job p j)))) j
         = Some (if reaches_pipeline_call ctx env then (PREPROCESSING, STEP_PDF_EXTRACTION, 5)
                 else (PENDING, STEP_INITIALIZATION, 0))
     \<and> \<not> terminal PREPROCESSING \<and> \<not> terminal PENDING
     \<and> trace (store (process_pipeline ctx env (Some cp) (snd (cancel_job p j)))) j
         = trace (store p) j @ [(PENDING, STEP_INITIALIZATION, 0)]
           @ (if reaches_pipeline_call ctx env then [(PREPROCESSING, STEP_PDF_EXTRACTION, 5)] else [])
     \<and> results_of (store (process_pipeline ctx env (Some cp) (snd (cancel_job p j)))) j
         = results_of (store p) j
     \<and> (\<exists>n. 1 \<le> n \<and> n \<le> 3
            \<and> webhook_posts (process_pipeline ctx env (Some cp) (snd (cancel_job p j)))
                = webhook_posts p @ replicate n (WebhookPost j ''job_failed''))
     \<and> j \<notin> active_jobs (process_pipeline ctx env (Some cp) (snd (cancel_job p j)))
     \<and> fst (cancel_job (process_pipeline ctx env (Some cp) (snd (cancel_job p j))) j)
         = CancelNotFound
     \<and> (\<not> has_webhook ctx' \<longrightarrow> \<not> run_cancelled ctx' env' cancel')
     \<and> fst (cancel_job (job_run ctx' env' cancel' p') (ctx_job_id ctx')) = CancelNotFound"
proof -
  let ?q = "snd (cancel_job p j)"
  have c: "run_cancelled ctx env (Some cp)" "has_webhook ctx"
    using delivered by (simp_all add: cancel_delivered_def run_cancelled_def)
  have e: "job_exists (store ?q) (ctx_job_id ctx)"
    using ex job by (simp add: cancel_job_store)
  have 1: "fst (cancel_job p j) = CancelOk" "store ?q = store p"
    "webhook_posts ?q = webhook_posts p" "j \<notin> active_jobs ?q"
    using active by (simp_all add: cancel_job_def)
  have 2: "current_view (store (process_pipeline ctx env (Some cp) ?q)) j
         = Some (if reaches_pipeline_call ctx env then (PREPROCESSING, STEP_PDF_EXTRACTION, 5)
                 else (PENDING, STEP_INITIALIZATION, 0))"
    using run_current [OF e, of env "Some cp"] c job by simp
  have 3: "trace (store (process_pipeline ctx env (Some cp) ?q)) j
         = trace (store p) j @ [(PENDING, STEP_INITIALIZATION, 0)]
           @ (if reaches_pipeline_call ctx env then [(PREPROCESSING, STEP_PDF_EXTRACTION, 5)] else [])"
    using run_trace [OF e, of env "Some cp"] c job by (simp add: 1)
  have 4: "results_of (store (process_pipeline ctx env (Some cp) ?q)) j = results_of (store p) j"
    using run_results [OF e, of env "Some cp" j] by (simp add: 1)
  define n where "n = fst (snd (send_webhook_with_retry (webhook_responses env) (Some cp)))"
  have n: "1 \<le> n" "n \<le> 3"
    using send_webhook_posts(1,2) [of "webhook_responses env" "Some cp"] c(1)
    by (simp_all add: n_def run_cancelled_def)
  have "webhook_posts (process_pipeline ctx env (Some cp) ?q)
        = webhook_posts p @ replicate n (WebhookPost j ''job_failed'')"
    unfolding run_posts using c(2) job by (simp add: 1 n_def)
  with n have 5: "\<exists>n. 1 \<le> n \<and> n \<le> 3
            \<and> webhook_posts (process_pipeline ctx env (Some cp) ?q)
                = webhook_posts p @ replicate n (WebhookPost j ''job_failed'')"
    by blast
  have 6: "j \<notin> active_jobs (process_pipeline ctx env (Some cp) ?q)"
    "fst (cancel_job (process_pipeline ctx env (Some cp) ?q) j) = CancelNotFound"
    using job by (simp_all add: run_active cancel_job_def)
  have 7: "\<not> has_webhook ctx' \<longrightarrow> \<not> run_cancelled ctx' env' cancel'"
    "fst (cancel_job (job_run ctx' env' cancel' p') (ctx_job_id ctx')) = CancelNotFound"
    using no_webhook_no_cancel(1) [of ctx' env' cancel']
      no_webhook_no_cancel(2) [of ctx' env' cancel' p'] by blast+
  show ?thesis using 1 2 3 4 5 6 7 by (simp add: terminal_def)
qed

theorem cancel_leaves_stage_status_witness:
  "''j1'' \<in> active_jobs (start_processing processor_init ''j1'')
   \<and> job_exists (store (start_processing processor_init ''j1'')) ''j1''
   \<and> cancel_delivered sample_ctx sample_run_env (AwaitSleep 0)
   \<and> fst (cancel_job (start_processing processor_init ''j1'') ''j1'') = CancelOk
   \<and> current_view (store (process_pipeline sample_ctx sample_run_env (Some (AwaitSleep 0))
         (snd (cancel_job (start_processing processor_init ''j1'') ''j1'')))) ''j1''
       = Some (PREPROCESSING, STEP_PDF_EXTRACTION, 5)
   \<and> results_of (store (process_pipeline sample_ctx sample_run_env (Some (AwaitSleep 0))
         (snd (cancel_job (start_processing processor_init ''j1'') ''j1'')))) ''j1'' = []"
proof -
  have a: "''j1'' \<in> active_jobs (start_processing processor_init ''j1'')"
    by (rule start_processing_effect)
  have e: "job_exists (store (start_processing processor_init ''j1'')) ''j1''"
    by (rule start_processing_effect)
  have d: "cancel_delivered sample_ctx sample_run_env (AwaitSleep 0)"
    by (simp add: cancel_delivered_def sample_cancelled)
  have r: "results_of (store (start_processing processor_init ''j1'')) ''j1'' = []"
    by (simp add: start_processing_effect results_init)
  from cancel_leaves_stage_status [OF a sample_ctx_simps(1) e d] a e d r
  show ?thesis by (simp add: sample_ctx_simps)
qed

section \<open>Lemmas: transformation and the main pipeline\<close>

lemma transform_loop_Inr:
  "transform_loop i cs chain acc = Inr cb \<longleftrightarrow>
     (\<forall>k < length cs. \<exists>bs. chain (i + k) = Inr bs)
     \<and> cb = acc @ map (\<lambda>k. projr (chain (i + k))) [0..<length cs]"
proof (induction cs arbitrary: i acc)
  case Nil
  then show ?case by auto
next
  case (Cons c cs)
  show ?case
  proof (cases "chain i")
    case (Inl e)
    then show ?thesis by (auto intro: exI [of _ 0])
  next
    case (Inr bs)
    have u: "[0..<Suc (length cs)] = 0 # map Suc [0..<length cs]"
      by (simp add: upt_conv_Cons map_Suc_upt del: upt_Suc)
    have "(\<forall>k < Suc (length cs). \<exists>bs. chain (i + k) = Inr bs)
          \<longleftrightarrow> (\<forall>k < length cs. \<exists>bs. chain (Suc i + k) = Inr bs)"
      using Inr by (auto simp: less_Suc_eq_0_disj)
    then show ?thesis
      using Inr Cons.IH [of "i + 1" "acc @ [bs]"]
      by (simp add: u comp_def del: upt_Suc)
  qed
qed

lemma url_attached_refl: "url_attached b b"
  by (simp add: url_attached_def)

lemma url_attached_trans: "url_attached a b \<Longrightarrow> url_attached b c \<Longrightarrow> url_attached a c"
  by (auto simp: url_attached_def)

lemma blocks_attached_refl: "blocks_attached cb cb"
  by (simp add: blocks_attached_def list_all2_refl url_attached_refl)

lemma blocks_attached_trans:
  "blocks_attached a b \<Longrightarrow> blocks_attached b c \<Longrightarrow> blocks_attached a c"
  unfolding blocks_attached_def
  by (erule list_all2_trans [rotated], assumption)
     (erule list_all2_trans [rotated], assumption, erule (1) url_attached_trans)

lemma url_attached_type: "url_attached b b' \<Longrightarrow> block_type b' = block_type b"
  by (auto simp: url_attached_def)

lemma blocks_attached_nth:
  assumes "blocks_attached cb cb'"
  shows "length cb' = length cb"
    and "ci < length cb \<Longrightarrow> length (cb' ! ci) = length (cb ! ci)"
    and "ci < length cb \<Longrightarrow> bi < length (cb ! ci) \<Longrightarrow> url_attached (cb ! ci ! bi) (cb' ! ci ! bi)"
  using assms unfolding blocks_attached_def
  by (auto simp: list_all2_conv_all_nth)

lemma page_image_at_attached:
  assumes att: "blocks_attached cb cb'" and pi: "page_image_at cb t"
  shows "page_image_at cb' t"
  unfolding page_image_at_def
proof
  assume r: "fst t < length cb' \<and> snd t < length (cb' ! fst t)"
  then have 1: "fst t < length cb"
    using blocks_attached_nth(1) [OF att] by simp
  then have 2: "snd t < length (cb ! fst t)"
    using r blocks_attached_nth(2) [OF att 1] by simp
  have "url_attached (cb ! fst t ! snd t) (cb' ! fst t ! snd t)"
    by (rule blocks_attached_nth(3) [OF att 1 2])
  then have "block_type (cb' ! fst t ! snd t) = block_type (cb ! fst t ! snd t)"
    by (rule url_attached_type)
  then show "block_type (cb' ! fst t ! snd t) = ''PAGE_IMAGE''"
    using pi 1 2 by (simp add: page_image_at_def)
qed

lemma set_url_attached:
  assumes "u \<noteq> []" and "page_image_at cb (ci, bi)"
  shows "blocks_attached cb (set_url cb ci bi u)"
proof (cases "ci < length cb \<and> bi < length (cb ! ci)")
  case False
  then show ?thesis by (auto simp: set_url_def blocks_attached_refl)
next
  case True
  then have ty: "block_type (cb ! ci ! bi) = ''PAGE_IMAGE''"
    using assms(2) by (simp add: page_image_at_def)
  have b: "url_attached (cb ! ci ! bi) ((cb ! ci ! bi)\<lparr>block_url := Some u\<rparr>)"
    using ty assms(1) by (simp add: url_attached_def)
  have row: "list_all2 url_attached (cb ! ci) ((cb ! ci)[bi := (cb ! ci ! bi)\<lparr>block_url := Some u\<rparr>])"
    using b True by (simp add: list_all2_conv_all_nth nth_list_update url_attached_refl)
  have "list_all2 (list_all2 url_attached) cb
          (cb[ci := (cb ! ci)[bi := (cb ! ci ! bi)\<lparr>block_url := Some u\<rparr>]])"
    unfolding list_all2_conv_all_nth [of _ cb]
  proof (intro conjI allI impI)
    show "length cb = length (cb[ci := (cb ! ci)[bi := (cb ! ci ! bi)\<lparr>block_url := Some u\<rparr>]])"
      by simp
  next
    fix i assume "i < length cb"
    then show "list_all2 url_attached (cb ! i)
        (cb[ci := (cb ! ci)[bi := (cb ! ci ! bi)\<lparr>block_url := Some u\<rparr>]] ! i)"
      using row by (cases "i = ci") (simp_all add: list_all2_refl url_attached_refl)
  qed
  then show ?thesis
    using True by (simp add: set_url_def blocks_attached_def)
qed

lemma apply_images_attached:
  "(\<forall>t \<in> set ts. page_image_at cb t) \<Longrightarrow> blocks_attached cb (fst (apply_images idx ts img cb))"
proof (induction ts arbitrary: idx cb)
  case Nil
  then show ?case by (simp add: blocks_attached_refl)
next
  case (Cons t ts)
  obtain ci bi where t: "t = (ci, bi)" by (cases t)
  have rest: "blocks_attached cb (fst (apply_images (idx + 1) ts img cb))"
    using Cons.IH [of cb "idx + 1"] Cons.prems by simp
  show ?case
  proof (cases "img idx")
    case ImgError
    then show ?thesis using rest t by simp
  next
    case (ImgResult r)
    show ?thesis
    proof (cases r)
      case None
      then show ?thesis using rest t ImgResult by simp
    next
      case (Some u)
      show ?thesis
      proof (cases "u = []")
        case True
        then show ?thesis using rest t ImgResult Some by simp
      next
        case False
        have a: "blocks_attached cb (set_url cb ci bi u)"
          using set_url_attached [OF False] Cons.prems t by simp
        have "\<forall>t \<in> set ts. page_image_at (set_url cb ci bi u) t"
          using Cons.prems page_image_at_attached [OF a] by simp
        from Cons.IH [OF this, of "idx + 1"]
        have "blocks_attached (set_url cb ci bi u)
                (fst (apply_images (idx + 1) ts img (set_url cb ci bi u)))" .
        from blocks_attached_trans [OF a this] show ?thesis
          using t ImgResult Some False by (simp add: split_beta)
      qed
    qed
  qed
qed

lemma image_targets_typed:
  assumes "t \<in> set (image_targets cb)"
  shows "page_image_at cb t"
proof -
  from assms obtain ci blocks bi b where
    1: "(ci, blocks) \<in> set (enumerate 0 cb)" and
    2: "(bi, b) \<in> set (enumerate 0 blocks)" and
    3: "block_type b = ''PAGE_IMAGE''" and 4: "t = (ci, bi)"
    unfolding image_targets_def by auto
  from 1 have "blocks = cb ! ci" by (simp add: in_set_enumerate_eq)
  moreover from 2 have "b = blocks ! bi" by (simp add: in_set_enumerate_eq)
  ultimately show ?thesis using 3 4 by (simp add: page_image_at_def)
qed

lemma image_processing_step_effect:
  "blocks_attached (chunk_blocks d) (chunk_blocks (image_processing_step en img d))"
  "chunk_texts (image_processing_step en img d) = chunk_texts d"
  "pd_job_id (image_processing_step en img d) = pd_job_id d"
  "pd_filename (image_processing_step en img d) = pd_filename d"
  "\<not> en \<Longrightarrow> chunk_blocks (image_processing_step en img d) = chunk_blocks d"
proof -
  have "blocks_attached (chunk_blocks d)
          (fst (apply_images 0 (image_targets (chunk_blocks d)) img (chunk_blocks d)))"
    by (rule apply_images_attached) (simp add: image_targets_typed)
  then show "blocks_attached (chunk_blocks d) (chunk_blocks (image_processing_step en img d))"
    by (simp add: image_processing_step_def blocks_attached_refl split_beta)
qed (simp_all add: image_processing_step_def split_beta)

lemma final_assembly_pages:
  "length (pages (final_assembly_step d)) = length (chunk_texts d)"
  "i < length (chunk_texts d) \<Longrightarrow>
     pages (final_assembly_step d) ! i
     = \<lparr>page_number = i + 1, original_content = chunk_texts d ! i,
        page_blocks = (if i < length (chunk_blocks d) then chunk_blocks d ! i else [])\<rparr>"
  by (simp_all add: final_assembly_step_def nth_enumerate_eq)

lemma backoff_loop_returns:
  "a + n = Suc m \<Longrightarrow> n \<noteq> 0 \<Longrightarrow> fst (backoff_loop n a m f rnd) \<noteq> Exhausted"
proof (induction n arbitrary: a)
  case 0
  then show ?case by simp
next
  case (Suc n)
  show ?case
  proof (cases "f a")
    case (Inr r)
    then show ?thesis by simp
  next
    case (Inl e)
    show ?thesis
    proof (cases "a = m")
      case True
      then show ?thesis using Inl by simp
    next
      case False
      then have "(a + 1) + n = Suc m" and "n \<noteq> 0" using Suc.prems by simp_all
      from Suc.IH [OF this] show ?thesis
        using Inl False by (auto simp: Let_def split: prod.splits)
    qed
  qed
qed

lemma retry_never_exhausted: "fst (exponential_backoff_retry f max_retries rnd) \<noteq> Exhausted"
  unfolding exponential_backoff_retry_def
  by (rule backoff_loop_returns) simp_all


lemma retry_sleeps:
  "length (snd (exponential_backoff_retry f 2 rnd)) \<le> 2"
  by (simp add: exponential_backoff_retry_def numeral_3_eq_3 numeral_2_eq_2 Let_def
      split: sum.splits prod.splits)

lemma gather_none_fails:
  "filter (\<lambda>i. i < length rs \<and> isl (rs ! i)) (finished @ [0..<length rs]) = []
   \<longleftrightarrow> (\<forall>r \<in> set rs. \<not> isl r)"
proof
  assume a: "filter (\<lambda>i. i < length rs \<and> isl (rs ! i)) (finished @ [0..<length rs]) = []"
  show "\<forall>r \<in> set rs. \<not> isl r"
  proof
    fix r assume "r \<in> set rs"
    then obtain i where i: "i < length rs" "rs ! i = r" by (auto simp: in_set_conv_nth)
    then have "i \<in> set (finished @ [0..<length rs])" by simp
    with a have "\<not> (i < length rs \<and> isl (rs ! i))" unfolding filter_empty_conv by blast
    then show "\<not> isl r" using i by simp
  qed
next
  assume "\<forall>r \<in> set rs. \<not> isl r"
  then have "\<And>i. i < length rs \<Longrightarrow> \<not> isl (rs ! i)" by simp
  then show "filter (\<lambda>i. i < length rs \<and> isl (rs ! i)) (finished @ [0..<length rs]) = []"
    unfolding filter_empty_conv by blast
qed

lemma gather_Inr: "gather finished rs = Inr xs \<longleftrightarrow> rs = map Inr xs"
proof -
  have m: "(\<forall>r \<in> set rs. \<not> isl r) \<Longrightarrow> map Inr (map projr rs) = rs"
    by (induction rs) (auto simp: isl_def)
  show ?thesis
  proof (cases "filter (\<lambda>i. i < length rs \<and> isl (rs ! i)) (finished @ [0..<length rs])")
    case Nil
    then have n: "\<forall>r \<in> set rs. \<not> isl r" unfolding gather_none_fails .
    have "gather finished rs = Inr (map projr rs)" using Nil by (simp add: gather_def)
    then show ?thesis using m [OF n] by (auto simp: comp_def)
  next
    case (Cons i later)
    then have "\<not> (\<forall>r \<in> set rs. \<not> isl r)" using gather_none_fails [of rs finished] by simp
    then have "rs \<noteq> map Inr xs" by auto
    moreover have "gather finished rs \<noteq> Inr xs" using Cons by (simp add: gather_def)
    ultimately show ?thesis by simp
  qed
qed



text \<open>
  With two tasks that both raise, \<open>gather\<close> raises the exception of the one that ends
  first.
\<close>

lemma gather_first_in_time:
  "gather [1, 0] [Inl ''a'', Inl ''b''] = (Inl ''b'' :: string + nat list)"
  "gather [0, 1] [Inl ''a'', Inl ''b''] = (Inl ''a'' :: string + nat list)"
  by (simp_all add: gather_def)

lemma transform_loop_Inl:
  "transform_loop i cs chain acc = Inl e \<Longrightarrow> \<exists>k < length cs. chain (i + k) = Inl e"
proof (induction cs arbitrary: i acc)
  case Nil
  then show ?case by simp
next
  case (Cons c cs)
  show ?case
  proof (cases "chain i")
    case (Inl e')
    then show ?thesis using Cons.prems by (auto intro: exI [of _ 0])
  next
    case (Inr bs)
    then have "transform_loop (i + 1) cs chain (acc @ [bs]) = Inl e"
      using Cons.prems by simp
    from Cons.IH [OF this] obtain k where "k < length cs" "chain (i + 1 + k) = Inl e" by auto
    then show ?thesis by (auto intro: exI [of _ "Suc k"])
  qed
qed

lemma transform_step_Inr:
  assumes "\<forall>k < length (chunks d). chain k = Inr (produced k)"
  shows "transform_step chain d
         = Inr (d\<lparr>chunk_texts := chunks d, chunk_blocks := map produced [0..<length (chunks d)],
                 pd_transformed_blocks := concat (map produced [0..<length (chunks d)]),
                 images_generated := False\<rparr>)"
proof -
  have m: "map (\<lambda>k. projr (chain k)) [0..<length (chunks d)] = map produced [0..<length (chunks d)]"
    using assms by simp
  have "transform_loop 0 (chunks d) chain [] = Inr (map produced [0..<length (chunks d)])"
    unfolding transform_loop_Inr using assms m by simp
  then show ?thesis by (simp add: transform_step_def)
qed

lemma transform_step_fails:
  "(\<exists>e. transform_step chain d = Inl e) \<longleftrightarrow> (\<exists>k < length (chunks d). \<exists>e. chain k = Inl e)"
proof
  assume "\<exists>e. transform_step chain d = Inl e"
  then obtain e where "transform_loop 0 (chunks d) chain [] = Inl e"
    by (auto simp: transform_step_def split: sum.splits)
  from transform_loop_Inl [OF this] show "\<exists>k < length (chunks d). \<exists>e. chain k = Inl e"
    by auto
next
  assume f: "\<exists>k < length (chunks d). \<exists>e. chain k = Inl e"
  show "\<exists>e. transform_step chain d = Inl e"
  proof (cases "transform_loop 0 (chunks d) chain []")
    case (Inl e)
    then show ?thesis by (simp add: transform_step_def)
  next
    case (Inr cb)
    then have "\<forall>k < length (chunks d). \<exists>bs. chain k = Inr bs"
      unfolding transform_loop_Inr by simp
    with f show ?thesis by auto
  qed
qed


lemma single_chunk_returns:
  assumes "fst (exponential_backoff_retry f 2 rnd) = Returned bs"
  shows "process_single_chunk_async i f rnd
         = Inr \<lparr>chunk_index = i, chunk_result_blocks = bs, block_count = length bs\<rparr>"
  using assms by (simp add: process_single_chunk_async_def)


lemma transform_content_order:
  assumes "\<forall>i < length content.
             fst (exponential_backoff_retry (calls i) 2 (rnd i)) = Returned (produced i)"
  shows "transform_content_to_blocks content calls rnd finished
         = Inr \<lparr>transformed_blocks = concat (map produced [0..<length content]),
                 result_chunk_blocks = map produced [0..<length content],
                 total_blocks = sum_list (map (\<lambda>i. length (produced i)) [0..<length content]),
                 input_chunks = length content\<rparr>"
proof -
  let ?mk = "\<lambda>i. \<lparr>chunk_index = i, chunk_result_blocks = produced i, block_count = length (produced i)\<rparr>"
  let ?rs = "map (\<lambda>(i, chunk). process_single_chunk_async i (calls i) (rnd i)) (enumerate 0 content)"
  have rs: "?rs = map Inr (map ?mk [0..<length content])"
  proof (rule nth_equalityI)
    show "length ?rs = length (map Inr (map ?mk [0..<length content]))" by simp
  next
    fix i assume "i < length ?rs"
    then have i: "i < length content" by simp
    then have "fst (exponential_backoff_retry (calls i) 2 (rnd i)) = Returned (produced i)"
      using assms by simp
    from single_chunk_returns [OF this] show "?rs ! i = map Inr (map ?mk [0..<length content]) ! i"
      using i by (simp add: nth_enumerate_eq)
  qed
  have g: "gather finished ?rs = Inr (map ?mk [0..<length content])"
    unfolding gather_Inr by (rule rs)
  have "map chunk_index (map ?mk [0..<length content]) = [0..<length content]"
    by (simp add: comp_def)
  then have "sorted (map chunk_index (map ?mk [0..<length content]))"
    by simp
  then have srt: "sort_key chunk_index (map ?mk [0..<length content]) = map ?mk [0..<length content]"
    by (rule sort_key_id_if_sorted)
  show ?thesis
    by (simp add: transform_content_to_blocks_def g srt Let_def comp_def)
qed

lemma main_pipeline_fails:
  assumes "k < length cs" and "chain k = Inl e"
  shows "\<exists>e'. main_pipeline job fname (Inr cs) chain enable_images img = Inl e'"
proof -
  let ?d0 = "\<lparr>pd_job_id = job, pd_filename = fname, chunks = cs, chunk_texts = [],
               chunk_blocks = [], pd_transformed_blocks = [], images_generated = False\<rparr>"
  have "\<exists>k < length (chunks ?d0). \<exists>e. chain k = Inl e"
    using assms by auto
  then obtain e' where "transform_step chain ?d0 = Inl e'"
    using transform_step_fails [of chain ?d0] by blast
  then show ?thesis
    by (simp add: main_pipeline_def preprocess_step_def)
qed

section \<open>Lemmas: the background pipeline\<close>

lemma publish_simps:
  "publish None m b = Inr (b @ [m])"
  "publish (Some e) m b = Inl e"
  by (simp_all add: publish_def)

lemma messages_append:
  "result_messages (b @ c) job = result_messages b job @ result_messages c job"
  "failure_messages (b @ c) job = failure_messages b job @ failure_messages c job"
  "progress_messages (b @ c) job = progress_messages b job @ progress_messages c job"
  by (simp_all add: result_messages_def failure_messages_def progress_messages_def)

lemma messages_single:
  "result_messages [ResultMessage j u] job = (if j = job then [u] else [])"
  "result_messages [ProgressMessage j x] job = []"
  "result_messages [StepProgressMessage j st x] job = []"
  "result_messages [FailureMessage j e] job = []"
  "result_messages [] job = []"
  "failure_messages [FailureMessage j e] job = (if j = job then [e] else [])"
  "failure_messages [ProgressMessage j x] job = []"
  "failure_messages [StepProgressMessage j st x] job = []"
  "failure_messages [ResultMessage j u] job = []"
  "failure_messages [] job = []"
  by (simp_all add: result_messages_def failure_messages_def)

lemma messages_Cons:
  "result_messages (m # b) job
   = (case m of ResultMessage j u \<Rightarrow> (if j = job then [u] else []) | _ \<Rightarrow> [])
     @ result_messages b job"
  "failure_messages (m # b) job
   = (case m of FailureMessage j e \<Rightarrow> (if j = job then [e] else []) | _ \<Rightarrow> [])
     @ failure_messages b job"
  by (simp_all add: result_messages_def failure_messages_def)

lemma messages_steps:
  "result_messages (map (\<lambda>(step, x). StepProgressMessage j step x) ms) job = []"
  "failure_messages (map (\<lambda>(step, x). StepProgressMessage j step x) ms) job = []"
  by (induction ms) (auto simp: result_messages_def failure_messages_def)

lemma set_job_status_obs:
  "statuses_set (set_job_status p j s a b) job = statuses_set p job @ (if j = job then [s] else [])"
  "current_status (set_job_status p j s a b) job = (if j = job then Some s else current_status p job)"
  "bus (set_job_status p j s a b) = bus p"
  "prd_active_jobs (set_job_status p j s a b) = prd_active_jobs p"
  "callback_posts (set_job_status p j s a b) = callback_posts p"
  "background_tasks (set_job_status p j s a b) = background_tasks p"
  by (simp_all add: set_job_status_def statuses_set_def current_status_def Let_def)

lemma bus_update_obs:
  "statuses_set (p\<lparr>bus := b\<rparr>) job = statuses_set p job"
  "current_status (p\<lparr>bus := b\<rparr>) job = current_status p job"
  "statuses_set (p\<lparr>prd_active_jobs := a\<rparr>) job = statuses_set p job"
  "current_status (p\<lparr>prd_active_jobs := a\<rparr>) job = current_status p job"
  "statuses_set (p\<lparr>callback_posts := c\<rparr>) job = statuses_set p job"
  "current_status (p\<lparr>callback_posts := c\<rparr>) job = current_status p job"
  by (simp_all add: statuses_set_def current_status_def)

lemmas prd_obs = publish_simps messages_append messages_Cons messages_single messages_steps
  set_job_status_obs bus_update_obs

lemma except_obs:
  "statuses_set (pipeline_except job env e p) job = statuses_set p job @ [''FAILED'']"
  "current_status (pipeline_except job env e p) job = Some ''FAILED''"
  "bus (pipeline_except job env e p)
   = bus p @ (if failure_raises env = None then [FailureMessage job (error_message_of e)] else [])"
  "prd_active_jobs (pipeline_except job env e p) = prd_active_jobs p"
  "callback_posts (pipeline_except job env e p) = callback_posts p"
  by (cases "failure_raises env"; simp add: pipeline_except_def Let_def prd_obs)+

lemma start_obs:
  "statuses_set (fst (pipeline_start job env p)) job = statuses_set p job @ [''PROCESSING'']"
  "current_status (fst (pipeline_start job env p)) job = Some ''PROCESSING''"
  "bus (fst (pipeline_start job env p))
   = bus p @ (if progress_raises env = None then [ProgressMessage job 0] else [])"
  "snd (pipeline_start job env p) = progress_raises env"
  "prd_active_jobs (fst (pipeline_start job env p)) = prd_active_jobs p"
  "callback_posts (fst (pipeline_start job env p)) = callback_posts p"
  "background_tasks (fst (pipeline_start job env p)) = background_tasks p"
  by (cases "progress_raises env"; simp add: pipeline_start_def Let_def prd_obs)+

lemma rest_pipeline_fails:
  assumes "pipeline_out env = Inl e"
  shows "pipeline_rest job fname env p
         = (p\<lparr>bus := bus p @ map (\<lambda>(step, x). StepProgressMessage job step x) (pipeline_messages env)\<rparr>,
            Some e)"
  using assms by (simp add: pipeline_rest_def Let_def)

lemma rest_85_fails:
  assumes "pipeline_out env = Inr fr" "storage85_raises env = Some e"
  shows "pipeline_rest job fname env p
         = (p\<lparr>bus := bus p @ map (\<lambda>(step, x). StepProgressMessage job step x) (pipeline_messages env)\<rparr>,
            Some e)"
  using assms by (simp add: pipeline_rest_def Let_def publish_simps)

lemma rest_upload_fails:
  assumes "pipeline_out env = Inr fr" "storage85_raises env = None"
    "upload_result_to_s3 (s3 env) job = Inl e"
  shows "pipeline_rest job fname env p
         = (p\<lparr>bus := bus p @ map (\<lambda>(step, x). StepProgressMessage job step x) (pipeline_messages env)
                    @ [StepProgressMessage job ''STORAGE'' 85]\<rparr>,
            Some e)"
  using assms by (simp add: pipeline_rest_def Let_def publish_simps)

lemma rest_95_fails:
  assumes "pipeline_out env = Inr fr" "storage85_raises env = None"
    "upload_result_to_s3 (s3 env) job = Inr u" "storage95_raises env = Some e"
  shows "pipeline_rest job fname env p
         = (p\<lparr>bus := bus p @ map (\<lambda>(step, x). StepProgressMessage job step x) (pipeline_messages env)
                    @ [StepProgressMessage job ''STORAGE'' 85]\<rparr>,
            Some e)"
  using assms by (simp add: pipeline_rest_def Let_def publish_simps)

lemma rest_result_fails:
  assumes "pipeline_out env = Inr fr" "storage85_raises env = None"
    "upload_result_to_s3 (s3 env) job = Inr u" "storage95_raises env = None"
    "result_raises env = Some e"
  shows "pipeline_rest job fname env p
         = (set_job_status
              (p\<lparr>bus := bus p @ map (\<lambda>(step, x). StepProgressMessage job step x) (pipeline_messages env)
                    @ [StepProgressMessage job ''STORAGE'' 85, StepProgressMessage job ''STORAGE'' 95]\<rparr>)
              job ''COMPLETED'' (Some 100) None,
            Some e)"
  using assms by (simp add: pipeline_rest_def Let_def publish_simps set_job_status_obs)

lemma rest_completes:
  assumes "pipeline_out env = Inr fr" "storage85_raises env = None"
    "upload_result_to_s3 (s3 env) job = Inr u" "storage95_raises env = None"
    "result_raises env = None"
  shows "pipeline_rest job fname env p
         = ((set_job_status
              (p\<lparr>bus := bus p @ map (\<lambda>(step, x). StepProgressMessage job step x) (pipeline_messages env)
                    @ [StepProgressMessage job ''STORAGE'' 85, StepProgressMessage job ''STORAGE'' 95]\<rparr>)
              job ''COMPLETED'' (Some 100) None)
              \<lparr>bus := bus p @ map (\<lambda>(step, x). StepProgressMessage job step x) (pipeline_messages env)
                    @ [StepProgressMessage job ''STORAGE'' 85, StepProgressMessage job ''STORAGE'' 95,
                       ResultMessage job u],
               callback_posts := callback_posts p
                    @ replicate (snd (send_document_complete (callback_url env) (callback_responses env))) job\<rparr>,
            None)"
  using assms by (simp add: pipeline_rest_def Let_def publish_simps set_job_status_obs split_beta)

lemma start_eq:
  "pipeline_start job env p
   = (case progress_raises env of
        Some e \<Rightarrow> (set_job_status p job ''PROCESSING'' (Some 0) None, Some e)
      | None \<Rightarrow> ((set_job_status p job ''PROCESSING'' (Some 0) None)
                    \<lparr>bus := bus p @ [ProgressMessage job 0]\<rparr>, None))"
  by (cases "progress_raises env") (simp_all add: pipeline_start_def Let_def prd_obs)

lemma finally_obs:
  "statuses_set (pipeline_finally job p) j = statuses_set p j"
  "current_status (pipeline_finally job p) j = current_status p j"
  "bus (pipeline_finally job p) = bus p"
  "prd_active_jobs (pipeline_finally job p) = prd_active_jobs p - {job}"
  "callback_posts (pipeline_finally job p) = callback_posts p"
  by (simp_all add: pipeline_finally_def prd_obs)

lemma raised_None:
  "raised_in_try env job = None \<longleftrightarrow> reaches_completed env job \<and> result_raises env = None"
  by (auto simp: raised_in_try_def reaches_completed_def split: option.splits sum.splits)

text \<open>The two ways a run ends.\<close>

lemma run_cases:
  "(\<exists>e p'. process_pdf_pipeline job fname env p = pipeline_finally job (pipeline_except job env e p')
        \<and> raised_in_try env job = Some e
        \<and> \<not> (reaches_completed env job \<and> result_raises env = None)
        \<and> statuses_set p' job
            = statuses_set p job @ [''PROCESSING'']
              @ (if reaches_completed env job then [''COMPLETED''] else [])
        \<and> result_messages (bus p') job = result_messages (bus p) job
        \<and> failure_messages (bus p') job = failure_messages (bus p) job
        \<and> callback_posts p' = callback_posts p
        \<and> prd_active_jobs p' = prd_active_jobs p)
   \<or> (\<exists>u p'. process_pdf_pipeline job fname env p = pipeline_finally job p'
        \<and> reaches_completed env job \<and> result_raises env = None
        \<and> upload_result_to_s3 (s3 env) job = Inr u
        \<and> statuses_set p' job = statuses_set p job @ [''PROCESSING'', ''COMPLETED'']
        \<and> current_status p' job = Some ''COMPLETED''
        \<and> result_messages (bus p') job = result_messages (bus p) job @ [u]
        \<and> failure_messages (bus p') job = failure_messages (bus p) job
        \<and> callback_posts p' = callback_posts p
             @ replicate (snd (send_document_complete (callback_url env) (callback_responses env))) job
        \<and> prd_active_jobs p' = prd_active_jobs p)"
proof (cases "progress_raises env")
  case (Some e)
  then show ?thesis
    by (intro disjI1 exI [of _ e] exI [of _ "set_job_status p job ''PROCESSING'' (Some 0) None"])
       (simp add: process_pdf_pipeline_def start_eq reaches_completed_def raised_in_try_def prd_obs)
next
  case npr: None
  define p1 where "p1 = (set_job_status p job ''PROCESSING'' (Some 0) None)
                    \<lparr>bus := bus p @ [ProgressMessage job 0]\<rparr>"
  have st: "pipeline_start job env p = (p1, None)"
    using npr by (simp add: start_eq p1_def)
  have run: "process_pdf_pipeline job fname env p
             = (case pipeline_rest job fname env p1 of
                  (p2, Some e) \<Rightarrow> pipeline_finally job (pipeline_except job env e p2)
                | (p2, None) \<Rightarrow> pipeline_finally job p2)"
    by (simp add: process_pdf_pipeline_def st)
  have o1: "statuses_set p1 job = statuses_set p job @ [''PROCESSING'']"
    "result_messages (bus p1) job = result_messages (bus p) job"
    "failure_messages (bus p1) job = failure_messages (bus p) job"
    "callback_posts p1 = callback_posts p" "prd_active_jobs p1 = prd_active_jobs p"
    by (simp_all add: p1_def prd_obs)
  show ?thesis
  proof (cases "pipeline_out env")
    case (Inl e)
    show ?thesis
      by (rule disjI1, rule exI [of _ e], rule exI, rule conjI,
          simp only: run rest_pipeline_fails [OF Inl] prod.case option.case)
         (simp add: reaches_completed_def raised_in_try_def npr Inl o1 prd_obs)
  next
    case (Inr fr)
    show ?thesis
    proof (cases "storage85_raises env")
      case (Some e)
      show ?thesis
        by (rule disjI1, rule exI [of _ e], rule exI, rule conjI,
            simp only: run rest_85_fails [OF Inr Some] prod.case option.case)
           (simp add: reaches_completed_def raised_in_try_def npr Inr Some o1 prd_obs)
    next
      case n85: None
      show ?thesis
      proof (cases "upload_result_to_s3 (s3 env) job")
        case (Inl e)
        show ?thesis
          by (rule disjI1, rule exI [of _ e], rule exI, rule conjI,
              simp only: run rest_upload_fails [OF Inr n85 Inl] prod.case option.case)
             (simp add: reaches_completed_def raised_in_try_def npr Inr n85 Inl o1 prd_obs)
      next
        case up: (Inr u)
        show ?thesis
        proof (cases "storage95_raises env")
          case (Some e)
          show ?thesis
            by (rule disjI1, rule exI [of _ e], rule exI, rule conjI,
                simp only: run rest_95_fails [OF Inr n85 up Some] prod.case option.case)
               (simp add: reaches_completed_def raised_in_try_def npr Inr n85 up Some o1 prd_obs)
        next
          case n95: None
          have rc: "reaches_completed env job"
            using npr Inr n85 up n95
            by (simp add: reaches_completed_def)
          show ?thesis
          proof (cases "result_raises env")
            case (Some e)
            show ?thesis
              by (rule disjI1, rule exI [of _ e], rule exI, rule conjI,
                  simp only: run rest_result_fails [OF Inr n85 up n95 Some] prod.case option.case)
                 (simp add: rc raised_in_try_def npr Inr n85 up n95 Some o1 prd_obs)
          next
            case nres: None
            show ?thesis
              by (rule disjI2, rule exI [of _ u], rule exI, rule conjI,
                  simp only: run rest_completes [OF Inr n85 up n95 nres] prod.case option.case)
                 (simp add: rc nres up o1 prd_obs)
          qed
        qed
      qed
    qed
  qed
qed

lemma sample_upload: "upload_result_to_s3 sample_s3 ''J1'' = Inr sample_url"
  by (simp add: upload_result_to_s3_def build_access_url_def domain_url_def generate_s3_key_def
      is_access_point_def is_mrap_alias_def sample_s3_def sample_url_def Let_def)

lemma sample_admission:
  "process_pdf_async p sample_request
   = (if is_job_active p ''J1'' then
        (HTTPException 409 ''Job J1 is already processing'', p)
      else (Accepted ''J1'' ''PROCESSING'',
            p\<lparr>background_tasks := background_tasks p @ [(''J1'', ''a.pdf'')]\<rparr>))"
  by (simp add: process_pdf_async_def sample_request_def endswith_def py_lower_def lower_char_def
      py_strip_def py_isspace_def Let_def)

text \<open>What one run of \<open>process_pdf_pipeline\<close> leaves for its job.\<close>

lemma run_summary:
  "statuses_set (process_pdf_pipeline job fname env p) job
   = statuses_set p job @ [''PROCESSING'']
     @ (if reaches_completed env job then
          [''COMPLETED''] @ (if result_raises env = None then [] else [''FAILED''])
        else [''FAILED''])"
  "current_status (process_pdf_pipeline job fname env p) job
   = Some (if reaches_completed env job \<and> result_raises env = None then ''COMPLETED''
           else ''FAILED'')"
  "result_messages (bus (process_pdf_pipeline job fname env p)) job
   = result_messages (bus p) job
     @ (if reaches_completed env job \<and> result_raises env = None
        then [projr (upload_result_to_s3 (s3 env) job)] else [])"
  "length (failure_messages (bus (process_pdf_pipeline job fname env p)) job)
   = length (failure_messages (bus p) job)
     + (if (reaches_completed env job \<and> result_raises env = None) \<or> failure_raises env \<noteq> None
        then 0 else 1)"
  "prd_active_jobs (process_pdf_pipeline job fname env p) = prd_active_jobs p - {job}"
  "callback_posts (process_pdf_pipeline job fname env p)
   = callback_posts p
     @ (if reaches_completed env job \<and> result_raises env = None
        then replicate (snd (send_document_complete (callback_url env) (callback_responses env))) job
        else [])"
  "failure_messages (bus (process_pdf_pipeline job fname env p)) job
   = failure_messages (bus p) job
     @ (case raised_in_try env job of
          Some e \<Rightarrow> (if failure_raises env = None then [error_message_of e] else [])
        | None \<Rightarrow> [])"
proof -
  consider
    (failed) e p' where
      "process_pdf_pipeline job fname env p = pipeline_finally job (pipeline_except job env e p')"
      "raised_in_try env job = Some e"
      "\<not> (reaches_completed env job \<and> result_raises env = None)"
      "statuses_set p' job
         = statuses_set p job @ [''PROCESSING'']
           @ (if reaches_completed env job then [''COMPLETED''] else [])"
      "result_messages (bus p') job = result_messages (bus p) job"
      "failure_messages (bus p') job = failure_messages (bus p) job"
      "callback_posts p' = callback_posts p"
      "prd_active_jobs p' = prd_active_jobs p"
  | (completed) u p' where
      "process_pdf_pipeline job fname env p = pipeline_finally job p'"
      "reaches_completed env job" "result_raises env = None"
      "upload_result_to_s3 (s3 env) job = Inr u"
      "statuses_set p' job = statuses_set p job @ [''PROCESSING'', ''COMPLETED'']"
      "current_status p' job = Some ''COMPLETED''"
      "result_messages (bus p') job = result_messages (bus p) job @ [u]"
      "failure_messages (bus p') job = failure_messages (bus p) job"
      "callback_posts p' = callback_posts p
         @ replicate (snd (send_document_complete (callback_url env) (callback_responses env))) job"
      "prd_active_jobs p' = prd_active_jobs p"
      "raised_in_try env job = None"
    using run_cases [of job fname env p] raised_None [of env job] by blast
  then have all:
    "statuses_set (process_pdf_pipeline job fname env p) job
     = statuses_set p job @ [''PROCESSING'']
       @ (if reaches_completed env job then
            [''COMPLETED''] @ (if result_raises env = None then [] else [''FAILED''])
          else [''FAILED''])
     \<and> current_status (process_pdf_pipeline job fname env p) job
       = Some (if reaches_completed env job \<and> result_raises env = None then ''COMPLETED''
               else ''FAILED'')
     \<and> result_messages (bus (process_pdf_pipeline job fname env p)) job
       = result_messages (bus p) job
         @ (if reaches_completed env job \<and> result_raises env = None
            then [projr (upload_result_to_s3 (s3 env) job)] else [])
     \<and> length (failure_messages (bus (process_pdf_pipeline job fname env p)) job)
       = length (failure_messages (bus p) job)
         + (if (reaches_completed env job \<and> result_raises env = None) \<or> failure_raises env \<noteq> None
            then 0 else 1)
     \<and> prd_active_jobs (process_pdf_pipeline job fname env p) = prd_active_jobs p - {job}
     \<and> callback_posts (process_pdf_pipeline job fname env p)
       = callback_posts p
         @ (if reaches_completed env job \<and> result_raises env = None
            then replicate (snd (send_document_complete (callback_url env) (callback_responses env))) job
            else [])
     \<and> failure_messages (bus (process_pdf_pipeline job fname env p)) job
       = failure_messages (bus p) job
         @ (case raised_in_try env job of
              Some e \<Rightarrow> (if failure_raises env = None then [error_message_of e] else [])
            | None \<Rightarrow> [])"
  proof cases
    case failed
    then show ?thesis
      by (cases "reaches_completed env job"; cases "failure_raises env";
          simp add: finally_obs except_obs prd_obs)
  next
    case completed
    then show ?thesis by (simp add: finally_obs)
  qed
  show "statuses_set (process_pdf_pipeline job fname env p) job
   = statuses_set p job @ [''PROCESSING'']
     @ (if reaches_completed env job then
          [''COMPLETED''] @ (if result_raises env = None then [] else [''FAILED''])
        else [''FAILED''])"
    using all by blast
  show "current_status (process_pdf_pipeline job fname env p) job
   = Some (if reaches_completed env job \<and> result_raises env = None then ''COMPLETED''
           else ''FAILED'')"
    using all by blast
  show "result_messages (bus (process_pdf_pipeline job fname env p)) job
   = result_messages (bus p) job
     @ (if reaches_completed env job \<and> result_raises env = None
        then [projr (upload_result_to_s3 (s3 env) job)] else [])"
    using all by blast
  show "length (failure_messages (bus (process_pdf_pipeline job fname env p)) job)
   = length (failure_messages (bus p) job)
     + (if (reaches_completed env job \<and> result_raises env = None) \<or> failure_raises env \<noteq> None
        then 0 else 1)"
    using all by blast
  show "prd_active_jobs (process_pdf_pipeline job fname env p) = prd_active_jobs p - {job}"
    using all by blast
  show "callback_posts (process_pdf_pipeline job fname env p)
   = callback_posts p
     @ (if reaches_completed env job \<and> result_raises env = None
        then replicate (snd (send_document_complete (callback_url env) (callback_responses env))) job
        else [])"
    using all by blast
  show "failure_messages (bus (process_pdf_pipeline job fname env p)) job
   = failure_messages (bus p) job
     @ (case raised_in_try env job of
          Some e \<Rightarrow> (if failure_raises env = None then [error_message_of e] else [])
        | None \<Rightarrow> [])"
    using all by blast
qed



lemma admission_active:
  "prd_active_jobs (snd (process_pdf_async p req)) = prd_active_jobs p"
  by (simp add: process_pdf_async_def split: option.splits sum.splits)

lemma never_conflict:
  "prd_active_jobs p = {} \<Longrightarrow> fst (process_pdf_async p req) \<noteq> HTTPException 409 d"
  by (simp add: process_pdf_async_def is_job_active_def split: option.splits sum.splits)

lemma domain_url_nonempty: "domain_url e k \<noteq> []"
  by (simp add: domain_url_def)

lemma upload_url:
  assumes "upload_result_to_s3 e job = Inr u"
  shows "if returns_presigned e then presigned_url e = Some u else u \<noteq> []"
  using assms
  by (auto simp: upload_result_to_s3_def build_access_url_def returns_presigned_def Let_def
      domain_url_nonempty split: option.splits if_splits)

lemma reaches_upload:
  "reaches_completed env job \<Longrightarrow> \<exists>u. upload_result_to_s3 (s3 env) job = Inr u"
  by (cases "upload_result_to_s3 (s3 env) job") (auto simp: reaches_completed_def)

text \<open>What one run adds for its job.\<close>

lemma by_run:
  "statuses_by_run job fname env p
   = [''PROCESSING'']
     @ (if reaches_completed env job then
          [''COMPLETED''] @ (if result_raises env = None then [] else [''FAILED''])
        else [''FAILED''])"
  "published_results job fname env p
   = (if reaches_completed env job \<and> result_raises env = None
      then [projr (upload_result_to_s3 (s3 env) job)] else [])"
  "published_failures job fname env p
   = (case raised_in_try env job of
        Some e \<Rightarrow> (if failure_raises env = None then [error_message_of e] else [])
      | None \<Rightarrow> [])"
  unfolding statuses_by_run_def published_results_def published_failures_def run_summary
  by simp_all

lemma sample_reaches: "reaches_completed (sample_env\<lparr>result_raises := r\<rparr>) ''J1''"
  by (simp add: reaches_completed_def sample_env_def sample_upload)

section \<open>Claims on progress\_service.py\<close>

text \<open>
  C10, as stated, fails: the claim is that \<open>overall\<close> always equals the weighted average
  \<open>0.20 * preprocessing + ...\<close>. After \<open>update_progress('preprocessing', 7.0)\<close> on a new
  tracker the field holds 7 and \<open>overall\<close> is the double 1.4000000000000001
  (\<open>6305039478318695 / 2 ^ 52\<close>), which is not \<open>0.20 * 7\<close>.
\<close>

theorem overall_seven_not_exact:
  "overall (progress (update_progress ProgressTracker_init ''preprocessing'' (Fin 7)))
     = 6305039478318695 / 2 ^ 52
   \<and> preprocessing (progress (update_progress ProgressTracker_init ''preprocessing'' (Fin 7))) = 7
   \<and> overall (progress (update_progress ProgressTracker_init ''preprocessing'' (Fin 7)))
     \<noteq> 0.20 * 7 + 0.40 * 0 + 0.15 * 0 + 0.15 * 0 + 0.10 * 0"
proof -
  have o: "overall (progress (update_progress ProgressTracker_init ''preprocessing'' (Fin 7)))
     = 6305039478318695 / 2 ^ 52"
    by (simp add: update_progress_def save_progress_def calculate_overall_progress_def
        ProgressTracker_init_def ProgressData_init_def clamped_values weighted_average_def
        fmul_zero seven_fifths)
  have p: "preprocessing (progress (update_progress ProgressTracker_init ''preprocessing'' (Fin 7))) = 7"
    by (simp add: update_progress_def save_progress_def calculate_overall_progress_def
        clamped_values)
  show ?thesis unfolding o p by simp
qed

text \<open>
  C10, amended. After every sequence of \<open>update_progress\<close> calls on a new tracker,
  whatever the step names and whatever the floats (finite, infinite or NaN), each per-step
  value lies in \<open>[0, 100]\<close>; \<open>overall\<close> is the weighted sum with the weights 0.20, 0.40,
  0.15, 0.15 and 0.10 as the code computes it, in double precision from left to right; it
  lies in \<open>[0, 100]\<close> and differs from the exact weighted average by at most
  \<open>10 ^ (- 12)\<close>, without always being equal to it. The value a call stores is the
  clamped argument: \<open>max 0 (min 100 r)\<close> for a finite \<open>r\<close>, 100 for \<open>+inf\<close> and for NaN
  (\<open>min(100.0, nan)\<close> keeps 100.0), 0 for \<open>-inf\<close>.
\<close>

theorem tracker_clamped_overall_rounded:
  "(let d = progress (update_all ProgressTracker_init calls) in
      0 \<le> preprocessing d \<and> preprocessing d \<le> 100
      \<and> 0 \<le> block_transformation d \<and> block_transformation d \<le> 100
      \<and> 0 \<le> phoneme_analysis d \<and> phoneme_analysis d \<le> 100
      \<and> 0 \<le> block_word_phoneme_analysis d \<and> block_word_phoneme_analysis d \<le> 100
      \<and> 0 \<le> post_processing d \<and> post_processing d \<le> 100
      \<and> overall d = weighted_average d
      \<and> 0 \<le> overall d \<and> overall d \<le> 100
      \<and> \<bar>overall d - (0.20 * preprocessing d + 0.40 * block_transformation d
                        + 0.15 * phoneme_analysis d + 0.15 * block_word_phoneme_analysis d
                        + 0.10 * post_processing d)\<bar> \<le> 1 / 10 ^ 12)
   \<and> preprocessing (progress (update_progress t ''preprocessing'' x)) = clamped x
   \<and> block_transformation (progress (update_progress t ''block_transformation'' x)) = clamped x
   \<and> phoneme_analysis (progress (update_progress t ''phoneme_analysis'' x)) = clamped x
   \<and> block_word_phoneme_analysis (progress (update_progress t ''block_word_phoneme_analysis'' x)) = clamped x
   \<and> post_processing (progress (update_progress t ''post_processing'' x)) = clamped x
   \<and> 0 \<le> clamped x \<and> clamped x \<le> 100
   \<and> clamped (Fin r) = max 0 (min 100 r)
   \<and> clamped NaN = 100 \<and> clamped PosInf = 100 \<and> clamped NegInf = 0"
proof -
  have ok: "tracker_ok (update_all ProgressTracker_init calls)"
    by (rule update_all_ok) (rule tracker_init_ok)
  define d where "d = progress (update_all ProgressTracker_init calls)"
  have r: "0 \<le> preprocessing d" "preprocessing d \<le> 100"
    "0 \<le> block_transformation d" "block_transformation d \<le> 100"
    "0 \<le> phoneme_analysis d" "phoneme_analysis d \<le> 100"
    "0 \<le> block_word_phoneme_analysis d" "block_word_phoneme_analysis d \<le> 100"
    "0 \<le> post_processing d" "post_processing d \<le> 100"
    "overall d = weighted_average d" "0 \<le> overall d" "overall d \<le> 100"
    using ok by (simp_all add: tracker_ok_def in_range_def d_def)
  have "\<bar>overall d - exact_weighted_average d\<bar> \<le> 1 / 10 ^ 12"
    using ok unfolding tracker_ok_def d_def by blast
  then have e: "\<bar>overall d - (0.20 * preprocessing d + 0.40 * block_transformation d
                        + 0.15 * phoneme_analysis d + 0.15 * block_word_phoneme_analysis d
                        + 0.10 * post_processing d)\<bar> \<le> 1 / 10 ^ 12"
    unfolding exact_weighted_average_def .
  have 1: "(let d = progress (update_all ProgressTracker_init calls) in
      0 \<le> preprocessing d \<and> preprocessing d \<le> 100
      \<and> 0 \<le> block_transformation d \<and> block_transformation d \<le> 100
      \<and> 0 \<le> phoneme_analysis d \<and> phoneme_analysis d \<le> 100
      \<and> 0 \<le> block_word_phoneme_analysis d \<and> block_word_phoneme_analysis d \<le> 100
      \<and> 0 \<le> post_processing d \<and> post_processing d \<le> 100
      \<and> overall d = weighted_average d
      \<and> 0 \<le> overall d \<and> overall d \<le> 100
      \<and> \<bar>overall d - (0.20 * preprocessing d + 0.40 * block_transformation d
                        + 0.15 * phoneme_analysis d + 0.15 * block_word_phoneme_analysis d
                        + 0.10 * post_processing d)\<bar> \<le> 1 / 10 ^ 12)"
    unfolding Let_def d_def [symmetric] using r e by blast
  have 2: "preprocessing (progress (update_progress t ''preprocessing'' x)) = clamped x"
    "block_transformation (progress (update_progress t ''block_transformation'' x)) = clamped x"
    "phoneme_analysis (progress (update_progress t ''phoneme_analysis'' x)) = clamped x"
    "block_word_phoneme_analysis (progress (update_progress t ''block_word_phoneme_analysis'' x)) = clamped x"
    "post_processing (progress (update_progress t ''post_processing'' x)) = clamped x"
    by (simp_all add: update_progress_def save_progress_def calculate_overall_progress_def Let_def)
  have 3: "0 \<le> clamped x \<and> clamped x \<le> 100"
    using clamped_in_range [of x] by (simp add: in_range_def)
  show ?thesis using 1 2 3 clamped_values by simp
qed

theorem tracker_clamped_overall_rounded_witness:
  "preprocessing (progress (update_all ProgressTracker_init [(''preprocessing'', Fin 250)])) = 100
   \<and> 0 \<le> overall (progress (update_all ProgressTracker_init [(''preprocessing'', Fin 250)]))
   \<and> overall (progress (update_all ProgressTracker_init [(''preprocessing'', Fin 250)])) \<le> 100
   \<and> \<bar>overall (progress (update_all ProgressTracker_init [(''preprocessing'', Fin 250)])) - 20\<bar>
       \<le> 1 / 10 ^ 12
   \<and> clamped (Fin 250) = 100"
proof -
  have p: "preprocessing (progress (update_all ProgressTracker_init [(''preprocessing'', Fin 250)])) = 100"
    "block_transformation (progress (update_all ProgressTracker_init [(''preprocessing'', Fin 250)])) = 0"
    "phoneme_analysis (progress (update_all ProgressTracker_init [(''preprocessing'', Fin 250)])) = 0"
    "block_word_phoneme_analysis (progress (update_all ProgressTracker_init [(''preprocessing'', Fin 250)])) = 0"
    "post_processing (progress (update_all ProgressTracker_init [(''preprocessing'', Fin 250)])) = 0"
    by (simp_all add: update_all_def update_progress_def save_progress_def
        calculate_overall_progress_def ProgressTracker_init_def ProgressData_init_def
        clamped_values)
  define d where "d = progress (update_all ProgressTracker_init [(''preprocessing'', Fin 250)])"
  from tracker_clamped_overall_rounded [of "[(''preprocessing'', Fin 250)]" ProgressTracker_init
      "Fin 250" 250]
  have "0 \<le> overall d \<and> overall d \<le> 100
        \<and> \<bar>overall d - (0.20 * preprocessing d + 0.40 * block_transformation d
                        + 0.15 * phoneme_analysis d + 0.15 * block_word_phoneme_analysis d
                        + 0.10 * post_processing d)\<bar> \<le> 1 / 10 ^ 12
        \<and> clamped (Fin 250) = max 0 (min 100 250)"
    unfolding Let_def d_def by blast
  then show ?thesis using p unfolding d_def by simp
qed

section \<open>Claims on the main pipeline\<close>

text \<open>
  C9. For every sequence of input chunks whose calls of the chain return (\<open>produced i\<close>
  being the blocks parsed from the response for chunk \<open>i\<close>), the pipeline returns a
  document with one page per chunk, in the order of the chunks: page \<open>i\<close> (counted from 0)
  has \<open>page_number = i + 1\<close>, the text of chunk \<open>i\<close> as \<open>original_content\<close> and the
  blocks produced from chunk \<open>i\<close>, to which the image step has at most attached a url on
  \<open>PAGE_IMAGE\<close> blocks (nothing at all when images are disabled).
\<close>

theorem pages_follow_chunks:
  assumes ok: "\<forall>k < length cs. chain k = Inr (produced k)"
  shows "\<exists>doc. main_pipeline job fname (Inr cs) chain enable_images img = Inr doc
           \<and> length (pages doc) = length cs
           \<and> (\<forall>i < length cs.
                 page_number (pages doc ! i) = i + 1
                 \<and> original_content (pages doc ! i) = cs ! i
                 \<and> list_all2 url_attached (produced i) (page_blocks (pages doc ! i))
                 \<and> (enable_images \<or> page_blocks (pages doc ! i) = produced i))"
proof -
  define d0 where "d0 = \<lparr>pd_job_id = job, pd_filename = fname, chunks = cs, chunk_texts = [],
               chunk_blocks = [], pd_transformed_blocks = [], images_generated = False\<rparr>"
  define d1 where "d1 = d0\<lparr>chunk_texts := chunks d0,
               chunk_blocks := map produced [0..<length (chunks d0)],
               pd_transformed_blocks := concat (map produced [0..<length (chunks d0)]),
               images_generated := False\<rparr>"
  define d2 where "d2 = image_processing_step enable_images img d1"
  define doc where "doc = final_assembly_step d2"
  have c0: "chunks d0 = cs" by (simp add: d0_def)
  have t: "transform_step chain d0 = Inr d1"
    unfolding d1_def by (rule transform_step_Inr) (simp add: c0 ok)
  have run: "main_pipeline job fname (Inr cs) chain enable_images img = Inr doc"
    by (simp add: main_pipeline_def preprocess_step_def t d0_def [symmetric] d2_def doc_def)
  have t1: "chunk_texts d1 = cs" and b1: "chunk_blocks d1 = map produced [0..<length cs]"
    by (simp_all add: d1_def c0)
  have texts: "chunk_texts d2 = cs"
    by (simp add: d2_def image_processing_step_effect t1)
  have att: "blocks_attached (map produced [0..<length cs]) (chunk_blocks d2)"
    using image_processing_step_effect(1) [of d1 enable_images img] by (simp add: d2_def b1)
  have len: "length (chunk_blocks d2) = length cs"
    using blocks_attached_nth(1) [OF att] by simp
  have same: "\<not> enable_images \<Longrightarrow> chunk_blocks d2 = map produced [0..<length cs]"
    by (simp add: d2_def image_processing_step_effect b1)
  have ln: "length (pages doc) = length cs"
    using final_assembly_pages(1) [of d2] texts by (simp add: doc_def)
  have pg: "\<forall>i < length cs.
      page_number (pages doc ! i) = i + 1
      \<and> original_content (pages doc ! i) = cs ! i
      \<and> list_all2 url_attached (produced i) (page_blocks (pages doc ! i))
      \<and> (enable_images \<or> page_blocks (pages doc ! i) = produced i)"
  proof (intro allI impI)
    fix i assume i: "i < length cs"
    have p: "pages doc ! i
             = \<lparr>page_number = i + 1, original_content = cs ! i, page_blocks = chunk_blocks d2 ! i\<rparr>"
      using final_assembly_pages(2) [of i d2] i texts len by (simp add: doc_def)
    have "list_all2 url_attached (map produced [0..<length cs] ! i) (chunk_blocks d2 ! i)"
      using att i unfolding blocks_attached_def by (simp add: list_all2_conv_all_nth)
    then have a: "list_all2 url_attached (produced i) (chunk_blocks d2 ! i)"
      using i by simp
    have s: "enable_images \<or> chunk_blocks d2 ! i = produced i"
      using same i by (cases enable_images) simp_all
    show "page_number (pages doc ! i) = i + 1
      \<and> original_content (pages doc ! i) = cs ! i
      \<and> list_all2 url_attached (produced i) (page_blocks (pages doc ! i))
      \<and> (enable_images \<or> page_blocks (pages doc ! i) = produced i)"
      using a s by (simp add: p)
  qed
  show ?thesis using run ln pg by blast
qed

theorem pages_follow_chunks_witness:
  "\<exists>doc. main_pipeline ''J1'' ''a.pdf'' (Inr [''first chunk'', ''second chunk''])
            (\<lambda>k. Inr (if k = 0 then [\<lparr>block_type = ''TEXT'', block_url = None, block_body = ''t''\<rparr>]
                         else [\<lparr>block_type = ''PAGE_IMAGE'', block_url = None, block_body = ''i''\<rparr>]))
            True (\<lambda>k. ImgResult (Some ''https://img/1.jpg'')) = Inr doc
         \<and> length (pages doc) = 2
         \<and> page_number (pages doc ! 1) = 2
         \<and> original_content (pages doc ! 1) = ''second chunk''
         \<and> list_all2 url_attached
              [\<lparr>block_type = ''PAGE_IMAGE'', block_url = None, block_body = ''i''\<rparr>]
              (page_blocks (pages doc ! 1))"
proof -
  let ?produced = "\<lambda>k::nat. if k = 0 then [\<lparr>block_type = ''TEXT'', block_url = None, block_body = ''t''\<rparr>]
                         else [\<lparr>block_type = ''PAGE_IMAGE'', block_url = None, block_body = ''i''\<rparr>]"
  have h: "\<forall>k < length [''first chunk'', ''second chunk'']. (\<lambda>k. Inr (?produced k)) k = Inr (?produced k)"
    by simp
  from pages_follow_chunks [of "[''first chunk'', ''second chunk'']" "\<lambda>k. Inr (?produced k)" ?produced
      "''J1''" "''a.pdf''" True "\<lambda>k. ImgResult (Some ''https://img/1.jpg'')", OF h]
  obtain doc where d: "main_pipeline ''J1'' ''a.pdf'' (Inr [''first chunk'', ''second chunk''])
            (\<lambda>k. Inr (?produced k)) True (\<lambda>k. ImgResult (Some ''https://img/1.jpg'')) = Inr doc"
    and l: "length (pages doc) = length [''first chunk'', ''second chunk'']"
    and a: "\<forall>i < length [''first chunk'', ''second chunk''].
                 page_number (pages doc ! i) = i + 1
                 \<and> original_content (pages doc ! i) = [''first chunk'', ''second chunk''] ! i
                 \<and> list_all2 url_attached (?produced i) (page_blocks (pages doc ! i))
                 \<and> (True \<or> page_blocks (pages doc ! i) = ?produced i)"
    by blast
  from a [rule_format, of 1] have "page_number (pages doc ! 1) = 1 + 1
                 \<and> original_content (pages doc ! 1) = [''first chunk'', ''second chunk''] ! 1
                 \<and> list_all2 url_attached (?produced 1) (page_blocks (pages doc ! 1))"
    by simp
  then show ?thesis using d l by (intro exI [of _ doc]) simp
qed

section \<open>Claims on admission, the background pipeline and the callback\<close>

text \<open>
  C1, evaluated. The claim: admission of a job id whose pipeline is still running answers
  409 and has no side effect. \<open>J1\<close> is admitted and its task runs up to the await of the
  pipeline (status \<open>PROCESSING\<close>, progress 0 published); \<open>J1\<close> is then admitted again:
  the answer is the acceptance again, a second task for \<open>J1\<close> is added, and when it
  starts a second progress message for \<open>J1\<close> is on the bus. Nothing ever enters
  \<open>active_jobs\<close> of this processor (lemmas \<open>admission_active\<close>, \<open>run_summary\<close>), so the
  test of \<open>is_job_active\<close> never finds a job (lemma \<open>never_conflict\<close>).
\<close>

theorem duplicate_admission_accepted:
  "fst (process_pdf_async prd_init sample_request) = Accepted ''J1'' ''PROCESSING''
   \<and> current_status
        (fst (pipeline_start ''J1'' sample_env (snd (process_pdf_async prd_init sample_request))))
        ''J1'' = Some ''PROCESSING''
   \<and> fst (process_pdf_async
            (fst (pipeline_start ''J1'' sample_env (snd (process_pdf_async prd_init sample_request))))
            sample_request) = Accepted ''J1'' ''PROCESSING''
   \<and> background_tasks (snd (process_pdf_async
            (fst (pipeline_start ''J1'' sample_env (snd (process_pdf_async prd_init sample_request))))
            sample_request)) = [(''J1'', ''a.pdf''), (''J1'', ''a.pdf'')]
   \<and> progress_messages (bus (fst (pipeline_start ''J1'' sample_env (snd (process_pdf_async
            (fst (pipeline_start ''J1'' sample_env (snd (process_pdf_async prd_init sample_request))))
            sample_request))))) ''J1'' = [0, 0]"
  by (simp add: sample_admission is_job_active_def prd_init_def start_obs sample_env_def
      progress_messages_def)

text \<open>
  C2, as stated, fails: the claim is that a result message is published if and only if
  the status was set to \<open>COMPLETED\<close> and a non-empty url was obtained. When the publish on
  the result channel raises, the status has been set to \<open>COMPLETED\<close> and the url is there,
  but no result message is on the bus.
\<close>

theorem completed_without_result_message:
  "''COMPLETED'' \<in> set (statuses_set (process_pdf_pipeline ''J1'' ''a.pdf''
        (sample_env\<lparr>result_raises := Some ''connection lost''\<rparr>) prd_init) ''J1'')
   \<and> upload_result_to_s3 (s3 (sample_env\<lparr>result_raises := Some ''connection lost''\<rparr>)) ''J1''
       = Inr sample_url
   \<and> sample_url \<noteq> []
   \<and> result_messages (bus (process_pdf_pipeline ''J1'' ''a.pdf''
        (sample_env\<lparr>result_raises := Some ''connection lost''\<rparr>) prd_init)) ''J1'' = []"
proof -
  have s: "s3 (sample_env\<lparr>result_raises := Some ''connection lost''\<rparr>) = sample_s3"
    by (simp add: sample_env_def)
  have i: "statuses_set prd_init ''J1'' = []" "result_messages (bus prd_init) ''J1'' = []"
    by (simp_all add: prd_init_def statuses_set_def result_messages_def)
  show ?thesis
    unfolding run_summary
    by (simp add: sample_reaches s sample_upload i sample_url_def)
qed

text \<open>
  C2, amended. For every run of \<open>process_pdf_pipeline\<close>, whatever the processor held
  before: the run publishes a result message if and only if it set the status
  \<open>COMPLETED\<close>, which it does only after the upload has returned a url, and the publish on
  the result channel did not raise. The message carries the url the upload returned: a
  url built from the bucket, which is never empty, or, when \<open>_build_access_url\<close> passes on
  a presigned url, whatever \<open>generate_presigned_url\<close> returned, which is not tested. A run
  that ends with the status \<open>FAILED\<close> has published no result message, and a run that has
  published one ends with the status \<open>COMPLETED\<close>. (\<open>statuses_by_run\<close> and
  \<open>published_results\<close> are what the run adds to the statuses set for the job and to its
  result messages.)
\<close>

theorem result_message_iff:
  "statuses_set (process_pdf_pipeline job fname env p) job
     = statuses_set p job @ statuses_by_run job fname env p
   \<and> result_messages (bus (process_pdf_pipeline job fname env p)) job
     = result_messages (bus p) job @ published_results job fname env p
   \<and> ((published_results job fname env p \<noteq> [])
        = (''COMPLETED'' \<in> set (statuses_by_run job fname env p)
           \<and> (\<exists>u. upload_result_to_s3 (s3 env) job = Inr u)
           \<and> result_raises env = None))
   \<and> (''COMPLETED'' \<in> set (statuses_by_run job fname env p)
        \<longrightarrow> (\<exists>u. upload_result_to_s3 (s3 env) job = Inr u
                  \<and> (if returns_presigned (s3 env) then presigned_url (s3 env) = Some u
                     else u \<noteq> [])))
   \<and> (current_status (process_pdf_pipeline job fname env p) job = Some ''FAILED''
        \<longrightarrow> published_results job fname env p = [])
   \<and> (published_results job fname env p \<noteq> []
        \<longrightarrow> current_status (process_pdf_pipeline job fname env p) job = Some ''COMPLETED''
            \<and> published_results job fname env p = [projr (upload_result_to_s3 (s3 env) job)])"
proof -
  have a: "statuses_set (process_pdf_pipeline job fname env p) job
     = statuses_set p job @ statuses_by_run job fname env p"
    unfolding by_run run_summary by simp
  have b: "result_messages (bus (process_pdf_pipeline job fname env p)) job
     = result_messages (bus p) job @ published_results job fname env p"
    unfolding by_run run_summary by simp
  have c: "''COMPLETED'' \<in> set (statuses_by_run job fname env p) \<longleftrightarrow> reaches_completed env job"
    unfolding by_run by simp
  have u: "reaches_completed env job
           \<Longrightarrow> \<exists>u. upload_result_to_s3 (s3 env) job = Inr u
                  \<and> (if returns_presigned (s3 env) then presigned_url (s3 env) = Some u
                     else u \<noteq> [])"
    using reaches_upload [of env job] upload_url [of "s3 env" job] by blast
  have 1: "(published_results job fname env p \<noteq> [])
        = (''COMPLETED'' \<in> set (statuses_by_run job fname env p)
           \<and> (\<exists>u. upload_result_to_s3 (s3 env) job = Inr u)
           \<and> result_raises env = None)"
    unfolding c using reaches_upload [of env job] by (auto simp: by_run)
  have 2: "''COMPLETED'' \<in> set (statuses_by_run job fname env p)
        \<longrightarrow> (\<exists>u. upload_result_to_s3 (s3 env) job = Inr u
                  \<and> (if returns_presigned (s3 env) then presigned_url (s3 env) = Some u
                     else u \<noteq> []))"
    unfolding c using u by blast
  have 3: "current_status (process_pdf_pipeline job fname env p) job = Some ''FAILED''
        \<longrightarrow> published_results job fname env p = []"
    unfolding by_run run_summary by simp
  have 4: "published_results job fname env p \<noteq> []
        \<longrightarrow> current_status (process_pdf_pipeline job fname env p) job = Some ''COMPLETED''
            \<and> published_results job fname env p = [projr (upload_result_to_s3 (s3 env) job)]"
    unfolding by_run run_summary by simp
  show ?thesis using a b 1 2 3 4 by blast
qed

theorem result_message_iff_witness:
  "''COMPLETED'' \<in> set (statuses_by_run ''J1'' ''a.pdf'' sample_env prd_init)
   \<and> published_results ''J1'' ''a.pdf'' sample_env prd_init = [sample_url]
   \<and> sample_url \<noteq> []
   \<and> result_messages (bus (process_pdf_pipeline ''J1'' ''a.pdf'' sample_env prd_init)) ''J1''
       = [sample_url]
   \<and> current_status (process_pdf_pipeline ''J1'' ''a.pdf'' sample_env prd_init) ''J1''
       = Some ''COMPLETED''"
proof -
  have f: "result_messages (bus prd_init) ''J1'' = []"
    by (simp add: prd_init_def result_messages_def)
  have s: "s3 sample_env = sample_s3" "result_raises sample_env = None"
    by (simp_all add: sample_env_def)
  have r: "reaches_completed sample_env ''J1''"
    using sample_reaches [of None] by (simp add: sample_env_def)
  have c: "''COMPLETED'' \<in> set (statuses_by_run ''J1'' ''a.pdf'' sample_env prd_init)"
    unfolding by_run by (simp add: r)
  have m: "published_results ''J1'' ''a.pdf'' sample_env prd_init = [sample_url]"
    unfolding by_run by (simp add: r s sample_upload)
  have n: "sample_url \<noteq> []" by (simp add: sample_url_def)
  from result_message_iff [of "''J1''" "''a.pdf''" sample_env prd_init] c m f n
  show ?thesis by simp
qed




section \<open>Claims on the transformation\<close>




end
